(* ===== verification/Glass_Prelude.thy ===== *)
theory Glass_Prelude
  imports Main "HOL-Library.Word" "HOL-Library.State_Monad"
begin

text \<open>
  What every component shares: the machine integers of \<^verbatim>\<open>kernel/types.h\<close>, the
  state-monad combinators in which the stateful C functions are written, a small calculus
  for properties of monadic code (what a computation keeps, what it leaves untouched), and
  generic list lemmas about bounded windows and loops.
\<close>

unbundle bit_operations_syntax

section \<open>Machine integers\<close>

text \<open>\<^verbatim>\<open>kernel/types.h\<close>: \<open>uint8_t\<close>, \<open>uint16_t\<close>, \<open>uint32_t\<close>, \<open>uint64_t\<close>.\<close>

type_synonym u8 = "8 word"
type_synonym u16 = "16 word"
type_synonym u32 = "32 word"
type_synonym u64 = "64 word"

lemma unat_word_of_nat_small: "n < 2 ^ LENGTH('a) \<Longrightarrow> unat (word_of_nat n :: 'a::len word) = n"
  by (simp add: unat_of_nat take_bit_eq_mod)

section \<open>Stateful code\<close>

text \<open>
  A C function that reads and writes global state is a computation of the library's state
  monad. \<open>gets\<close> reads the state, \<open>modify\<close> updates it, \<open>cwhen\<close> is a one-armed
  \<^verbatim>\<open>if\<close>, and \<open>for_each\<close> is a \<^verbatim>\<open>for\<close> loop over a list of indices.
\<close>

abbreviation return :: "'a \<Rightarrow> ('s, 'a) state" where
  "return \<equiv> State_Monad.return"

definition gets :: "('s \<Rightarrow> 'a) \<Rightarrow> ('s, 'a) state" where
  "gets f = State (\<lambda>s. (f s, s))"

definition modify :: "('s \<Rightarrow> 's) \<Rightarrow> ('s, unit) state" where
  "modify f = State (\<lambda>s. ((), f s))"

definition cwhen :: "bool \<Rightarrow> ('s, unit) state \<Rightarrow> ('s, unit) state" where
  "cwhen b m = (if b then m else return ())"

fun for_each :: "'a list \<Rightarrow> ('a \<Rightarrow> ('s, unit) state) \<Rightarrow> ('s, unit) state" where
  "for_each [] f = return ()"
| "for_each (x # xs) f = do { f x; for_each xs f }"

text \<open>The final state, and the returned value, of a computation.\<close>

definition exec :: "('s, 'a) state \<Rightarrow> 's \<Rightarrow> 's" where
  "exec m s = snd (run_state m s)"

definition ret :: "('s, 'a) state \<Rightarrow> 's \<Rightarrow> 'a" where
  "ret m s = fst (run_state m s)"

lemma run_state_gets [simp]: "run_state (gets f) s = (f s, s)"
  by (simp add: gets_def)

lemma run_state_modify [simp]: "run_state (modify f) s = ((), f s)"
  by (simp add: modify_def)

lemma run_state_exec: "run_state m s = (ret m s, exec m s)"
  by (simp add: exec_def ret_def)

lemma exec_return [simp]: "exec (return x) s = s"
  and ret_return [simp]: "ret (return x) s = x"
  by (simp_all add: exec_def ret_def)

lemma exec_gets [simp]: "exec (gets f) s = s"
  and ret_gets [simp]: "ret (gets f) s = f s"
  by (simp_all add: exec_def ret_def)

lemma exec_modify [simp]: "exec (modify f) s = f s"
  by (simp add: exec_def)

lemma exec_bind [simp]: "exec (m \<bind> f) s = exec (f (ret m s)) (exec m s)"
  and ret_bind [simp]: "ret (m \<bind> f) s = ret (f (ret m s)) (exec m s)"
  by (simp_all add: exec_def ret_def split: prod.splits)

lemma exec_if [simp]: "exec (if b then m else n) s = (if b then exec m s else exec n s)"
  and ret_if [simp]: "ret (if b then m else n) s = (if b then ret m s else ret n s)"
  by simp_all

lemma exec_when [simp]: "exec (cwhen b m) s = (if b then exec m s else s)"
  by (simp add: cwhen_def)

lemma exec_for_each: "exec (for_each xs f) s = fold (\<lambda>x. exec (f x)) xs s"
  by (induction xs arbitrary: s) simp_all

lemma state_io_rel_exec: "state_io_rel R m \<longleftrightarrow> (\<forall>s. R s (exec m s))"
  by (simp add: state_io_rel_def exec_def)

section \<open>What a computation keeps\<close>

text \<open>
  An evolution is a relation between the state before and the state after a computation
  that is reflexive and transitive; every combinator respects it. Invariants and frame
  conditions are the two evolutions used throughout.
\<close>

locale evolution =
  fixes R :: "'s \<Rightarrow> 's \<Rightarrow> bool"
  assumes evo_refl: "R s s"
    and evo_trans: "R s t \<Longrightarrow> R t u \<Longrightarrow> R s u"
begin

lemma evolves_pure: "state_io_rel R (return x)" "state_io_rel R (gets g)"
  by (simp_all add: state_io_rel_exec evo_refl)

lemma evolves_bind:
  assumes "state_io_rel R m" and "\<And>x. state_io_rel R (f x)"
  shows "state_io_rel R (m \<bind> f)"
  using assms by (auto simp: state_io_rel_exec intro: evo_trans)

lemma evolves_modify: "(\<And>s. R s (g s)) \<Longrightarrow> state_io_rel R (modify g)"
  by (simp add: state_io_rel_exec)

lemma evolves_if: "(b \<Longrightarrow> state_io_rel R m) \<Longrightarrow> (\<not> b \<Longrightarrow> state_io_rel R n) \<Longrightarrow> state_io_rel R (if b then m else n)"
  by simp

lemma evolves_for_each: "(\<And>x. x \<in> set xs \<Longrightarrow> state_io_rel R (f x)) \<Longrightarrow> state_io_rel R (for_each xs f)"
  by (induction xs) (auto intro: evolves_pure evolves_bind)

lemma evolves_fold: "(\<And>x s. x \<in> set xs \<Longrightarrow> R s (f x s)) \<Longrightarrow> R s (fold f xs s)"
  by (induction xs arbitrary: s) (auto intro: evo_refl evo_trans)

end

text \<open>\<open>keeps P m\<close>: from a state with \<open>P\<close>, the computation ends in one with \<open>P\<close>.\<close>

definition keeps :: "('s \<Rightarrow> bool) \<Rightarrow> ('s, 'a) state \<Rightarrow> bool" where
  "keeps P m \<longleftrightarrow> (\<forall>s. P s \<longrightarrow> P (exec m s))"

text \<open>\<open>frame f m\<close>: the computation leaves the part \<open>f\<close> of the state as it is.\<close>

definition frame :: "('s \<Rightarrow> 'b) \<Rightarrow> ('s, 'a) state \<Rightarrow> bool" where
  "frame f m \<longleftrightarrow> (\<forall>s. f (exec m s) = f s)"

interpretation keeping: evolution "\<lambda>s t. P s \<longrightarrow> P t" for P
  by unfold_locales auto

interpretation framing: evolution "\<lambda>s t. f t = f s" for f
  by unfold_locales auto

lemma fold_frame: "(\<And>x s. x \<in> set xs \<Longrightarrow> p (f x s) = p s) \<Longrightarrow> p (fold f xs s) = p s"
  by (rule framing.evolves_fold)

lemma keeps_evolves: "keeps P m \<longleftrightarrow> state_io_rel (\<lambda>s t. P s \<longrightarrow> P t) m"
  by (simp add: keeps_def state_io_rel_exec)

lemma frame_evolves: "frame f m \<longleftrightarrow> state_io_rel (\<lambda>s t. f t = f s) m"
  by (simp add: frame_def state_io_rel_exec)

named_theorems keeps_intro "introduction rules: a computation keeps an invariant"
named_theorems frame_intro "introduction rules: a computation leaves a part of the state alone"
named_theorems frame_simps "equations: what a computation leaves alone"

lemma keepsI: "(\<And>s. P s \<Longrightarrow> P (exec m s)) \<Longrightarrow> keeps P m"
  by (simp add: keeps_def)

lemma keepsD: "keeps P m \<Longrightarrow> P s \<Longrightarrow> P (exec m s)"
  by (simp add: keeps_def)

lemma frameI: "(\<And>s. f (exec m s) = f s) \<Longrightarrow> frame f m"
  by (simp add: frame_def)

lemma frameD: "frame f m \<Longrightarrow> f (exec m s) = f s"
  by (simp add: frame_def)

lemma keeps_pure [keeps_intro]: "keeps P (return x)" "keeps P (gets g)"
  by (simp_all add: keeps_evolves keeping.evolves_pure)

lemma keeps_bind [keeps_intro]: "keeps P m \<Longrightarrow> (\<And>x. keeps P (f x)) \<Longrightarrow> keeps P (m \<bind> f)"
  by (simp add: keeps_evolves keeping.evolves_bind)

lemma keeps_if [keeps_intro]:
  "(b \<Longrightarrow> keeps P m) \<Longrightarrow> (\<not> b \<Longrightarrow> keeps P n) \<Longrightarrow> keeps P (if b then m else n)"
  by simp

lemma keeps_when [keeps_intro]: "(b \<Longrightarrow> keeps P m) \<Longrightarrow> keeps P (cwhen b m)"
  by (simp add: cwhen_def keeps_pure)

lemma keeps_for_each [keeps_intro]:
  "(\<And>x. x \<in> set xs \<Longrightarrow> keeps P (f x)) \<Longrightarrow> keeps P (for_each xs f)"
  by (simp add: keeps_evolves keeping.evolves_for_each)

lemma keeps_option [keeps_intro]:
  "(v = None \<Longrightarrow> keeps P m) \<Longrightarrow> (\<And>x. v = Some x \<Longrightarrow> keeps P (f x)) \<Longrightarrow>
   keeps P (case v of None \<Rightarrow> m | Some x \<Rightarrow> f x)"
  by (simp split: option.split)

lemma keeps_modify: "(\<And>s. P s \<Longrightarrow> P (g s)) \<Longrightarrow> keeps P (modify g)"
  by (simp add: keeps_def)

lemma frame_pure [frame_intro]: "frame p (return x)" "frame p (gets g)"
  by (simp_all add: frame_evolves framing.evolves_pure)

lemma frame_bind [frame_intro]: "frame p m \<Longrightarrow> (\<And>x. frame p (f x)) \<Longrightarrow> frame p (m \<bind> f)"
  by (simp add: frame_evolves framing.evolves_bind)

lemma frame_if [frame_intro]:
  "(b \<Longrightarrow> frame p m) \<Longrightarrow> (\<not> b \<Longrightarrow> frame p n) \<Longrightarrow> frame p (if b then m else n)"
  by simp

lemma frame_when [frame_intro]: "(b \<Longrightarrow> frame p m) \<Longrightarrow> frame p (cwhen b m)"
  by (simp add: cwhen_def frame_pure)

lemma frame_for_each [frame_intro]:
  "(\<And>x. x \<in> set xs \<Longrightarrow> frame p (f x)) \<Longrightarrow> frame p (for_each xs f)"
  by (simp add: frame_evolves framing.evolves_for_each)

lemma frame_option [frame_intro]:
  "(v = None \<Longrightarrow> frame p m) \<Longrightarrow> (\<And>x. v = Some x \<Longrightarrow> frame p (f x)) \<Longrightarrow>
   frame p (case v of None \<Rightarrow> m | Some x \<Rightarrow> f x)"
  by (simp split: option.split)

lemma frame_modify: "(\<And>s. p (g s) = p s) \<Longrightarrow> frame p (modify g)"
  by (simp add: frame_def)

text \<open>An invariant over a part of the state is kept by whatever leaves that part alone.\<close>

lemma keeps_of_frame: "frame p m \<Longrightarrow> keeps (\<lambda>s. P (p s)) m"
  by (simp add: frame_def keeps_def)

section \<open>Operations that extend a ledger\<close>

text \<open>
  A state that only grows hands out names (event numbers, object ids) that stay known. An
  operation is \<open>tracked\<close> with \<open>E\<close> and \<open>f\<close> when, told names \<open>E\<close> that are known, it keeps
  the invariant \<open>ok\<close> and returns a value whose names \<open>f\<close> are known, provided there is room for
  the \<open>n\<close> steps by which it grows the state.
\<close>

definition tracked ::
  "('s \<Rightarrow> 's \<Rightarrow> nat \<Rightarrow> bool) \<Rightarrow> ('s \<Rightarrow> nat \<Rightarrow> bool) \<Rightarrow> ('s \<Rightarrow> bool) \<Rightarrow> ('s \<Rightarrow> 'e \<Rightarrow> bool) \<Rightarrow>
   'e set \<Rightarrow> ('s, 'a) state \<Rightarrow> ('a \<Rightarrow> 'e set) \<Rightarrow> bool" where
  "tracked grows room ok known E m f \<longleftrightarrow>
     (\<forall>s. \<exists>n. grows s (exec m s) n \<and>
        (room s n \<and> ok s \<and> (\<forall>e \<in> E. known s e) \<longrightarrow>
           ok (exec m s) \<and> (\<forall>e \<in> f (ret m s). known (exec m s) e)))"

locale ledger =
  fixes grows :: "'s \<Rightarrow> 's \<Rightarrow> nat \<Rightarrow> bool"
    and room :: "'s \<Rightarrow> nat \<Rightarrow> bool"
    and ok :: "'s \<Rightarrow> bool"
    and known :: "'s \<Rightarrow> 'e \<Rightarrow> bool"
  assumes grows_refl: "grows s s 0"
    and grows_trans: "grows s t a \<Longrightarrow> grows t u b \<Longrightarrow> grows s u (a + b)"
    and room_split: "room s (a + b) \<Longrightarrow> grows s t a \<Longrightarrow> room s a \<and> room t b"
    and known_grows: "known s e \<Longrightarrow> grows s t n \<Longrightarrow> room s n \<Longrightarrow> known t e"
begin

lemma tracked_bind:
  assumes m: "tracked grows room ok known E m f"
    and g: "\<And>x. tracked grows room ok known (E \<union> f x) (g x) h"
  shows "tracked grows room ok known E (m \<bind> g) h"
  unfolding tracked_def
proof
  fix s
  let ?t = "exec m s" and ?x = "ret m s"
  obtain a where a: "grows s ?t a"
    "room s a \<and> ok s \<and> (\<forall>e \<in> E. known s e) \<longrightarrow> ok ?t \<and> (\<forall>e \<in> f ?x. known ?t e)"
    using m unfolding tracked_def by blast
  obtain b where b: "grows ?t (exec (g ?x) ?t) b"
    "room ?t b \<and> ok ?t \<and> (\<forall>e \<in> E \<union> f ?x. known ?t e) \<longrightarrow>
      ok (exec (g ?x) ?t) \<and> (\<forall>e \<in> h (ret (g ?x) ?t). known (exec (g ?x) ?t) e)"
    using g [of ?x] unfolding tracked_def by blast
  have "grows s (exec (m \<bind> g) s) (a + b)"
    using a(1) b(1) by (simp add: grows_trans)
  moreover have "ok (exec (m \<bind> g) s) \<and> (\<forall>e \<in> h (ret (m \<bind> g) s). known (exec (m \<bind> g) s) e)"
    if "room s (a + b) \<and> ok s \<and> (\<forall>e \<in> E. known s e)"
    using that a b room_split [of s a b ?t] known_grows [of s _ ?t a] by auto
  ultimately show "\<exists>n. grows s (exec (m \<bind> g) s) n \<and>
      (room s n \<and> ok s \<and> (\<forall>e \<in> E. known s e) \<longrightarrow>
        ok (exec (m \<bind> g) s) \<and> (\<forall>e \<in> h (ret (m \<bind> g) s). known (exec (m \<bind> g) s) e))"
    by blast
qed

lemma tracked_weaken:
  assumes "tracked grows room ok known E m f" and "E \<subseteq> E'" and "\<And>x. g x \<subseteq> f x"
  shows "tracked grows room ok known E' m g"
  unfolding tracked_def
proof
  fix s
  obtain n where "grows s (exec m s) n"
    "room s n \<and> ok s \<and> (\<forall>e \<in> E. known s e) \<longrightarrow>
      ok (exec m s) \<and> (\<forall>e \<in> f (ret m s). known (exec m s) e)"
    using assms(1) unfolding tracked_def by blast
  then show "\<exists>n. grows s (exec m s) n \<and>
      (room s n \<and> ok s \<and> (\<forall>e \<in> E'. known s e) \<longrightarrow>
        ok (exec m s) \<and> (\<forall>e \<in> g (ret m s). known (exec m s) e))"
    using assms(2,3) by blast
qed

lemma tracked_step:
  assumes "\<And>s. grows s (exec m s) 0"
    and "\<And>s. ok s \<Longrightarrow> \<forall>e \<in> E. known s e \<Longrightarrow>
      ok (exec m s) \<and> (\<forall>e \<in> f (ret m s). known (exec m s) e)"
  shows "tracked grows room ok known E m f"
  unfolding tracked_def using assms by blast

lemma tracked_return: "f x \<subseteq> E \<Longrightarrow> tracked grows room ok known E (return x) f"
  by (rule tracked_step) (auto intro: grows_refl)

lemma tracked_pure:
  "tracked grows room ok known E (return x) (\<lambda>_. {})" "tracked grows room ok known E (gets g) (\<lambda>_. {})"
  by (rule tracked_step; simp add: grows_refl)+

lemma tracked_if:
  "tracked grows room ok known E m f \<Longrightarrow> tracked grows room ok known E n f \<Longrightarrow>
   tracked grows room ok known E (if b then m else n) f"
  by simp

lemma tracked_option:
  "tracked grows room ok known E m f \<Longrightarrow> (\<And>x. tracked grows room ok known E (g x) f) \<Longrightarrow>
   tracked grows room ok known E (case v of None \<Rightarrow> m | Some x \<Rightarrow> g x) f"
  by (simp split: option.split)

lemma tracked_when:
  "tracked grows room ok known E m (\<lambda>_. {}) \<Longrightarrow> tracked grows room ok known E (cwhen b m) (\<lambda>_. {})"
  by (simp add: cwhen_def tracked_pure)

lemma tracked_for_each:
  assumes "\<And>x. tracked grows room ok known E (g x) (\<lambda>_. {})"
  shows "tracked grows room ok known E (for_each xs g) (\<lambda>_. {})"
proof (induction xs)
  case (Cons x xs)
  have "tracked grows room ok known (E \<union> {}) (for_each xs g) (\<lambda>_. {})" using Cons by simp
  then show ?case
    using tracked_bind [OF assms [of x], of "\<lambda>_. for_each xs g"] by simp
qed (simp add: tracked_pure)

end

section \<open>Bounded windows\<close>

text \<open>The last \<open>n\<close> items of a list, oldest first: what a ring of capacity \<open>n\<close> retains.\<close>

definition last_n :: "nat \<Rightarrow> 'a list \<Rightarrow> 'a list" where
  "last_n n xs = drop (length xs - n) xs"

lemma length_last_n [simp]: "length (last_n n xs) = min n (length xs)"
  by (auto simp: last_n_def)

lemma last_n_Nil [simp]: "last_n n [] = []"
  by (simp add: last_n_def)

lemma last_n_short: "length xs \<le> n \<Longrightarrow> last_n n xs = xs"
  by (simp add: last_n_def)

lemma last_n_snoc_last_n: "last_n n (last_n n xs @ [x]) = last_n n (xs @ [x])"
  by (cases "length xs \<le> n"; cases n) (auto simp: last_n_def not_le Suc_diff_Suc)

lemma nth_last_n: "i < n \<Longrightarrow> i < length xs \<Longrightarrow> last_n n xs ! i = xs ! (length xs - n + i)"
  by (simp add: last_n_def)

lemma set_last_n: "set (last_n n xs) \<subseteq> set xs"
  by (simp add: last_n_def set_drop_subset)

text \<open>A bounded log: a store into which items are pushed and which retains the last \<open>cap\<close>.
  The event journal and the keyboard's command history are both of this kind.\<close>

locale bounded_log =
  fixes push :: "'a \<Rightarrow> 'r \<Rightarrow> 'r"
    and contents :: "'r \<Rightarrow> 'a list"
    and cap :: nat
    and wf :: "'r \<Rightarrow> bool"
    and good :: "'a \<Rightarrow> bool"
  assumes wf_push: "wf r \<Longrightarrow> good x \<Longrightarrow> wf (push x r)"
    and contents_push: "wf r \<Longrightarrow> good x \<Longrightarrow> contents (push x r) = last_n cap (contents r @ [x])"
begin

lemma wf_pushes: "wf r \<Longrightarrow> list_all good xs \<Longrightarrow> wf (fold push xs r)"
  by (induction xs arbitrary: r) (auto intro: wf_push)

lemma contents_pushes:
  assumes "wf r" and "length (contents r) \<le> cap" and "list_all good xs"
  shows "contents (fold push xs r) = last_n cap (contents r @ xs)"
  using assms
proof (induction xs rule: rev_induct)
  case Nil
  then show ?case by (simp add: last_n_short)
next
  case (snoc x xs)
  then have "contents (fold push xs r) = last_n cap (contents r @ xs)" by simp
  then show ?case
    using wf_pushes [OF snoc.prems(1), of xs] snoc.prems(3)
    by (simp add: contents_push last_n_snoc_last_n flip: append_assoc)
qed

lemma contents_bound: "wf r \<Longrightarrow> good x \<Longrightarrow> length (contents (push x r)) \<le> cap"
  by (simp add: contents_push)

end

section \<open>Searching an array\<close>

text \<open>The loop \<^verbatim>\<open>for (i = 0; i < count; i++) if (P(array[i])) return &array[i]; return 0;\<close>,
  with the index for the pointer.\<close>

fun find_index :: "('a \<Rightarrow> bool) \<Rightarrow> 'a list \<Rightarrow> nat option" where
  "find_index P [] = None"
| "find_index P (x # xs) = (if P x then Some 0 else map_option Suc (find_index P xs))"

lemma find_index_None: "find_index P xs = None \<longleftrightarrow> (\<forall>x\<in>set xs. \<not> P x)"
  by (induction xs) auto

lemma find_index_SomeD:
  "find_index P xs = Some i \<Longrightarrow> i < length xs \<and> P (xs ! i) \<and> (\<forall>j<i. \<not> P (xs ! j))"
proof (induction xs arbitrary: i)
  case Nil
  then show ?case by simp
next
  case (Cons x xs)
  then show ?case
    by (auto simp: less_Suc_eq_0_disj nth_Cons' split: if_splits)
qed

lemma find_index_SomeI:
  "i < length xs \<Longrightarrow> P (xs ! i) \<Longrightarrow> (\<And>j. j < i \<Longrightarrow> \<not> P (xs ! j)) \<Longrightarrow> find_index P xs = Some i"
proof (induction xs arbitrary: i)
  case Nil
  then show ?case by simp
next
  case (Cons x xs)
  show ?case
  proof (cases i)
    case 0
    with Cons.prems show ?thesis by simp
  next
    case (Suc k)
    have "\<not> P x" using Cons.prems(3) [of 0] Suc by simp
    moreover have "find_index P xs = Some k"
    proof (rule Cons.IH)
      show "\<not> P (xs ! j)" if "j < k" for j
        using Cons.prems(3) [of "Suc j"] Suc that by simp
    qed (use Cons.prems Suc in auto)
    ultimately show ?thesis using Suc by simp
  qed
qed

lemma find_index_append:
  "find_index P (xs @ ys) =
     (case find_index P xs of Some i \<Rightarrow> Some i | None \<Rightarrow> map_option ((+) (length xs)) (find_index P ys))"
  by (induction xs; cases "find_index P ys") (auto split: option.splits)

lemma find_index_update:
  assumes "i < length xs" and "P y = P (xs ! i)"
  shows "find_index P (xs[i := y]) = find_index P xs"
  using assms
proof (induction xs arbitrary: i)
  case Nil
  then show ?case by simp
next
  case (Cons x xs)
  then show ?case by (cases i) auto
qed

section \<open>Loops over a range\<close>

text \<open>Index ranges with numeral bounds are looped over, not written out.\<close>

declare upto_rec_numeral [simp del]
declare upt_rec_numeral [simp del]

text \<open>\<^verbatim>\<open>for (x = lo; x < hi; x += step)\<close>, as the list of the values \<open>x\<close> takes.\<close>

function range_by :: "nat \<Rightarrow> nat \<Rightarrow> nat \<Rightarrow> nat list" where
  "range_by step lo hi = (if lo < hi \<and> 0 < step then lo # range_by step (lo + step) hi else [])"
  by pat_completeness auto
termination
  by (relation "measure (\<lambda>(step, lo, hi). hi - lo)") auto

declare range_by.simps [simp del]

lemma set_range_by: "0 < step \<Longrightarrow> x \<in> set (range_by step lo hi) \<longleftrightarrow> lo \<le> x \<and> x < hi \<and> step dvd (x - lo)"
proof (induction step lo hi rule: range_by.induct)
  case (1 step lo hi)
  show ?case
  proof (cases "lo < hi")
    case True
    have step: "step dvd (x - lo) \<longleftrightarrow> step dvd (x - (lo + step))" if "lo + step \<le> x"
      using that dvd_add_triv_right_iff [of step "x - (lo + step)"] by simp
    have first: "step dvd (x - lo) \<longleftrightarrow> x = lo" if "lo \<le> x" "x < lo + step"
      using that nat_dvd_not_less [of "x - lo" step] by (cases "x = lo") auto
    have "range_by step lo hi = lo # range_by step (lo + step) hi"
      using True "1.prems" by (subst range_by.simps) simp
    then show ?thesis
      using True "1" step first by (cases "lo + step \<le> x") auto
  next
    case False
    then show ?thesis by (subst range_by.simps) auto
  qed
qed

end
