(* ===== verification/C_Text.thy ===== *)
theory C_Text
  imports Glass_Prelude
begin

text \<open>
  The text helpers that every kernel file repeats. A NUL-terminated character buffer is the
  string of the characters before its NUL, so no string of the model holds a NUL and a
  pointer into a buffer is a suffix of its string. A source pointer that may be null is a
  \<open>string option\<close>. Bounded copies keep their capacity; numbers keep their width.
\<close>

section \<open>Copying and comparing\<close>

text \<open>\<^verbatim>\<open>while (i < n && source[i] != 0) { destination[i] = source[i]; i++; }\<close>\<close>

fun copy_chars :: "nat \<Rightarrow> string \<Rightarrow> string" where
  "copy_chars 0 source = []"
| "copy_chars (Suc n) [] = []"
| "copy_chars (Suc n) (c # source) = c # copy_chars n source"

definition copy_text :: "nat \<Rightarrow> string option \<Rightarrow> string" where
  "copy_text capacity source =
     copy_chars (capacity - 1) (case source of None \<Rightarrow> [] | Some s \<Rightarrow> s)"

definition copy_field :: "nat \<Rightarrow> string option \<Rightarrow> string" where
  "copy_field capacity source =
     copy_chars (capacity - 1) (case source of None \<Rightarrow> [] | Some s \<Rightarrow> s)"

definition copy_value :: "nat \<Rightarrow> string \<Rightarrow> string" where
  "copy_value capacity source = copy_chars (capacity - 1) source"

fun text_equal :: "string \<Rightarrow> string \<Rightarrow> bool" where
  "text_equal [] right = (right = [])"
| "text_equal (l # left) [] = False"
| "text_equal (l # left) (r # right) = (if l = r then text_equal left right else False)"

fun starts_with :: "string \<Rightarrow> string \<Rightarrow> bool" where
  "starts_with text [] = True"
| "starts_with [] (p # prefix) = False"
| "starts_with (t # text) (p # prefix) = (if t \<noteq> p then False else starts_with text prefix)"

lemma copy_chars_take [simp]: "copy_chars n s = take n s"
  by (induction n s rule: copy_chars.induct) simp_all

lemma copy_text_Some [simp]: "copy_text capacity (Some s) = take (capacity - 1) s"
  and copy_text_None [simp]: "copy_text capacity None = []"
  by (simp_all add: copy_text_def)

lemma copy_field_Some [simp]: "copy_field capacity (Some s) = take (capacity - 1) s"
  and copy_field_None [simp]: "copy_field capacity None = []"
  by (simp_all add: copy_field_def)

lemma copy_value_take [simp]: "copy_value capacity s = take (capacity - 1) s"
  by (simp add: copy_value_def)

lemma text_equal_iff [simp]: "text_equal left right \<longleftrightarrow> left = right"
  by (induction left right rule: text_equal.induct) auto

lemma starts_with_iff: "starts_with text prefix \<longleftrightarrow> (\<exists>rest. text = prefix @ rest)"
  by (induction "text" prefix rule: starts_with.induct) auto

section \<open>Reading numbers\<close>

definition is_digit :: "char \<Rightarrow> bool" where
  "is_digit c \<longleftrightarrow> 48 \<le> (of_char c :: nat) \<and> (of_char c :: nat) \<le> 57"

text \<open>The digit loop shared by the four parsers: the value so far at the width of the
  variable, the number of digits read, and the text left.\<close>

fun scan_digits :: "'a::len word \<Rightarrow> string \<Rightarrow> 'a word \<times> nat \<times> string" where
  "scan_digits value [] = (value, 0, [])"
| "scan_digits value (c # text) =
     (if is_digit c
      then (case scan_digits (value * 10 + (word_of_nat (of_char c) - 48)) text of
              (v, digits, rest) \<Rightarrow> (v, Suc digits, rest))
      else (value, 0, c # text))"

definition parse_id :: "string \<Rightarrow> u32" where
  "parse_id text =
     (case scan_digits 0 text of (value, digits, rest) \<Rightarrow>
        if rest = [] \<and> 0 < digits then value else 0)"

definition parse_decimal64 :: "string \<Rightarrow> u64" where
  "parse_decimal64 text =
     (case scan_digits 0 text of (value, digits, rest) \<Rightarrow>
        if rest = [] \<and> 0 < digits then value else 0)"

definition parse_sequence :: "string \<Rightarrow> u64" where
  "parse_sequence text =
     (case scan_digits 0 text of (value, digits, rest) \<Rightarrow> if rest = [] then value else 0)"

definition parse_decimal :: "string \<Rightarrow> u32" where
  "parse_decimal text = (case scan_digits 0 text of (value, digits, rest) \<Rightarrow> value)"

section \<open>Writing text and numbers into a bounded buffer\<close>

text \<open>The buffer is the text written so far, so \<^verbatim>\<open>*position\<close> is its length.\<close>

fun append_text :: "nat \<Rightarrow> string \<Rightarrow> string \<Rightarrow> string" where
  "append_text capacity buf [] = buf"
| "append_text capacity buf (c # text) =
     (if length buf < capacity - 1 then append_text capacity (buf @ [c]) text else buf)"

text \<open>\<^verbatim>\<open>while (value != 0 && count < limit)\<close>: the digits, least significant first.\<close>

fun digit_chars :: "nat \<Rightarrow> nat \<Rightarrow> string" where
  "digit_chars 0 v = []"
| "digit_chars (Suc limit) v =
     (if v = 0 then [] else char_of (48 + v mod 10) # digit_chars limit (v div 10))"

definition append_decimal64 :: "nat \<Rightarrow> string \<Rightarrow> u64 \<Rightarrow> string" where
  "append_decimal64 capacity buf value =
     (if value = 0 then append_text capacity buf ''0''
      else fold (\<lambda>d b. append_text capacity b [d]) (rev (digit_chars 20 (unat value))) buf)"

definition append_decimal32 :: "nat \<Rightarrow> string \<Rightarrow> u32 \<Rightarrow> string" where
  "append_decimal32 capacity buf value =
     (if value = 0 then append_text capacity buf ''0''
      else fold (\<lambda>d b. append_text capacity b [d]) (rev (digit_chars 10 (unat value))) buf)"

lemma append_text_eq: "append_text capacity buf text = buf @ take (capacity - 1 - length buf) text"
proof (induction capacity buf "text" rule: append_text.induct)
  case (1 capacity buf)
  then show ?case by simp
next
  case (2 capacity buf c cs)
  show ?case
  proof (cases "length buf < capacity - 1")
    case True
    then obtain k where "capacity = Suc (length buf + Suc k)"
      by (metis add_Suc_right less_imp_Suc_add Suc_pred' not_less_zero zero_less_diff diff_0_eq_0 gr0I)
    with "2" show ?thesis by simp
  qed auto
qed

lemma append_text_fits:
  "length buf + length text < capacity \<Longrightarrow> append_text capacity buf text = buf @ text"
  by (simp add: append_text_eq)

lemma append_text_append:
  "append_text capacity (append_text capacity buf s) t = append_text capacity buf (s @ t)"
  by (auto simp: append_text_eq take_add min_def)

lemma append_singles: "fold (\<lambda>d b. append_text capacity b [d]) ds buf = append_text capacity buf ds"
proof (induction ds arbitrary: buf)
  case Nil
  then show ?case by simp
next
  case (Cons d ds)
  then show ?case
    using append_text_append [of capacity buf "[d]" ds] by (simp del: append_text.simps)
qed

lemma length_append_text: "length buf < capacity \<Longrightarrow> length (append_text capacity buf text) < capacity"
  by (auto simp: append_text_eq)

section \<open>Decimal text\<close>

text \<open>The decimal numeral of a number, without a bound: what the digit loops compute.\<close>

fun dec_rev :: "nat \<Rightarrow> string" where
  "dec_rev n = (if n = 0 then [] else char_of (48 + n mod 10) # dec_rev (n div 10))"

declare dec_rev.simps [simp del]

definition decimal :: "nat \<Rightarrow> string" where
  "decimal n = (if n = 0 then ''0'' else rev (dec_rev n))"

lemma dec_rev_0 [simp]: "dec_rev 0 = []"
  by (simp add: dec_rev.simps)

lemma digit_chars_take: "digit_chars limit v = take limit (dec_rev v)"
proof (induction limit v rule: digit_chars.induct)
  case (1 v)
  then show ?case by simp
next
  case (2 limit v)
  then show ?case by (subst dec_rev.simps) simp
qed

lemma length_dec_rev: "v < 10 ^ k \<Longrightarrow> length (dec_rev v) \<le> k"
proof (induction k arbitrary: v)
  case 0
  then show ?case by simp
next
  case (Suc k)
  then have "length (dec_rev (v div 10)) \<le> k"
    by (simp add: less_mult_imp_div_less ac_simps)
  then show ?case by (subst dec_rev.simps) simp
qed

lemma digit_chars_all: "v < 10 ^ limit \<Longrightarrow> digit_chars limit v = dec_rev v"
  by (simp add: digit_chars_take length_dec_rev)

text \<open>Twenty digits are enough for 64 bits and ten for 32, so no digit is ever dropped.\<close>

lemma append_decimal64_eq: "append_decimal64 capacity buf v = append_text capacity buf (decimal (unat v))"
proof -
  have "unat v < 10 ^ 20"
    using unsigned_less [of v, where ?'a = nat] by simp
  then show ?thesis
    by (auto simp: append_decimal64_def decimal_def append_singles digit_chars_all unat_eq_zero
        simp del: append_text.simps)
qed

lemma append_decimal32_eq: "append_decimal32 capacity buf v = append_text capacity buf (decimal (unat v))"
proof -
  have "unat v < 10 ^ 10"
    using unsigned_less [of v, where ?'a = nat] by simp
  then show ?thesis
    by (auto simp: append_decimal32_def decimal_def append_singles digit_chars_all unat_eq_zero
        simp del: append_text.simps)
qed

lemma length_decimal: "v < 10 ^ k \<Longrightarrow> 0 < k \<Longrightarrow> length (decimal v) \<le> k"
  using length_dec_rev [of v k] by (auto simp: decimal_def)

lemma digit_char_code: "d < 10 \<Longrightarrow> of_char (char_of (48 + d) :: char) = (48 + d :: nat)"
  by (simp add: of_char_of)

lemma is_digit_digit_char [simp]: "is_digit (char_of (48 + n mod 10 :: nat))"
  by (simp add: is_digit_def digit_char_code)

lemma decimal_digits: "c \<in> set (decimal n) \<Longrightarrow> is_digit c"
proof -
  have "c \<in> set (dec_rev n) \<Longrightarrow> is_digit c" for c
    by (induction n rule: dec_rev.induct) (subst (asm) (2) dec_rev.simps, auto split: if_splits)
  then show "c \<in> set (decimal n) \<Longrightarrow> is_digit c"
    by (auto simp: decimal_def is_digit_def split: if_splits)
qed

lemma decimal_not_Nil [simp]: "decimal n \<noteq> []"
  by (auto simp: decimal_def) (simp add: dec_rev.simps)

text \<open>The value a run of digits denotes.\<close>

definition digits_value :: "nat \<Rightarrow> string \<Rightarrow> nat" where
  "digits_value v ds = foldl (\<lambda>v c. v * 10 + (of_char c - 48)) v ds"

lemma digits_value_decimal: "digits_value 0 (decimal n) = n"
proof -
  have "digits_value 0 (rev (dec_rev n)) = n"
  proof (induction n rule: dec_rev.induct)
    case (1 n)
    show ?case
    proof (cases "n = 0")
      case True
      then show ?thesis by (simp add: digits_value_def)
    next
      case False
      then have "dec_rev n = char_of (48 + n mod 10) # dec_rev (n div 10)"
        by (subst dec_rev.simps) simp
      then show ?thesis
        using "1" False by (simp add: digits_value_def digit_char_code)
    qed
  qed
  then show ?thesis by (simp add: decimal_def digits_value_def)
qed

lemma scan_digits_run:
  assumes "\<And>c. c \<in> set ds \<Longrightarrow> is_digit c" and "rest = [] \<or> \<not> is_digit (hd rest)"
  shows "scan_digits (word_of_nat v) (ds @ rest) = (word_of_nat (digits_value v ds), length ds, rest)"
  using assms
proof (induction ds arbitrary: v)
  case Nil
  then show ?case by (cases rest) (auto simp: digits_value_def)
next
  case (Cons c ds)
  have "(word_of_nat v :: 'a word) * 10 + (word_of_nat (of_char c) - 48)
      = word_of_nat (v * 10 + (of_char c - 48))"
    using Cons.prems(1) [of c] by (simp add: is_digit_def of_nat_diff)
  then show ?case
    using Cons.prems Cons.IH [of "v * 10 + (of_char c - 48)"]
    by (simp add: digits_value_def del: of_nat_add of_nat_mult of_nat_diff)
qed

lemma scan_decimal:
  "rest = [] \<or> \<not> is_digit (hd rest) \<Longrightarrow>
   scan_digits 0 (decimal n @ rest) = (word_of_nat n, length (decimal n), rest)"
  using scan_digits_run [of "decimal n" rest 0] by (simp add: decimal_digits digits_value_decimal)

text \<open>Printing then parsing gives the number back, at the width of the parser.\<close>

lemma parse_id_decimal: "parse_id (decimal n) = word_of_nat n"
  and parse_decimal64_decimal: "parse_decimal64 (decimal n) = word_of_nat n"
  and parse_sequence_decimal: "parse_sequence (decimal n) = word_of_nat n"
  using scan_decimal [of "[]" n, where ?'a = 32] scan_decimal [of "[]" n, where ?'a = 64]
  by (simp_all add: parse_id_def parse_decimal64_def parse_sequence_def)

lemma decimal_inject: "decimal m = decimal n \<Longrightarrow> m = n"
  using digits_value_decimal by metis

text \<open>A text that does not start with a digit is never taken for an id.\<close>

lemma parse_id_name: "s = [] \<or> \<not> is_digit (hd s) \<Longrightarrow> parse_id s = 0"
  by (cases s) (auto simp: parse_id_def)

section \<open>Properties\<close>

text \<open>C37: Printing a 64-bit number with \<^verbatim>\<open>append_decimal\<close> into an empty buffer that has room
  for twenty digits, and parsing the text back, gives the number again, with either of the two
  parsers of sequence numbers.\<close>

theorem decimal_round_trip:
  assumes "20 < capacity"
  shows "parse_decimal64 (append_decimal64 capacity [] n) = n \<and>
    parse_sequence (append_decimal64 capacity [] n) = n"
proof -
  have "unat n < 10 ^ 20" using unsigned_less [of n, where ?'a = nat] by simp
  then have "length (decimal (unat n)) \<le> 20" by (rule length_decimal) simp
  then have "append_decimal64 capacity [] n = decimal (unat n)"
    using assms by (simp add: append_decimal64_eq append_text_eq)
  then show ?thesis
    by (simp add: parse_decimal64_decimal parse_sequence_decimal)
qed

theorem decimal_round_trip_witness:
  "parse_decimal64 (append_decimal64 48 [] 1234) = 1234 \<and> parse_sequence (append_decimal64 48 [] 1234) = 1234"
  using decimal_round_trip [of 48 1234] by simp

end
