(* ===== verification/Page_Frames.thy ===== *)
theory Page_Frames
  imports C_Text
begin

text \<open>
  The state of \<^verbatim>\<open>kernel/memory.c\<close> and the part of it that records no event: the two page
  bitmaps, the marking of usable and reserved address ranges, and the search for free pages.
  Addresses are 64-bit words; a page index, which the code only forms from addresses below
  1 GiB, is a natural number.
\<close>

section \<open>State\<close>

text \<open>The file's static variables, the physical memory that the kernel reads and writes through
  the identity mapping, and the page-table base register.\<close>

record memory =
  page_bitmap :: "nat \<Rightarrow> u8"
  usable_bitmap :: "nat \<Rightarrow> u8"
  usable_memory_bytes :: u64
  detected_entry_count :: u32
  heap_base :: u64
  heap_limit :: u64
  heap_ptr :: u64
  allocator_ready :: bool
  kernel_cr3 :: u64
  ram :: "u64 \<Rightarrow> u8"
  cr3 :: u64

abbreviation (input) PAGE_SIZE :: u64 where "PAGE_SIZE \<equiv> 4096"
abbreviation (input) IDENTITY_MAP_LIMIT :: u64 where "IDENTITY_MAP_LIMIT \<equiv> 0x40000000"
abbreviation (input) PAGE_ALLOCATOR_START :: u64 where "PAGE_ALLOCATOR_START \<equiv> 0x100000"
abbreviation (input) PAGE_COUNT :: nat where "PAGE_COUNT \<equiv> 262144"
abbreviation (input) PAGE_BITMAP_SIZE :: nat where "PAGE_BITMAP_SIZE \<equiv> 32768"
abbreviation (input) HEAP_PAGE_COUNT :: u64 where "HEAP_PAGE_COUNT \<equiv> 16"

section \<open>The bitmaps\<close>

definition bitmap_set :: "nat \<Rightarrow> memory \<Rightarrow> memory" where
  "bitmap_set page m = m\<lparr>page_bitmap := (page_bitmap m)
     (page div 8 := page_bitmap m (page div 8) OR push_bit (page mod 8) 1)\<rparr>"

definition bitmap_clear :: "nat \<Rightarrow> memory \<Rightarrow> memory" where
  "bitmap_clear page m = m\<lparr>page_bitmap := (page_bitmap m)
     (page div 8 := page_bitmap m (page div 8) AND NOT (push_bit (page mod 8) 1))\<rparr>"

definition bitmap_is_set :: "nat \<Rightarrow> memory \<Rightarrow> bool" where
  "bitmap_is_set page m \<longleftrightarrow> page_bitmap m (page div 8) AND push_bit (page mod 8) 1 \<noteq> 0"

definition usable_bitmap_set :: "nat \<Rightarrow> memory \<Rightarrow> memory" where
  "usable_bitmap_set page m = m\<lparr>usable_bitmap := (usable_bitmap m)
     (page div 8 := usable_bitmap m (page div 8) OR push_bit (page mod 8) 1)\<rparr>"

definition usable_bitmap_clear :: "nat \<Rightarrow> memory \<Rightarrow> memory" where
  "usable_bitmap_clear page m = m\<lparr>usable_bitmap := (usable_bitmap m)
     (page div 8 := usable_bitmap m (page div 8) AND NOT (push_bit (page mod 8) 1))\<rparr>"

definition usable_bitmap_is_set :: "nat \<Rightarrow> memory \<Rightarrow> bool" where
  "usable_bitmap_is_set page m \<longleftrightarrow> usable_bitmap m (page div 8) AND push_bit (page mod 8) 1 \<noteq> 0"

definition bitmap_fill :: "u8 \<Rightarrow> (nat \<Rightarrow> u8) \<Rightarrow> nat \<Rightarrow> u8" where
  "bitmap_fill value bitmap = (\<lambda>i. if i < PAGE_BITMAP_SIZE then value else bitmap i)"

section \<open>Ranges of addresses\<close>

definition align_up :: "u64 \<Rightarrow> u64" where
  "align_up value = (value + PAGE_SIZE - 1) AND NOT (PAGE_SIZE - 1)"

definition align_down :: "u64 \<Rightarrow> u64" where
  "align_down value = value AND NOT (PAGE_SIZE - 1)"

definition range_end :: "u64 \<Rightarrow> u64 \<Rightarrow> u64" where
  "range_end base len =
     (if len > IDENTITY_MAP_LIMIT - base then IDENTITY_MAP_LIMIT else base + len)"

definition range_start :: "u64 \<Rightarrow> u64" where
  "range_start base = (if base < PAGE_ALLOCATOR_START then PAGE_ALLOCATOR_START else base)"

definition mark_usable_page :: "nat \<Rightarrow> memory \<Rightarrow> memory" where
  "mark_usable_page page m = bitmap_clear page (usable_bitmap_set page m)"

definition mark_usable_range :: "u64 \<Rightarrow> u64 \<Rightarrow> memory \<Rightarrow> memory" where
  "mark_usable_range base len m =
     (if base \<ge> IDENTITY_MAP_LIMIT \<or> len = 0 then m
      else let end = align_down (range_end base len);
               start = align_up (range_start base)
           in fold (\<lambda>address. mark_usable_page (address div 4096))
                (range_by 4096 (unat start) (unat end)) m)"

definition mark_reserved_page :: "nat \<Rightarrow> memory \<Rightarrow> memory" where
  "mark_reserved_page page m = bitmap_set page (usable_bitmap_clear page m)"

definition mark_reserved_range :: "u64 \<Rightarrow> u64 \<Rightarrow> memory \<Rightarrow> memory" where
  "mark_reserved_range base len m =
     (if base \<ge> IDENTITY_MAP_LIMIT \<or> len = 0 then m
      else let start = align_down (range_start base);
               end = align_up (range_end base len);
               end = (if end > IDENTITY_MAP_LIMIT then IDENTITY_MAP_LIMIT else end)
           in fold (\<lambda>address. mark_reserved_page (address div 4096))
                (range_by 4096 (unat start) (unat end)) m)"

definition reserve_address_range :: "u64 \<Rightarrow> u64 \<Rightarrow> memory \<Rightarrow> memory" where
  "reserve_address_range start end m =
     (if end \<le> start then m else mark_reserved_range start (end - start) m)"

text \<open>The linker's symbols \<^verbatim>\<open>__text_start\<close> and \<^verbatim>\<open>__bss_end\<close> are arguments. The last two
  sums are formed at 32 bits; \<^verbatim>\<open>sizeof(struct multiboot_info)\<close> is 52.\<close>

definition reserve_kernel_ranges :: "u64 \<Rightarrow> u64 \<Rightarrow> u32 \<Rightarrow> u32 \<Rightarrow> u32 \<Rightarrow> memory \<Rightarrow> memory" where
  "reserve_kernel_ranges text_start bss_end multiboot_info_address mmap_addr mmap_length m =
     (let m = reserve_address_range 0x100000 0x200000 m;
          m = reserve_address_range text_start bss_end m;
          m = reserve_address_range 0x2F0000 0x300000 m;
          m = reserve_address_range (ucast multiboot_info_address) (ucast (multiboot_info_address + 52)) m
      in reserve_address_range (ucast mmap_addr) (ucast (mmap_addr + mmap_length)) m)"

definition recount_usable_memory :: "memory \<Rightarrow> memory" where
  "recount_usable_memory m =
     fold (\<lambda>page m. if usable_bitmap_is_set page m
                   then m\<lparr>usable_memory_bytes := usable_memory_bytes m + PAGE_SIZE\<rparr> else m)
       [256..<PAGE_COUNT] (m\<lparr>usable_memory_bytes := 0\<rparr>)"

section \<open>The search for free pages\<close>

fun pages_free :: "nat \<Rightarrow> nat \<Rightarrow> memory \<Rightarrow> bool" where
  "pages_free page 0 m = True"
| "pages_free page (Suc n) m = (if bitmap_is_set page m then False else pages_free (page + 1) n m)"

definition range_is_free :: "nat \<Rightarrow> nat \<Rightarrow> memory \<Rightarrow> bool" where
  "range_is_free first_page page_count m =
     (if first_page > PAGE_COUNT \<or> page_count > PAGE_COUNT - first_page then False
      else pages_free first_page page_count m)"

text \<open>The outer loop of \<^verbatim>\<open>page_alloc_contiguous\<close>, up to its first hit.\<close>

function alloc_scan :: "memory \<Rightarrow> nat \<Rightarrow> nat \<Rightarrow> nat option" where
  "alloc_scan m page_count page =
     (if page \<le> PAGE_COUNT - page_count
      then if \<not> range_is_free page page_count m then alloc_scan m page_count (page + 1)
           else Some page
      else None)"
  by pat_completeness auto
termination
  by (relation "measure (\<lambda>(m, page_count, page). PAGE_COUNT + 1 - page)") auto

declare alloc_scan.simps [simp del]

definition claim_pages :: "nat \<Rightarrow> nat \<Rightarrow> memory \<Rightarrow> memory" where
  "claim_pages page page_count m = fold (\<lambda>offset. bitmap_set (page + offset)) [0..<page_count] m"

definition page_allocator_free_pages :: "memory \<Rightarrow> nat" where
  "page_allocator_free_pages m =
     fold (\<lambda>page free_pages. if usable_bitmap_is_set page m \<and> \<not> bitmap_is_set page m
                             then free_pages + 1 else free_pages) [256..<PAGE_COUNT] 0"

section \<open>A bitmap is a set of pages\<close>

text \<open>What the rest of the file uses of a bitmap: setting and clearing one page, and testing.\<close>

locale page_set =
  fixes insert_page :: "nat \<Rightarrow> 'm \<Rightarrow> 'm"
    and remove_page :: "nat \<Rightarrow> 'm \<Rightarrow> 'm"
    and has_page :: "nat \<Rightarrow> 'm \<Rightarrow> bool"
  assumes has_insert: "has_page q (insert_page p m) \<longleftrightarrow> q = p \<or> has_page q m"
    and has_remove: "has_page q (remove_page p m) \<longleftrightarrow> q \<noteq> p \<and> has_page q m"
begin

lemma has_insert_all: "has_page q (fold insert_page ps m) \<longleftrightarrow> q \<in> set ps \<or> has_page q m"
  by (induction ps arbitrary: m) (auto simp: has_insert)

lemma has_remove_all: "has_page q (fold remove_page ps m) \<longleftrightarrow> q \<notin> set ps \<and> has_page q m"
  by (induction ps arbitrary: m) (auto simp: has_remove)

end

lemma byte_bit_test: "(b AND push_bit (p mod 8) 1 \<noteq> 0) \<longleftrightarrow> bit (b :: u8) (p mod 8)"
  by (simp add: bit_iff_and_push_bit_not_eq_0)

lemma same_bit: "p div 8 = q div 8 \<and> p mod 8 = q mod 8 \<longleftrightarrow> p = (q :: nat)"
  by (metis div_mult_mod_eq)

lemma bitmap_is_set_bit: "bitmap_is_set p m \<longleftrightarrow> bit (page_bitmap m (p div 8)) (p mod 8)"
  "usable_bitmap_is_set p m \<longleftrightarrow> bit (usable_bitmap m (p div 8)) (p mod 8)"
  unfolding bitmap_is_set_def usable_bitmap_is_set_def by (rule byte_bit_test)+

interpretation taken_pages: page_set bitmap_set bitmap_clear bitmap_is_set
proof
  fix p q :: nat and m :: memory
  have "p mod 8 < 8" "q mod 8 < 8" by simp_all
  then show "bitmap_is_set q (bitmap_set p m) \<longleftrightarrow> q = p \<or> bitmap_is_set q m"
    and "bitmap_is_set q (bitmap_clear p m) \<longleftrightarrow> q \<noteq> p \<and> bitmap_is_set q m"
    using same_bit [of q p]
    by (auto simp: bitmap_is_set_bit bitmap_set_def bitmap_clear_def bit_simps)
qed

interpretation usable_pages: page_set usable_bitmap_set usable_bitmap_clear usable_bitmap_is_set
proof
  fix p q :: nat and m :: memory
  have "p mod 8 < 8" "q mod 8 < 8" by simp_all
  then show "usable_bitmap_is_set q (usable_bitmap_set p m) \<longleftrightarrow> q = p \<or> usable_bitmap_is_set q m"
    and "usable_bitmap_is_set q (usable_bitmap_clear p m) \<longleftrightarrow> q \<noteq> p \<and> usable_bitmap_is_set q m"
    using same_bit [of q p]
    by (auto simp: bitmap_is_set_bit usable_bitmap_set_def usable_bitmap_clear_def bit_simps)
qed

section \<open>Which pages a range covers\<close>

lemma and_not_4095: "(v :: u64) AND NOT (4096 - 1) = push_bit 12 (drop_bit 12 v)"
proof -
  have "(4096 - 1 :: u64) = mask 12" by (simp add: mask_eq_exp_minus_1)
  moreover have "v AND NOT (mask 12) = push_bit 12 (drop_bit 12 v)"
    by (rule bit_eqI) (auto simp: bit_simps)
  ultimately show ?thesis by metis
qed

lemma unat_align_down: "unat (align_down v) = unat v div 4096 * 4096"
proof -
  have "unat (v div 4096) * unat (4096 :: u64) < 2 ^ LENGTH(64)"
    using unsigned_less [of v, where ?'a = nat]
    by (auto simp: unat_div intro: le_less_trans [OF div_times_less_eq_dividend])
  then have "unat (v div 4096 * 4096) = unat v div 4096 * 4096"
    by (subst unat_mult_lem [THEN iffD1]) (simp_all add: unat_div)
  then show ?thesis
    unfolding align_down_def and_not_4095 by (simp add: push_bit_eq_mult drop_bit_eq_div)
qed

lemma unat_align_up:
  assumes "unat v \<le> 0x40000000"
  shows "unat (align_up v) = (unat v + 4095) div 4096 * 4096"
proof -
  have "unat (v + 4096 - 1) = unat v + 4095"
  proof -
    have "v + 4096 - 1 = 4095 + v" by simp
    moreover have "word_of_nat (unat v + 4095) = 4095 + v" by simp
    ultimately show ?thesis
      using assms unat_word_of_nat_small [of "unat v + 4095", where ?'a = 64] by (simp only:) simp
  qed
  moreover have "align_up v = align_down (v + 4096 - 1)"
    by (simp add: align_up_def align_down_def)
  ultimately show ?thesis by (simp add: unat_align_down)
qed

text \<open>The bytes of a range that the allocator looks at, with the sums written over the naturals.\<close>

definition low_byte :: "u64 \<Rightarrow> nat" where
  "low_byte base = max 0x100000 (unat base)"

definition high_byte :: "u64 \<Rightarrow> u64 \<Rightarrow> nat" where
  "high_byte base len = min 0x40000000 (unat base + unat len)"

text \<open>Pages that lie inside the range, and pages that share a byte with it.\<close>

definition pages_inside :: "u64 \<Rightarrow> u64 \<Rightarrow> nat set" where
  "pages_inside base len = {p. low_byte base \<le> p * 4096 \<and> p * 4096 + 4096 \<le> high_byte base len}"

definition pages_touching :: "u64 \<Rightarrow> u64 \<Rightarrow> nat set" where
  "pages_touching base len =
     {p. \<exists>b. low_byte base \<le> b \<and> b < high_byte base len \<and> b div 4096 = p}"

lemma unat_range_start: "unat (range_start base) = low_byte base"
  by (auto simp: range_start_def low_byte_def word_less_nat_alt max_def)

lemma unat_range_end:
  assumes "base < IDENTITY_MAP_LIMIT"
  shows "unat (range_end base len) = high_byte base len"
proof -
  have sub: "unat (0x40000000 - base) = 0x40000000 - unat base"
    using assms by (subst unat_sub) (simp_all add: word_le_nat_alt word_less_nat_alt)
  show ?thesis
  proof (cases "len > 0x40000000 - base")
    case True
    then have "unat len > 0x40000000 - unat base"
      using sub by (simp add: word_less_nat_alt)
    then show ?thesis using True by (simp add: range_end_def high_byte_def)
  next
    case False
    then have "unat base + unat len \<le> 0x40000000"
      using sub assms by (simp add: word_less_nat_alt not_less word_le_nat_alt)
    moreover from this have "unat (base + len) = unat base + unat len"
      by (subst unat_add_lem [THEN iffD1]) simp_all
    ultimately show ?thesis using False by (simp add: range_end_def high_byte_def)
  qed
qed

lemma page_addresses:
  assumes "4096 dvd lo"
  shows "(\<lambda>a. a div 4096) ` set (range_by 4096 lo hi) = {p. lo div 4096 \<le> p \<and> p * 4096 < hi}"
proof (intro set_eqI iffI)
  fix p
  assume "p \<in> (\<lambda>a. a div 4096) ` set (range_by 4096 lo hi)"
  then obtain a where a: "p = a div 4096" "lo \<le> a" "a < hi" "4096 dvd a - lo"
    by (auto simp: set_range_by)
  have "4096 dvd lo + (a - lo)" using assms a(4) by (rule dvd_add)
  then have "p * 4096 = a" using a by simp
  then show "p \<in> {p. lo div 4096 \<le> p \<and> p * 4096 < hi}"
    using a div_le_mono [OF a(2)] by simp
next
  fix p
  assume p: "p \<in> {p. lo div 4096 \<le> p \<and> p * 4096 < hi}"
  from assms obtain k where k: "lo = 4096 * k" ..
  have "p * 4096 \<in> set (range_by 4096 lo hi)"
    using p by (auto simp: set_range_by k simp flip: mult.commute [of p] right_diff_distrib')
  then show "p \<in> (\<lambda>a. a div 4096) ` set (range_by 4096 lo hi)"
    by (intro image_eqI [where x = "p * 4096"]) simp_all
qed

lemma other_bitmap [simp]:
  "usable_bitmap_is_set q (bitmap_set p m) = usable_bitmap_is_set q m"
  "usable_bitmap_is_set q (bitmap_clear p m) = usable_bitmap_is_set q m"
  "bitmap_is_set q (usable_bitmap_set p m) = bitmap_is_set q m"
  "bitmap_is_set q (usable_bitmap_clear p m) = bitmap_is_set q m"
  by (simp_all add: bitmap_is_set_def usable_bitmap_is_set_def bitmap_set_def bitmap_clear_def
      usable_bitmap_set_def usable_bitmap_clear_def)

lemma mark_usable_pages:
  "usable_bitmap_is_set q (fold (\<lambda>a. mark_usable_page (a div 4096)) xs m) \<longleftrightarrow>
     q \<in> (\<lambda>a. a div 4096) ` set xs \<or> usable_bitmap_is_set q m"
  "bitmap_is_set q (fold (\<lambda>a. mark_usable_page (a div 4096)) xs m) \<longleftrightarrow>
     q \<notin> (\<lambda>a. a div 4096) ` set xs \<and> bitmap_is_set q m"
  by (induction xs arbitrary: m)
    (auto simp: mark_usable_page_def taken_pages.has_remove usable_pages.has_insert)

lemma mark_reserved_pages:
  "usable_bitmap_is_set q (fold (\<lambda>a. mark_reserved_page (a div 4096)) xs m) \<longleftrightarrow>
     q \<notin> (\<lambda>a. a div 4096) ` set xs \<and> usable_bitmap_is_set q m"
  "bitmap_is_set q (fold (\<lambda>a. mark_reserved_page (a div 4096)) xs m) \<longleftrightarrow>
     q \<in> (\<lambda>a. a div 4096) ` set xs \<or> bitmap_is_set q m"
  by (induction xs arbitrary: m)
    (auto simp: mark_reserved_page_def taken_pages.has_insert usable_pages.has_remove)

lemma low_high_empty: "base \<ge> IDENTITY_MAP_LIMIT \<or> len = 0 \<Longrightarrow> high_byte base len \<le> low_byte base"
  by (auto simp: low_byte_def high_byte_def word_le_nat_alt)

lemma pages_inside_addresses:
  assumes "base < IDENTITY_MAP_LIMIT"
  shows "(\<lambda>a. a div 4096) ` set (range_by 4096 (unat (align_up (range_start base)))
      (unat (align_down (range_end base len)))) = pages_inside base len"
proof -
  have "low_byte base \<le> 0x40000000"
    using assms by (auto simp: low_byte_def word_less_nat_alt)
  then have start: "unat (align_up (range_start base)) = (low_byte base + 4095) div 4096 * 4096"
    by (simp add: unat_align_up unat_range_start)
  have finish: "unat (align_down (range_end base len)) = high_byte base len div 4096 * 4096"
    by (simp add: unat_align_down unat_range_end [OF assms])
  show ?thesis
    unfolding start finish by (subst page_addresses) (auto simp: pages_inside_def)
qed

lemma mark_usable_range_iff:
  "(usable_bitmap_is_set q (mark_usable_range base len m) \<longleftrightarrow>
     q \<in> pages_inside base len \<or> usable_bitmap_is_set q m)"
  "bitmap_is_set q (mark_usable_range base len m) \<longleftrightarrow>
     q \<notin> pages_inside base len \<and> bitmap_is_set q m"
proof -
  have "(usable_bitmap_is_set q (mark_usable_range base len m) \<longleftrightarrow>
     q \<in> pages_inside base len \<or> usable_bitmap_is_set q m) \<and>
    (bitmap_is_set q (mark_usable_range base len m) \<longleftrightarrow>
     q \<notin> pages_inside base len \<and> bitmap_is_set q m)"
  proof (cases "base \<ge> 0x40000000 \<or> len = 0")
    case True
    then have "q \<notin> pages_inside base len"
      using low_high_empty [OF True] by (auto simp: pages_inside_def)
    then show ?thesis using True by (simp add: mark_usable_range_def)
  next
    case False
    then have eq: "mark_usable_range base len m = fold (\<lambda>address. mark_usable_page (address div 4096))
      (range_by 4096 (unat (align_up (range_start base))) (unat (align_down (range_end base len)))) m"
      by (simp add: mark_usable_range_def Let_def)
    have "base < 0x40000000" "len \<noteq> 0" using False by (simp_all add: not_le)
    then show ?thesis
      unfolding eq mark_usable_pages by (simp only: pages_inside_addresses simp_thms)
  qed
  then show "(usable_bitmap_is_set q (mark_usable_range base len m) \<longleftrightarrow>
     q \<in> pages_inside base len \<or> usable_bitmap_is_set q m)"
    and "bitmap_is_set q (mark_usable_range base len m) \<longleftrightarrow>
     q \<notin> pages_inside base len \<and> bitmap_is_set q m"
    by blast+
qed

lemma pages_touching_addresses:
  assumes "base < IDENTITY_MAP_LIMIT" and "len \<noteq> 0"
  shows "(\<lambda>a. a div 4096) ` set (range_by 4096 (unat (align_down (range_start base)))
      (unat (let end = align_up (range_end base len)
             in if end > IDENTITY_MAP_LIMIT then IDENTITY_MAP_LIMIT else end))) =
    pages_touching base len"
proof -
  let ?lo = "low_byte base" and ?hi = "high_byte base len"
  have start: "unat (align_down (range_start base)) = ?lo div 4096 * 4096"
    by (simp add: unat_align_down unat_range_start)
  have hi: "?hi \<le> 0x40000000" by (simp add: high_byte_def)
  have up: "unat (align_up (range_end base len)) = (?hi + 4095) div 4096 * 4096"
    using hi by (simp add: unat_align_up unat_range_end [OF assms(1)])
  moreover have "(?hi + 4095) div 4096 * 4096 \<le> 0x40000000"
    using hi by (auto simp: div_le_mono [of "?hi + 4095" "0x40000000 + 4095" 4096, simplified])
  ultimately have finish: "unat (let end = align_up (range_end base len)
      in if end > 0x40000000 then 0x40000000 else end) = (?hi + 4095) div 4096 * 4096"
    by (simp add: Let_def word_less_nat_alt)
  have "0 < unat len" "unat base < 0x40000000"
    using assms by (simp_all add: unat_gt_0 word_less_nat_alt)
  then have edge: "?hi \<le> ?lo \<Longrightarrow> ?lo = 256 * 4096"
    by (simp add: low_byte_def high_byte_def min_def max_def split: if_splits)
  have "?lo div 4096 \<le> p \<and> p * 4096 < (?hi + 4095) div 4096 * 4096 \<longleftrightarrow> p \<in> pages_touching base len" for p
  proof
    assume p: "?lo div 4096 \<le> p \<and> p * 4096 < (?hi + 4095) div 4096 * 4096"
    then have "Suc p \<le> (?hi + 4095) div 4096" "?lo div 4096 < Suc p" by simp_all
    then have "p * 4096 < ?hi" "?lo < p * 4096 + 4096"
      unfolding less_eq_div_iff_mult_less_eq [OF zero_less_numeral]
        div_less_iff_less_mult [OF zero_less_numeral] by simp_all
    moreover from this have "?lo < ?hi" using edge by fastforce
    ultimately show "p \<in> pages_touching base len"
      unfolding pages_touching_def by (intro CollectI exI [where x = "max ?lo (p * 4096)"]) auto
  next
    assume "p \<in> pages_touching base len"
    then show "?lo div 4096 \<le> p \<and> p * 4096 < (?hi + 4095) div 4096 * 4096"
      by (auto simp: pages_touching_def div_le_mono)
  qed
  then show ?thesis
    unfolding start finish by (subst page_addresses) auto
qed

lemma mark_reserved_range_iff:
  "(usable_bitmap_is_set q (mark_reserved_range base len m) \<longleftrightarrow>
     q \<notin> pages_touching base len \<and> usable_bitmap_is_set q m)"
  "bitmap_is_set q (mark_reserved_range base len m) \<longleftrightarrow>
     q \<in> pages_touching base len \<or> bitmap_is_set q m"
proof -
  have "(usable_bitmap_is_set q (mark_reserved_range base len m) \<longleftrightarrow>
     q \<notin> pages_touching base len \<and> usable_bitmap_is_set q m) \<and>
    (bitmap_is_set q (mark_reserved_range base len m) \<longleftrightarrow>
     q \<in> pages_touching base len \<or> bitmap_is_set q m)"
  proof (cases "base \<ge> 0x40000000 \<or> len = 0")
    case True
    then have "q \<notin> pages_touching base len"
      using low_high_empty [OF True] by (auto simp: pages_touching_def)
    then show ?thesis using True by (simp add: mark_reserved_range_def)
  next
    case False
    then have eq: "mark_reserved_range base len m = fold (\<lambda>address. mark_reserved_page (address div 4096))
      (range_by 4096 (unat (align_down (range_start base)))
        (unat (let end = align_up (range_end base len)
               in if end > 0x40000000 then 0x40000000 else end))) m"
      by (simp add: mark_reserved_range_def Let_def)
    have "base < 0x40000000" "len \<noteq> 0" using False by (simp_all add: not_le)
    then show ?thesis
      unfolding eq mark_reserved_pages by (simp only: pages_touching_addresses simp_thms)
  qed
  then show "(usable_bitmap_is_set q (mark_reserved_range base len m) \<longleftrightarrow>
     q \<notin> pages_touching base len \<and> usable_bitmap_is_set q m)"
    and "bitmap_is_set q (mark_reserved_range base len m) \<longleftrightarrow>
     q \<in> pages_touching base len \<or> bitmap_is_set q m"
    by blast+
qed

lemma reserve_address_range_iff:
  "usable_bitmap_is_set q (reserve_address_range start end m) \<longleftrightarrow>
     \<not> (start < end \<and> q \<in> pages_touching start (end - start)) \<and> usable_bitmap_is_set q m"
  "bitmap_is_set q (reserve_address_range start end m) \<longleftrightarrow>
     (start < end \<and> q \<in> pages_touching start (end - start)) \<or> bitmap_is_set q m"
  by (auto simp: reserve_address_range_def mark_reserved_range_iff not_less)

section \<open>What the search finds\<close>

lemma pages_free_iff: "pages_free page n m \<longleftrightarrow> (\<forall>i<n. \<not> bitmap_is_set (page + i) m)"
  by (induction page n m rule: pages_free.induct) (auto simp: less_Suc_eq_0_disj)

lemma range_is_free_iff:
  "range_is_free page n m \<longleftrightarrow> page + n \<le> PAGE_COUNT \<and> (\<forall>i<n. \<not> bitmap_is_set (page + i) m)"
  by (auto simp: range_is_free_def pages_free_iff)

lemma alloc_scan_Some:
  "alloc_scan m n page = Some p \<Longrightarrow>
   page \<le> p \<and> range_is_free p n m \<and> (\<forall>q. page \<le> q \<and> q < p \<longrightarrow> \<not> range_is_free q n m)"
proof (induction m n page rule: alloc_scan.induct)
  case (1 m n page)
  show ?case
  proof (cases "page \<le> 262144 - n \<and> \<not> range_is_free page n m")
    case True
    then have "alloc_scan m n (page + 1) = Some p"
      using "1.prems" by (subst (asm) alloc_scan.simps) simp
    then show ?thesis
      using "1.IH" True by (auto simp: Suc_le_eq) (metis le_neq_implies_less)
  next
    case False
    then show ?thesis
      using "1.prems" by (subst (asm) alloc_scan.simps) (auto split: if_splits)
  qed
qed

lemma alloc_scan_None:
  "alloc_scan m n page = None \<Longrightarrow> page \<le> q \<Longrightarrow> n \<le> PAGE_COUNT \<Longrightarrow> \<not> range_is_free q n m"
proof (induction m n page rule: alloc_scan.induct)
  case (1 m n page)
  show ?case
  proof (cases "page \<le> 262144 - n")
    case True
    then have "\<not> range_is_free page n m" "alloc_scan m n (page + 1) = None"
      using "1.prems"(1) by (subst (asm) alloc_scan.simps; simp split: if_splits)+
    then show ?thesis
      using "1.IH" "1.prems" True by (cases "q = page") auto
  next
    case False
    then show ?thesis
      using "1.prems" by (auto simp: range_is_free_iff)
  qed
qed

lemma claim_pages_iff:
  "bitmap_is_set q (claim_pages page n m) \<longleftrightarrow> (page \<le> q \<and> q < page + n) \<or> bitmap_is_set q m"
proof -
  have "claim_pages page n m = fold bitmap_set (map ((+) page) [0..<n]) m"
    by (simp add: claim_pages_def fold_map comp_def)
  moreover have "q \<in> set (map ((+) page) [0..<n]) \<longleftrightarrow> page \<le> q \<and> q < page + n"
    by auto
  ultimately show ?thesis
    by (simp only: taken_pages.has_insert_all)
qed

lemma claim_pages_usable [simp]:
  "usable_bitmap_is_set q (claim_pages page n m) = usable_bitmap_is_set q m"
  unfolding claim_pages_def by (rule fold_frame) simp

text \<open>Only usable pages above the first MiB are ever free.\<close>

definition frames_ok :: "memory \<Rightarrow> bool" where
  "frames_ok m \<longleftrightarrow>
     (\<forall>q < PAGE_COUNT. \<not> bitmap_is_set q m \<longrightarrow> usable_bitmap_is_set q m) \<and>
     (\<forall>q < 256. \<not> usable_bitmap_is_set q m)"

lemma frames_ok_claim: "frames_ok m \<Longrightarrow> frames_ok (claim_pages page n m)"
  by (auto simp: frames_ok_def claim_pages_iff)

lemma frames_ok_clear: "frames_ok m \<Longrightarrow> usable_bitmap_is_set p m \<Longrightarrow> frames_ok (bitmap_clear p m)"
  by (auto simp: frames_ok_def taken_pages.has_remove)

lemma pages_inside_low: "q \<in> pages_inside base len \<Longrightarrow> 256 \<le> q"
  by (auto simp: pages_inside_def low_byte_def)

lemma frames_ok_usable: "frames_ok m \<Longrightarrow> frames_ok (mark_usable_range base len m)"
  by (auto simp: frames_ok_def mark_usable_range_iff dest: pages_inside_low)

lemma frames_ok_reserved: "frames_ok m \<Longrightarrow> frames_ok (mark_reserved_range base len m)"
  by (auto simp: frames_ok_def mark_reserved_range_iff)

lemma frames_ok_reserve: "frames_ok m \<Longrightarrow> frames_ok (reserve_address_range start end m)"
  by (simp add: reserve_address_range_def frames_ok_reserved)

lemma frames_ok_cong:
  "page_bitmap m' = page_bitmap m \<Longrightarrow> usable_bitmap m' = usable_bitmap m \<Longrightarrow> frames_ok m' = frames_ok m"
  by (simp add: frames_ok_def bitmap_is_set_def usable_bitmap_is_set_def)

lemma frames_ok_start:
  "frames_ok (m\<lparr>page_bitmap := bitmap_fill 0xFF b, usable_bitmap := bitmap_fill 0 u\<rparr>)"
proof -
  have full: "bit (0xFF :: u8) n" if "n < 8" for n
  proof -
    have "(0xFF :: u8) = mask 8" by (simp add: mask_eq_exp_minus_1)
    then show ?thesis using that by (simp only: bit_mask_iff) simp
  qed
  have "bit (0xFF :: u8) (q mod 8)" for q :: nat by (rule full) simp
  moreover have "q div 8 < 32768" if "q < 262144" for q :: nat
    using that by (simp add: div_less_iff_less_mult)
  ultimately show ?thesis
    by (auto simp: frames_ok_def bitmap_is_set_bit bitmap_fill_def)
qed

end
