(* ===== verification/Console.thy ===== *)
theory Console
  imports C_Text
begin

text \<open>
  The output side of the machine: port output (\<^verbatim>\<open>kernel/io.h\<close>), the serial line
  (\<^verbatim>\<open>kernel/serial.c\<close>) and the VGA text console with its \<open>printf\<close>
  (\<^verbatim>\<open>kernel/vga.c\<close>). Every byte written to a port is recorded, newest first.
  Video memory is a function from every integer offset, in range or not, so that "no write
  outside the 80 by 25 screen" is something to prove and not something built in.
\<close>

section \<open>State\<close>

record console =
  video_memory :: "int \<Rightarrow> u8"
  cursor_x :: int
  cursor_y :: int
  current_color :: u8
  window_mode :: int
  ports :: "(u16 \<times> u8) list"

section \<open>Ports and the serial line\<close>

definition outb :: "u16 \<Rightarrow> u8 \<Rightarrow> console \<Rightarrow> console" where
  "outb port val c = c\<lparr>ports := (port, val) # ports c\<rparr>"

text \<open>\<^verbatim>\<open>put\<close> first polls the line status register until the transmitter is empty; the
  poll reads the device and changes nothing in the kernel, so only the write is modelled.\<close>

definition serial_put :: "char \<Rightarrow> console \<Rightarrow> console" where
  "serial_put ch c = outb 0x3F8 (of_char ch) c"

definition serial_write_char :: "char \<Rightarrow> console \<Rightarrow> console" where
  "serial_write_char ch c = serial_put ch c"

fun serial_write :: "string \<Rightarrow> console \<Rightarrow> console" where
  "serial_write [] c = c"
| "serial_write (ch # text) c = serial_write text (serial_put ch c)"

definition serial_write_hex :: "u64 \<Rightarrow> console \<Rightarrow> console" where
  "serial_write_hex value c =
     fold (\<lambda>i. serial_put (''0123456789abcdef'' ! unat (drop_bit (i * 4) value AND 15)))
       (rev [0..<16]) (serial_write ''0x'' c)"

definition serial_write_decimal :: "u64 \<Rightarrow> console \<Rightarrow> console" where
  "serial_write_decimal value c =
     (if value = 0 then serial_put (CHR ''0'') c
      else fold serial_put (rev (dec_rev (unat value))) c)"

section \<open>The VGA console\<close>

abbreviation (input) VGA_WIDTH :: int where "VGA_WIDTH \<equiv> 80"
abbreviation (input) VGA_HEIGHT :: int where "VGA_HEIGHT \<equiv> 25"
abbreviation (input) WINDOW_LEFT :: int where "WINDOW_LEFT \<equiv> 0"
abbreviation (input) WINDOW_RIGHT :: int where "WINDOW_RIGHT \<equiv> 79"
abbreviation (input) WINDOW_TOP :: int where "WINDOW_TOP \<equiv> 0"
abbreviation (input) WINDOW_BOTTOM :: int where "WINDOW_BOTTOM \<equiv> 24"
abbreviation (input) CONSOLE_LEFT :: int where "CONSOLE_LEFT \<equiv> 2"
abbreviation (input) CONSOLE_RIGHT :: int where "CONSOLE_RIGHT \<equiv> 77"
abbreviation (input) CONSOLE_TOP :: int where "CONSOLE_TOP \<equiv> 3"
abbreviation (input) CONSOLE_BOTTOM :: int where "CONSOLE_BOTTOM \<equiv> 21"

definition vga_set_color :: "u8 \<Rightarrow> console \<Rightarrow> console" where
  "vga_set_color color c = c\<lparr>current_color := color\<rparr>"

definition write_cell :: "int \<Rightarrow> int \<Rightarrow> char \<Rightarrow> u8 \<Rightarrow> console \<Rightarrow> console" where
  "write_cell x y ch color c =
     (let offset = (y * VGA_WIDTH + x) * 2
      in c\<lparr>video_memory := (video_memory c)(offset := of_char ch, offset + 1 := color)\<rparr>)"

fun write_text :: "int \<Rightarrow> int \<Rightarrow> string \<Rightarrow> console \<Rightarrow> console" where
  "write_text x y [] c = c"
| "write_text x y (ch # text) c =
     (if x < WINDOW_RIGHT
      then write_text (x + 1) y text (write_cell x y ch (current_color c) c)
      else c)"

definition draw_horizontal_rule :: "int \<Rightarrow> console \<Rightarrow> console" where
  "draw_horizontal_rule y c =
     (let c = write_cell WINDOW_LEFT y (CHR ''+'') (current_color c) c;
          c = fold (\<lambda>x c. write_cell x y (CHR ''-'') (current_color c) c)
                [WINDOW_LEFT + 1..WINDOW_RIGHT - 1] c
      in write_cell WINDOW_RIGHT y (CHR ''+'') (current_color c) c)"

text \<open>The copy of one cell to the row above, the body of both scrolling loops.\<close>

definition copy_cell_up :: "int \<Rightarrow> int \<Rightarrow> console \<Rightarrow> console" where
  "copy_cell_up y x c =
     (let target = ((y - 1) * VGA_WIDTH + x) * 2;
          source = (y * VGA_WIDTH + x) * 2;
          m = (video_memory c)(target := video_memory c source)
      in c\<lparr>video_memory := m(target + 1 := m (source + 1))\<rparr>)"

definition scroll_screen :: "console \<Rightarrow> console" where
  "scroll_screen c =
     (let c = fold (\<lambda>y. fold (copy_cell_up y) [0..VGA_WIDTH - 1]) [1..VGA_HEIGHT - 1] c;
          c = fold (\<lambda>x c. write_cell x (VGA_HEIGHT - 1) (CHR '' '') (current_color c) c)
                [0..VGA_WIDTH - 1] c
      in c\<lparr>cursor_y := VGA_HEIGHT - 1\<rparr>)"

definition scroll_window_content :: "console \<Rightarrow> console" where
  "scroll_window_content c =
     (let c = fold (\<lambda>y. fold (copy_cell_up y) [WINDOW_LEFT + 1..WINDOW_RIGHT - 1])
                [CONSOLE_TOP + 1..CONSOLE_BOTTOM] c;
          c = fold (\<lambda>x c. write_cell x CONSOLE_BOTTOM (CHR '' '') (current_color c) c)
                [WINDOW_LEFT + 1..WINDOW_RIGHT - 1] c
      in c\<lparr>cursor_y := CONSOLE_BOTTOM, cursor_x := CONSOLE_LEFT\<rparr>)"

definition keep_cursor_in_console :: "console \<Rightarrow> console" where
  "keep_cursor_in_console c =
     (if window_mode c = 0
      then (if cursor_y c \<ge> VGA_HEIGHT then scroll_screen c else c)
      else
        let c = (if cursor_x c < CONSOLE_LEFT then c\<lparr>cursor_x := CONSOLE_LEFT\<rparr> else c);
            c = (if cursor_x c > CONSOLE_RIGHT
                 then c\<lparr>cursor_x := CONSOLE_LEFT, cursor_y := cursor_y c + 1\<rparr> else c);
            c = (if cursor_y c < CONSOLE_TOP then c\<lparr>cursor_y := CONSOLE_TOP\<rparr> else c)
        in (if cursor_y c > CONSOLE_BOTTOM then scroll_window_content c else c))"

definition vga_update_cursor :: "console \<Rightarrow> console" where
  "vga_update_cursor c =
     (let position = (word_of_int (cursor_y c * VGA_WIDTH + cursor_x c) :: u16)
      in outb 0x3D5 (ucast (drop_bit 8 position))
          (outb 0x3D4 0x0E (outb 0x3D5 (ucast (position AND 0xFF)) (outb 0x3D4 0x0F c))))"

definition vga_enable_cursor :: "console \<Rightarrow> console" where
  "vga_enable_cursor c =
     vga_update_cursor (outb 0x3D5 15 (outb 0x3D4 0x0B (outb 0x3D5 14 (outb 0x3D4 0x0A c))))"

definition vga_move_cursor_left :: "console \<Rightarrow> console" where
  "vga_move_cursor_left c =
     vga_update_cursor
      (if window_mode c \<noteq> 0
       then (if cursor_x c > CONSOLE_LEFT then c\<lparr>cursor_x := cursor_x c - 1\<rparr>
             else if cursor_y c > CONSOLE_TOP
             then c\<lparr>cursor_y := cursor_y c - 1, cursor_x := CONSOLE_RIGHT\<rparr>
             else c)
       else (if cursor_x c > 0 then c\<lparr>cursor_x := cursor_x c - 1\<rparr>
             else if cursor_y c > 0
             then c\<lparr>cursor_y := cursor_y c - 1, cursor_x := VGA_WIDTH - 1\<rparr>
             else c))"

definition vga_move_cursor_right :: "console \<Rightarrow> console" where
  "vga_move_cursor_right c =
     (let c = c\<lparr>cursor_x := cursor_x c + 1\<rparr>
      in if window_mode c \<noteq> 0 then vga_update_cursor (keep_cursor_in_console c)
         else
           let c = (if cursor_x c \<ge> VGA_WIDTH
                    then c\<lparr>cursor_x := 0, cursor_y := cursor_y c + 1\<rparr> else c);
               c = (if cursor_y c \<ge> VGA_HEIGHT then scroll_screen c else c)
           in vga_update_cursor c)"

definition vga_backspace :: "console \<Rightarrow> console" where
  "vga_backspace c =
     (if cursor_x c = 0 \<and> cursor_y c = 0 then c
      else let c = vga_move_cursor_left c
           in write_cell (cursor_x c) (cursor_y c) (CHR '' '') (current_color c) c)"

definition print_char :: "char \<Rightarrow> console \<Rightarrow> console" where
  "print_char ch c =
     (let c = serial_write_char ch (outb 0xE9 (of_char ch) c);
          c = (if ch = CHR 0x0A
               then c\<lparr>cursor_x := (if window_mode c \<noteq> 0 then CONSOLE_LEFT else 0),
                      cursor_y := cursor_y c + 1\<rparr>
               else
                 let c = keep_cursor_in_console c;
                     c = write_cell (cursor_x c) (cursor_y c) ch (current_color c) c;
                     c = c\<lparr>cursor_x := cursor_x c + 1\<rparr>
                 in if window_mode c \<noteq> 0 \<and> cursor_x c > CONSOLE_RIGHT
                    then c\<lparr>cursor_x := CONSOLE_LEFT, cursor_y := cursor_y c + 1\<rparr>
                    else if cursor_x c \<ge> VGA_WIDTH
                    then c\<lparr>cursor_x := 0, cursor_y := cursor_y c + 1\<rparr>
                    else c)
      in vga_update_cursor (keep_cursor_in_console c))"

definition clear_screen :: "console \<Rightarrow> console" where
  "clear_screen c =
     (let c = c\<lparr>window_mode := 0\<rparr>;
          c = fold (\<lambda>i c. c\<lparr>video_memory := (video_memory c)(i * 2 := of_char (CHR '' ''),
                                               i * 2 + 1 := current_color c)\<rparr>)
                [0..VGA_WIDTH * VGA_HEIGHT - 1] c
      in vga_update_cursor (c\<lparr>cursor_x := 0, cursor_y := 0\<rparr>))"

definition vga_clear_window_content :: "console \<Rightarrow> console" where
  "vga_clear_window_content c =
     (if window_mode c = 0 then clear_screen c
      else
        let c = fold (\<lambda>y. fold (\<lambda>x c. write_cell x y (CHR '' '') (current_color c) c)
                             [WINDOW_LEFT + 1..WINDOW_RIGHT - 1])
                  [CONSOLE_TOP..CONSOLE_BOTTOM] c
        in vga_update_cursor (c\<lparr>cursor_x := CONSOLE_LEFT, cursor_y := CONSOLE_TOP\<rparr>))"

text \<open>The drawing part of \<^verbatim>\<open>vga_draw_window\<close>, up to the cursor assignments.\<close>

definition draw_window_frame :: "console \<Rightarrow> console" where
  "draw_window_frame c =
     (let edge = (\<lambda>y c. let c = write_cell WINDOW_LEFT y (CHR ''|'') (current_color c) c
                        in write_cell WINDOW_RIGHT y (CHR ''|'') (current_color c) c);
          c = clear_screen (vga_set_color 0x0F c);
          c = edge 1 (draw_horizontal_rule WINDOW_TOP c);
          c = write_text 2 1 ''GlassOS Control Window'' c;
          c = write_text 48 1 ''black background / white text'' c;
          c = draw_horizontal_rule 2 c;
          c = fold edge [CONSOLE_TOP..CONSOLE_BOTTOM] c;
          c = edge 23 (draw_horizontal_rule 22 c);
          c = write_text 2 23 ''Type help for commands | clear clears pane | window redraws'' c
      in draw_horizontal_rule WINDOW_BOTTOM c)"

definition vga_draw_window :: "console \<Rightarrow> console" where
  "vga_draw_window c =
     vga_update_cursor
       ((draw_window_frame c)
          \<lparr>cursor_x := CONSOLE_LEFT, cursor_y := CONSOLE_TOP, window_mode := 1\<rparr>)"

section \<open>Formatted output\<close>

text \<open>The arguments of \<^verbatim>\<open>printf\<close>: a string, a C \<open>int\<close> and a \<open>uint64_t\<close>.\<close>

datatype farg = FStr string | FInt u32 | FHex u64

definition print_string_internal :: "string \<Rightarrow> console \<Rightarrow> console" where
  "print_string_internal s c = fold print_char s c"

text \<open>The \<open>int\<close> is its two's complement pattern; \<^verbatim>\<open>num = -num\<close> is negation at that
  width, which the C standard leaves undefined for the least \<open>int\<close>.\<close>

definition print_int_internal :: "u32 \<Rightarrow> console \<Rightarrow> console" where
  "print_int_internal num c =
     (if num = 0 then print_char (CHR ''0'') c
      else
        let (num, c) = (if sint num < 0 then (- num, print_char (CHR ''-'') c) else (num, c))
        in fold print_char (rev (dec_rev (nat (sint num)))) c)"

fun hex_rev :: "nat \<Rightarrow> string" where
  "hex_rev num =
     (if num = 0 then []
      else (let rem = num mod 16
            in char_of (if rem < 10 then rem + 48 else rem - 10 + 65)) # hex_rev (num div 16))"

declare hex_rev.simps [simp del]

definition print_hex_internal :: "u64 \<Rightarrow> console \<Rightarrow> console" where
  "print_hex_internal num c =
     (let c = print_string_internal ''0x'' c
      in if num = 0 then print_char (CHR ''0'') c
         else fold print_char (rev (hex_rev (unat num))) c)"

text \<open>An argument that is missing or of the wrong kind is undefined in C; here it prints
  nothing, and no call in the kernel passes one.\<close>

fun printf :: "string \<Rightarrow> farg list \<Rightarrow> console \<Rightarrow> console" where
  "printf [] args c = c"
| "printf [f] args c = print_char f c"
| "printf (f # d # format) args c =
     (if f = CHR ''%''
      then
        if d = CHR ''s'' then
          (case args of FStr s # rest \<Rightarrow> printf format rest (print_string_internal s c)
           | _ \<Rightarrow> printf format args c)
        else if d = CHR ''d'' then
          (case args of FInt n # rest \<Rightarrow> printf format rest (print_int_internal n c)
           | _ \<Rightarrow> printf format args c)
        else if d = CHR ''x'' then
          (case args of FHex n # rest \<Rightarrow> printf format rest (print_hex_internal n c)
           | _ \<Rightarrow> printf format args c)
        else printf format args (print_char d (print_char (CHR ''%'') c))
      else printf (d # format) args (print_char f c))"

section \<open>What reaches the serial line\<close>

text \<open>The characters written to the serial data port, oldest first.\<close>

definition serial_text :: "console \<Rightarrow> string" where
  "serial_text c = map (\<lambda>(p, v). char_of (unat v)) (rev (filter (\<lambda>(p, v). p = 0x3F8) (ports c)))"

lemma char_of_unat_of_char [simp]: "char_of (unat (of_char ch :: u8)) = ch"
proof -
  have "unat (word_of_nat (of_char ch) :: u8) = of_char ch"
    by (simp add: unat_of_nat take_bit_eq_mod)
  then show ?thesis
    by (simp add: of_nat_of_char)
qed

lemma serial_text_outb: "serial_text (outb port val c) =
    serial_text c @ (if port = 0x3F8 then [char_of (unat val)] else [])"
  by (simp add: serial_text_def outb_def)

lemma serial_text_frame [simp]:
  "serial_text (c\<lparr>cursor_x := x\<rparr>) = serial_text c"
  "serial_text (c\<lparr>cursor_y := y\<rparr>) = serial_text c"
  "serial_text (c\<lparr>current_color := col\<rparr>) = serial_text c"
  "serial_text (c\<lparr>window_mode := m\<rparr>) = serial_text c"
  "serial_text (c\<lparr>video_memory := v\<rparr>) = serial_text c"
  by (simp_all add: serial_text_def)

lemma serial_text_put [simp]: "serial_text (serial_put ch c) = serial_text c @ [ch]"
  by (simp add: serial_put_def serial_text_outb)

lemma serial_text_fold_put: "serial_text (fold serial_put s c) = serial_text c @ s"
  by (induction s arbitrary: c) simp_all

lemma serial_text_write [simp]: "serial_text (serial_write s c) = serial_text c @ s"
  by (induction s arbitrary: c) simp_all

lemma serial_text_write_decimal [simp]:
  "serial_text (serial_write_decimal v c) = serial_text c @ decimal (unat v)"
  by (auto simp: serial_write_decimal_def serial_text_fold_put decimal_def unat_eq_zero)

lemma serial_text_update_cursor [simp]: "serial_text (vga_update_cursor c) = serial_text c"
  by (simp add: vga_update_cursor_def Let_def serial_text_outb)

lemma serial_text_cells [simp]:
  "serial_text (write_cell x y ch col c) = serial_text c"
  "serial_text (copy_cell_up y x c) = serial_text c"
  by (simp_all add: write_cell_def copy_cell_up_def Let_def)

lemma serial_text_scroll [simp]:
  "serial_text (scroll_screen c) = serial_text c"
  "serial_text (scroll_window_content c) = serial_text c"
  by (simp_all add: scroll_screen_def scroll_window_content_def Let_def fold_frame [of _ serial_text])

lemma serial_text_keep_cursor [simp]: "serial_text (keep_cursor_in_console c) = serial_text c"
  by (simp add: keep_cursor_in_console_def Let_def)

lemma serial_text_print_char [simp]: "serial_text (print_char ch c) = serial_text c @ [ch]"
  by (simp add: print_char_def Let_def serial_write_char_def serial_text_outb)

lemma serial_text_print_chars: "serial_text (fold print_char s c) = serial_text c @ s"
  by (induction s arbitrary: c) simp_all

text \<open>The text a call of \<open>printf\<close> stands for.\<close>

definition int_text :: "u32 \<Rightarrow> string" where
  "int_text num =
     (if num = 0 then ''0''
      else if sint num < 0 then CHR ''-'' # rev (dec_rev (nat (sint (- num))))
      else rev (dec_rev (nat (sint num))))"

definition hex_text :: "u64 \<Rightarrow> string" where
  "hex_text num = ''0x'' @ (if num = 0 then ''0'' else rev (hex_rev (unat num)))"

fun format_text :: "string \<Rightarrow> farg list \<Rightarrow> string" where
  "format_text [] args = []"
| "format_text [f] args = [f]"
| "format_text (f # d # format) args =
     (if f = CHR ''%''
      then
        if d = CHR ''s'' then
          (case args of FStr s # rest \<Rightarrow> s @ format_text format rest | _ \<Rightarrow> format_text format args)
        else if d = CHR ''d'' then
          (case args of FInt n # rest \<Rightarrow> int_text n @ format_text format rest
           | _ \<Rightarrow> format_text format args)
        else if d = CHR ''x'' then
          (case args of FHex n # rest \<Rightarrow> hex_text n @ format_text format rest
           | _ \<Rightarrow> format_text format args)
        else f # d # format_text format args
      else f # format_text (d # format) args)"

lemma serial_text_print_int: "serial_text (print_int_internal n c) = serial_text c @ int_text n"
  by (auto simp: print_int_internal_def int_text_def serial_text_print_chars)

lemma serial_text_print_hex: "serial_text (print_hex_internal n c) = serial_text c @ hex_text n"
  by (auto simp: print_hex_internal_def hex_text_def print_string_internal_def Let_def
      serial_text_print_chars)

lemma serial_text_print_string: "serial_text (print_string_internal s c) = serial_text c @ s"
  by (simp add: print_string_internal_def serial_text_print_chars)

lemmas serial_text_prints = serial_text_print_int serial_text_print_hex serial_text_print_string

lemma serial_text_printf: "serial_text (printf format args c) = serial_text c @ format_text format args"
  by (induction format args c rule: printf.induct)
    (auto simp: serial_text_prints split: list.split farg.split)

lemma serial_text_rule [simp]: "serial_text (draw_horizontal_rule y c) = serial_text c"
  by (simp add: draw_horizontal_rule_def Let_def fold_frame [of _ serial_text])

lemma serial_text_write_text [simp]: "serial_text (write_text x y s c) = serial_text c"
  by (induction x y s c rule: write_text.induct) simp_all

lemma serial_text_clear_screen [simp]: "serial_text (clear_screen c) = serial_text c"
  by (simp add: clear_screen_def Let_def fold_frame [of _ serial_text])

lemma serial_text_set_color [simp]: "serial_text (vga_set_color col c) = serial_text c"
  by (simp add: vga_set_color_def)

lemma serial_text_let:
  "serial_text a = s \<Longrightarrow> (\<And>c. serial_text c = s \<Longrightarrow> serial_text (f c) = s) \<Longrightarrow> serial_text (Let a f) = s"
  by (simp add: Let_def)

lemma serial_text_frame_drawn [simp]: "serial_text (draw_window_frame c) = serial_text c"
proof -
  let ?edge = "\<lambda>y c. let c = write_cell WINDOW_LEFT y (CHR ''|'') (current_color c) c
    in write_cell WINDOW_RIGHT y (CHR ''|'') (current_color c) c"
  have edge: "serial_text (?edge y c) = serial_text c" for y c by (simp add: Let_def)
  have edges: "serial_text (fold ?edge ys c) = serial_text c" for ys c
    by (rule fold_frame) (rule edge)
  show ?thesis
    unfolding draw_window_frame_def Let_def [where 'a = "int \<Rightarrow> console \<Rightarrow> console"]
    by (rule serial_text_let,
        simp only: edge edges serial_text_rule serial_text_write_text serial_text_clear_screen serial_text_set_color)+
      (simp only: serial_text_rule)
qed

lemma serial_text_window [simp]:
  "serial_text (vga_clear_window_content c) = serial_text c" "serial_text (vga_draw_window c) = serial_text c"
  by (simp_all add: vga_clear_window_content_def vga_draw_window_def Let_def
      fold_frame [of _ serial_text] del: upto_rec_numeral)

lemma serial_text_moves [simp]:
  "serial_text (vga_move_cursor_left c) = serial_text c" "serial_text (vga_move_cursor_right c) = serial_text c"
  "serial_text (vga_backspace c) = serial_text c" "serial_text (vga_enable_cursor c) = serial_text c"
  by (simp_all add: vga_move_cursor_left_def vga_move_cursor_right_def vga_backspace_def
      vga_enable_cursor_def Let_def serial_text_outb)

section \<open>Where the console writes\<close>

text \<open>The bytes of the cells of a rectangle, the text screen and the inside of the window.\<close>

definition region :: "int set \<Rightarrow> int set \<Rightarrow> int set" where
  "region X Y = {k. \<exists>x\<in>X. \<exists>y\<in>Y. k = (y * VGA_WIDTH + x) * 2 \<or> k = (y * VGA_WIDTH + x) * 2 + 1}"

definition screen :: "int set" where
  "screen = region {0..79} {0..24}"

definition pane :: "int set" where
  "pane = region {1..78} {3..21}"

lemma region_cell:
  assumes "x \<in> X" and "y \<in> Y"
  shows "(y * 80 + x) * 2 \<in> region X Y" and "(y * 80 + x) * 2 + 1 \<in> region X Y"
  unfolding region_def using assms by blast+

lemma region_mono: "X \<subseteq> X' \<Longrightarrow> Y \<subseteq> Y' \<Longrightarrow> region X Y \<subseteq> region X' Y'"
  unfolding region_def by blast

lemma pane_screen: "pane \<subseteq> screen"
  unfolding pane_def screen_def by (rule region_mono) auto

lemma screen_bytes: "screen \<subseteq> {0..<4000}"
  by (auto simp: screen_def region_def)

definition paints :: "int set \<Rightarrow> console \<Rightarrow> console \<Rightarrow> bool" where
  "paints A c c' \<longleftrightarrow> (\<forall>k. k \<notin> A \<longrightarrow> video_memory c' k = video_memory c k)"

interpretation painting: evolution "paints A" for A
  by unfold_locales (auto simp: paints_def)

lemma paints_mono: "paints A c c' \<Longrightarrow> A \<subseteq> B \<Longrightarrow> paints B c c'"
  unfolding paints_def by blast

lemma paints_same: "video_memory c' = video_memory c \<Longrightarrow> paints A c c'"
  by (simp add: paints_def)

lemma paints_write_cell:
  "x \<in> X \<Longrightarrow> y \<in> Y \<Longrightarrow> paints (region X Y) c (write_cell x y ch col c)"
  by (auto simp: paints_def region_def write_cell_def Let_def)

lemma paints_copy_cell_up:
  "x \<in> X \<Longrightarrow> y - 1 \<in> Y \<Longrightarrow> paints (region X Y) c (copy_cell_up y x c)"
proof -
  assume "x \<in> X" "y - 1 \<in> Y"
  then show ?thesis
    using region_cell [of x X "y - 1" Y]
    by (auto simp: paints_def copy_cell_up_def Let_def)
qed

lemma outb_fields [simp]:
  "video_memory (outb p v c) = video_memory c" "cursor_x (outb p v c) = cursor_x c"
  "cursor_y (outb p v c) = cursor_y c" "window_mode (outb p v c) = window_mode c"
  "current_color (outb p v c) = current_color c"
  by (simp_all add: outb_def)

lemma update_cursor_fields [simp]:
  "video_memory (vga_update_cursor c) = video_memory c"
  "cursor_x (vga_update_cursor c) = cursor_x c" "cursor_y (vga_update_cursor c) = cursor_y c"
  "window_mode (vga_update_cursor c) = window_mode c"
  "current_color (vga_update_cursor c) = current_color c"
  by (simp_all add: vga_update_cursor_def Let_def)

lemma cell_fields [simp]:
  "cursor_x (write_cell x y ch col c) = cursor_x c" "cursor_y (write_cell x y ch col c) = cursor_y c"
  "window_mode (write_cell x y ch col c) = window_mode c"
  "cursor_x (copy_cell_up y x c) = cursor_x c" "cursor_y (copy_cell_up y x c) = cursor_y c"
  "window_mode (copy_cell_up y x c) = window_mode c"
  by (simp_all add: write_cell_def copy_cell_up_def Let_def)

lemma fold_cell_fields [simp]:
  "window_mode (fold (copy_cell_up y) xs c) = window_mode c"
  "cursor_x (fold (copy_cell_up y) xs c) = cursor_x c"
  "window_mode (fold (\<lambda>y. fold (copy_cell_up y) xs) ys c) = window_mode c"
  "cursor_x (fold (\<lambda>y. fold (copy_cell_up y) xs) ys c) = cursor_x c"
  "window_mode (fold (\<lambda>x c. write_cell x b ch (current_color c) c) xs c) = window_mode c"
  "cursor_x (fold (\<lambda>x c. write_cell x b ch (current_color c) c) xs c) = cursor_x c"
  by (auto intro!: fold_frame [where p = window_mode] fold_frame [where p = cursor_x])

lemma scroll_fields [simp]:
  "window_mode (scroll_screen c) = window_mode c" "cursor_x (scroll_screen c) = cursor_x c"
  "cursor_y (scroll_screen c) = 24" "window_mode (scroll_window_content c) = window_mode c"
  "cursor_x (scroll_window_content c) = 2" "cursor_y (scroll_window_content c) = 21"
  by (simp_all add: scroll_screen_def scroll_window_content_def Let_def)

lemma paints_scroll_loops:
  assumes "set xs \<subseteq> X" and "\<And>y. y \<in> set ys \<Longrightarrow> y - 1 \<in> Y" and "b \<in> Y"
  shows "paints (region X Y) c
    (fold (\<lambda>x c. write_cell x b ch (current_color c) c) xs
      (fold (\<lambda>y. fold (copy_cell_up y) xs) ys c))"
  using assms
  by (intro painting.evo_trans [OF painting.evolves_fold painting.evolves_fold] painting.evolves_fold
      paints_copy_cell_up paints_write_cell) auto

lemma paints_scroll_screen: "paints screen c (scroll_screen c)"
proof -
  have "paints screen c (fold (\<lambda>x c. write_cell x 24 (CHR '' '') (current_color c) c) [0..79]
      (fold (\<lambda>y. fold (copy_cell_up y) [0..79]) [1..24] c))"
    unfolding screen_def by (rule paints_scroll_loops) auto
  then show ?thesis
    by (rule painting.evo_trans) (simp add: scroll_screen_def Let_def paints_same)
qed

lemma paints_scroll_window: "paints pane c (scroll_window_content c)"
proof -
  have "paints pane c (fold (\<lambda>x c. write_cell x 21 (CHR '' '') (current_color c) c) [1..78]
      (fold (\<lambda>y. fold (copy_cell_up y) [1..78]) [4..21] c))"
    unfolding pane_def by (rule paints_scroll_loops) auto
  then show ?thesis
    by (rule painting.evo_trans) (simp add: scroll_window_content_def Let_def paints_same)
qed

section \<open>The cursor stays on the screen, the text inside the window\<close>

definition cursor_ok :: "console \<Rightarrow> bool" where
  "cursor_ok c \<longleftrightarrow>
     (if window_mode c = 0 then cursor_x c \<in> {0..79} \<and> cursor_y c \<in> {0..24}
      else cursor_x c \<in> {2..77} \<and> cursor_y c \<in> {3..21})"

text \<open>One console operation: it keeps the mode and the cursor in range, and paints the window's
  inside only, or the whole screen when there is no window.\<close>

definition console_post :: "console \<Rightarrow> console \<Rightarrow> bool" where
  "console_post c c' \<longleftrightarrow>
     cursor_ok c' \<and> window_mode c' = window_mode c \<and>
     paints (if window_mode c = 0 then screen else pane) c c'"

definition console_step :: "console \<Rightarrow> console \<Rightarrow> bool" where
  "console_step c c' \<longleftrightarrow> (cursor_ok c \<longrightarrow> console_post c c')"

interpretation stepping: evolution console_step
proof
  show "console_step c c" for c
    by (simp add: console_step_def console_post_def painting.evo_refl)
  show "console_step c e" if "console_step c d" "console_step d e" for c d e
    using that unfolding console_step_def console_post_def by (auto intro: painting.evo_trans)
qed

lemma keep_cursor_window:
  assumes "window_mode c \<noteq> 0"
  shows "cursor_ok (keep_cursor_in_console c)"
    and "window_mode (keep_cursor_in_console c) = window_mode c"
    and "paints pane c (keep_cursor_in_console c)"
  using assms paints_scroll_window [of "c\<lparr>cursor_x := 2, cursor_y := cursor_y c + 1\<rparr>"]
    paints_scroll_window [of "c\<lparr>cursor_x := 2\<rparr>"] paints_scroll_window [of c]
  by (auto simp: keep_cursor_in_console_def cursor_ok_def Let_def paints_def)

lemma keep_cursor_screen:
  assumes "window_mode c = 0" and "cursor_x c \<in> {0..79}" and "cursor_y c \<ge> 0"
  shows "cursor_ok (keep_cursor_in_console c)"
    and "window_mode (keep_cursor_in_console c) = window_mode c"
    and "paints screen c (keep_cursor_in_console c)"
  using assms paints_scroll_screen [of c]
  by (auto simp: keep_cursor_in_console_def cursor_ok_def paints_def)

lemma paints_cell_ok:
  "cursor_ok c \<Longrightarrow>
   paints (if window_mode c = 0 then screen else pane) c
     (write_cell (cursor_x c) (cursor_y c) ch col c)"
  by (auto simp: cursor_ok_def screen_def pane_def intro!: paints_write_cell split: if_splits)

lemma cursor_ok_cell [simp]: "cursor_ok (write_cell x y ch col c) = cursor_ok c"
  by (simp add: cursor_ok_def)

lemma cursor_ok_update [simp]: "cursor_ok (vga_update_cursor c) = cursor_ok c"
  by (simp add: cursor_ok_def)

lemma paints_update [simp]: "paints A c (vga_update_cursor d) = paints A c d"
  by (simp add: paints_def)

text \<open>Every character ends with \<open>keep_cursor_in_console\<close> and a cursor update, from a state that
  has painted inside the allowed area and whose cursor is at most one cell too far.\<close>

lemma finish_char:
  assumes "window_mode d = window_mode c"
    and "paints (if window_mode c = 0 then screen else pane) c d"
    and "window_mode c = 0 \<Longrightarrow> cursor_x d \<in> {0..79} \<and> 0 \<le> cursor_y d"
  shows "console_post c (vga_update_cursor (keep_cursor_in_console d))"
proof (cases "window_mode c = 0")
  case True
  then show ?thesis
    using assms keep_cursor_screen [of d] by (auto simp: console_post_def intro: painting.evo_trans)
next
  case False
  then show ?thesis
    using assms keep_cursor_window [of d] by (auto simp: console_post_def intro: painting.evo_trans)
qed

lemma cursor_ok_screen: "cursor_ok c \<Longrightarrow> window_mode c = 0 \<Longrightarrow> cursor_x c \<in> {0..79} \<and> 0 \<le> cursor_y c"
  by (simp add: cursor_ok_def)

text \<open>A visible character: the cursor is brought into range, the cell written, the cursor moved.\<close>

lemma place_char:
  fixes ch :: char
  assumes "cursor_ok c"
  defines "k \<equiv> keep_cursor_in_console c"
  defines "w \<equiv> write_cell (cursor_x k) (cursor_y k) ch (current_color k) k"
  shows "cursor_ok w" "window_mode w = window_mode c"
    "paints (if window_mode c = 0 then screen else pane) c w"
proof -
  have "console_post c (vga_update_cursor (keep_cursor_in_console c))"
    using assms(1) by (intro finish_char cursor_ok_screen painting.evo_refl) auto
  then have k: "cursor_ok k" "window_mode k = window_mode c"
    "paints (if window_mode c = 0 then screen else pane) c k"
    by (simp_all add: console_post_def k_def)
  show "cursor_ok w" "window_mode w = window_mode c"
    using k(1,2) by (simp_all add: w_def)
  show "paints (if window_mode c = 0 then screen else pane) c w"
    using k(2) painting.evo_trans [OF k(3)] paints_cell_ok [OF k(1)] unfolding w_def by metis
qed

lemma print_char_step: "console_step c (print_char ch c)"
proof -
  define c0 where "c0 = serial_write_char ch (outb 0xE9 (of_char ch) c)"
  have c0: "cursor_x c0 = cursor_x c" "cursor_y c0 = cursor_y c" "window_mode c0 = window_mode c"
    "video_memory c0 = video_memory c"
    by (simp_all add: c0_def serial_write_char_def serial_put_def)
  show ?thesis
  proof (cases "ch = CHR 0x0A")
    case True
    then have "print_char ch c = vga_update_cursor (keep_cursor_in_console
        (c0\<lparr>cursor_x := (if window_mode c0 \<noteq> 0 then 2 else 0), cursor_y := cursor_y c0 + 1\<rparr>))"
      by (simp add: print_char_def Let_def c0_def)
    moreover have "console_post c \<dots>" if "cursor_ok c"
      using c0 cursor_ok_screen [OF that] by (intro finish_char paints_same) auto
    ultimately show ?thesis
      by (simp add: console_step_def)
  next
    case False
    define k where "k = keep_cursor_in_console c0"
    define w where "w = write_cell (cursor_x k) (cursor_y k) ch (current_color k) k"
    have eq: "print_char ch c = vga_update_cursor (keep_cursor_in_console
        (if window_mode w \<noteq> 0 \<and> cursor_x w + 1 > 77 then w\<lparr>cursor_x := 2, cursor_y := cursor_y w + 1\<rparr>
         else if cursor_x w + 1 \<ge> 80 then w\<lparr>cursor_x := 0, cursor_y := cursor_y w + 1\<rparr>
         else w\<lparr>cursor_x := cursor_x w + 1\<rparr>))"
      using False by (simp add: print_char_def Let_def c0_def k_def w_def)
    show ?thesis
      unfolding console_step_def eq
    proof (intro impI finish_char)
      assume "cursor_ok c"
      then have "cursor_ok c0" by (simp only: cursor_ok_def c0)
      note w = place_char [OF this, of ch, folded k_def, folded w_def]
      show "window_mode (if window_mode w \<noteq> 0 \<and> cursor_x w + 1 > 77
            then w\<lparr>cursor_x := 2, cursor_y := cursor_y w + 1\<rparr>
            else if cursor_x w + 1 \<ge> 80 then w\<lparr>cursor_x := 0, cursor_y := cursor_y w + 1\<rparr>
            else w\<lparr>cursor_x := cursor_x w + 1\<rparr>) = window_mode c"
        using w c0 by simp
      show "paints (if window_mode c = 0 then screen else pane) c (if window_mode w \<noteq> 0 \<and> cursor_x w + 1 > 77
            then w\<lparr>cursor_x := 2, cursor_y := cursor_y w + 1\<rparr>
            else if cursor_x w + 1 \<ge> 80 then w\<lparr>cursor_x := 0, cursor_y := cursor_y w + 1\<rparr>
            else w\<lparr>cursor_x := cursor_x w + 1\<rparr>)"
        using w(3) c0 by (simp add: paints_def)
      assume "window_mode c = 0"
      then show "cursor_x (if window_mode w \<noteq> 0 \<and> cursor_x w + 1 > 77
            then w\<lparr>cursor_x := 2, cursor_y := cursor_y w + 1\<rparr>
            else if cursor_x w + 1 \<ge> 80 then w\<lparr>cursor_x := 0, cursor_y := cursor_y w + 1\<rparr>
            else w\<lparr>cursor_x := cursor_x w + 1\<rparr>) \<in> {0..79} \<and>
          0 \<le> cursor_y (if window_mode w \<noteq> 0 \<and> cursor_x w + 1 > 77
            then w\<lparr>cursor_x := 2, cursor_y := cursor_y w + 1\<rparr>
            else if cursor_x w + 1 \<ge> 80 then w\<lparr>cursor_x := 0, cursor_y := cursor_y w + 1\<rparr>
            else w\<lparr>cursor_x := cursor_x w + 1\<rparr>)"
        using w(1,2) c0 by (simp add: cursor_ok_def)
    qed
  qed
qed

lemma print_chars_step: "console_step c (fold print_char s c)"
  by (intro stepping.evolves_fold print_char_step)

lemma print_parts_step:
  "console_step c (print_string_internal s c)"
  "console_step c (print_int_internal n c)"
  "console_step c (print_hex_internal h c)"
proof -
  show string: "console_step c (print_string_internal s c)" for s
    unfolding print_string_internal_def by (rule print_chars_step)
  show "console_step c (print_int_internal n c)"
    unfolding print_int_internal_def Let_def
    by (auto intro: print_chars_step print_char_step stepping.evo_trans)
  show "console_step c (print_hex_internal h c)"
    unfolding print_hex_internal_def Let_def
    by (rule stepping.evo_trans [OF string [of "''0x''"]]) (simp add: print_char_step print_chars_step)
qed

lemma printf_step: "console_step c (printf format args c)"
proof (induction format args c rule: printf.induct)
  case (1 args c)
  show ?case by (simp add: stepping.evo_refl)
next
  case (2 f args c)
  show ?case by (simp add: print_char_step)
next
  case (3 f d format args c)
  note one = stepping.evo_trans [OF print_char_step]
  show ?case
  proof (cases "f = CHR ''%''")
    case False
    then show ?thesis using "3.IH" by (simp add: one)
  next
    case True
    consider "d = CHR ''s''" | "d = CHR ''d''" | "d = CHR ''x''"
      | "d \<noteq> CHR ''s''" "d \<noteq> CHR ''d''" "d \<noteq> CHR ''x''" by blast
    then show ?thesis
    proof cases
      case 1
      then show ?thesis
        using True "3.IH"
        by (auto split: list.split farg.split intro: stepping.evo_trans [OF print_parts_step(1)])
    next
      case 2
      then show ?thesis
        using True "3.IH"
        by (auto split: list.split farg.split intro: stepping.evo_trans [OF print_parts_step(2)])
    next
      case 3
      then show ?thesis
        using True "3.IH"
        by (auto split: list.split farg.split intro: stepping.evo_trans [OF print_parts_step(3)])
    next
      case 4
      then show ?thesis using True "3.IH" by (simp add: one [OF one])
    qed
  qed
qed

lemma move_cursor_step:
  "console_step c (vga_move_cursor_left c)" "console_step c (vga_move_cursor_right c)"
proof -
  show "console_step c (vga_move_cursor_left c)"
    by (auto simp: console_step_def console_post_def vga_move_cursor_left_def cursor_ok_def paints_def)
  have "console_step c (vga_move_cursor_right c)" if "window_mode c \<noteq> 0"
    using keep_cursor_window [of "c\<lparr>cursor_x := cursor_x c + 1\<rparr>"] that
    by (auto simp: console_step_def console_post_def vga_move_cursor_right_def paints_def)
  moreover have "console_step c (vga_move_cursor_right c)" if "window_mode c = 0"
    using paints_scroll_screen [of "c\<lparr>cursor_x := 0, cursor_y := cursor_y c + 1\<rparr>"] that
    by (auto simp: console_step_def console_post_def vga_move_cursor_right_def cursor_ok_def paints_def Let_def)
  ultimately show "console_step c (vga_move_cursor_right c)" by blast
qed

lemma backspace_step: "console_step c (vga_backspace c)"
proof -
  let ?l = "vga_move_cursor_left c"
  have "console_step ?l (write_cell (cursor_x ?l) (cursor_y ?l) ch col ?l)" for ch col
    using paints_cell_ok [of ?l] by (simp add: console_step_def console_post_def)
  then show ?thesis
    unfolding vga_backspace_def Let_def
    by (auto intro: stepping.evo_refl stepping.evo_trans move_cursor_step(1))
qed

lemma clear_screen_fields [simp]:
  "window_mode (clear_screen c) = 0" "cursor_x (clear_screen c) = 0" "cursor_y (clear_screen c) = 0"
  by (simp_all add: clear_screen_def Let_def fold_frame [where p = window_mode])

lemma paints_clear_screen: "paints screen c (clear_screen c)"
proof -
  have cells: "i * 2 \<in> screen \<and> i * 2 + 1 \<in> screen" if "i \<in> set [0..1999]" for i
  proof -
    have "i mod 80 \<in> {0..79}" "i div 80 \<in> {0..24}"
      using that by auto
    from region_cell [OF this] show ?thesis
      by (simp add: screen_def)
  qed
  have "paints screen d (fold (\<lambda>i c. c\<lparr>video_memory := (video_memory c)(i * 2 := b,
        i * 2 + 1 := current_color c)\<rparr>) [0..1999] d)" for d b
    by (rule painting.evolves_fold) (use cells in \<open>auto simp: paints_def\<close>)
  from this [of "c\<lparr>window_mode := 0\<rparr>"] show ?thesis
    by (simp add: clear_screen_def Let_def paints_def)
qed

text \<open>Whatever the console was, drawing the window leaves it with a window and a cursor inside.\<close>

lemma draw_window_ok: "cursor_ok (vga_draw_window c)" "window_mode (vga_draw_window c) = 1"
  by (simp_all add: vga_draw_window_def cursor_ok_def)

lemma clear_content_ok: "cursor_ok (vga_clear_window_content c)"
  by (auto simp: vga_clear_window_content_def cursor_ok_def Let_def
      fold_frame [where p = window_mode])

section \<open>What every console operation keeps\<close>

text \<open>Nothing is ever taken back from the serial line, and the cursor stays in range.\<close>

definition console_grows :: "console \<Rightarrow> console \<Rightarrow> bool" where
  "console_grows c c' \<longleftrightarrow>
     length (serial_text c) \<le> length (serial_text c') \<and> (cursor_ok c \<longrightarrow> cursor_ok c')"

interpretation growing: evolution console_grows
  by unfold_locales (auto simp: console_grows_def)

definition sends :: "(console \<Rightarrow> console) \<Rightarrow> bool" where
  "sends f \<longleftrightarrow> (\<forall>c. console_grows c (f c))"

named_theorems sends_intro "console operations that only add to the serial line"

lemma sendsI:
  "(\<And>c. length (serial_text c) \<le> length (serial_text (f c))) \<Longrightarrow>
   (\<And>c. cursor_ok c \<Longrightarrow> cursor_ok (f c)) \<Longrightarrow> sends f"
  by (simp add: sends_def console_grows_def)

lemma sends_step:
  "(\<And>c. length (serial_text c) \<le> length (serial_text (f c))) \<Longrightarrow> (\<And>c. console_step c (f c)) \<Longrightarrow> sends f"
  by (simp add: sends_def console_grows_def console_step_def console_post_def)

lemma sends_comp: "sends f \<Longrightarrow> sends g \<Longrightarrow> sends (\<lambda>c. f (g c))"
  unfolding sends_def using growing.evo_trans by blast

lemma cursor_ok_outb [simp]:
  "cursor_ok (outb port val c) = cursor_ok c" "cursor_ok (serial_put ch c) = cursor_ok c"
  "cursor_ok (vga_set_color col c) = cursor_ok c"
  by (simp_all add: cursor_ok_def outb_def serial_put_def vga_set_color_def)

lemma cursor_ok_serial [simp]:
  "cursor_ok (serial_write s c) = cursor_ok c" "cursor_ok (fold serial_put s c) = cursor_ok c"
  by (induction s arbitrary: c) simp_all

lemma cursor_ok_decimal [simp]: "cursor_ok (serial_write_decimal v c) = cursor_ok c"
  by (simp add: serial_write_decimal_def)

lemma cursor_ok_hex [simp]: "cursor_ok (serial_write_hex v c) = cursor_ok c"
  unfolding serial_write_hex_def by (subst fold_frame [of _ cursor_ok]) simp_all

lemma cursor_ok_clear_screen: "cursor_ok (clear_screen c)"
  by (simp add: clear_screen_def Let_def fold_frame [of _ window_mode] cursor_ok_def del: upto_rec_numeral)

lemma cursor_ok_enable [simp]: "cursor_ok (vga_enable_cursor c) = cursor_ok c"
  by (simp add: vga_enable_cursor_def)

lemma sends_console [sends_intro]:
  "sends (vga_set_color col)" "sends clear_screen" "sends vga_clear_window_content" "sends vga_draw_window"
  "sends vga_enable_cursor" "sends (outb port val)"
  by (rule sendsI; simp add: cursor_ok_clear_screen draw_window_ok clear_content_ok serial_text_outb)+

lemma sends_serial [sends_intro]:
  "sends (serial_write s)" "sends (serial_write_decimal v)"
  by (rule sendsI; simp)+

lemma sends_hex [sends_intro]: "sends (serial_write_hex v)"
proof (rule sendsI)
  have "serial_text (fold (\<lambda>i. serial_put (g i)) xs c) = serial_text c @ map g xs" for g and xs :: "nat list" and c
    by (induction xs arbitrary: c) simp_all
  then show "length (serial_text c) \<le> length (serial_text (serial_write_hex v c))" for c
    by (simp add: serial_write_hex_def)
qed simp

lemma sends_print [sends_intro]: "sends (print_char ch)" "sends (printf format args)"
  by (rule sends_step, simp add: serial_text_printf, rule print_char_step printf_step)+

section \<open>Properties\<close>


text \<open>C27: With the cursor inside the pane, \<^verbatim>\<open>printf\<close> leaves it inside the pane, keeps the window
  mode, and writes no byte of video memory outside the pane (the whole screen before the window is
  drawn), however much it prints and scrolls; the window's frame is never overwritten.\<close>

theorem printf_stays_inside:
  assumes "cursor_ok c"
  shows "cursor_ok (printf format args c) \<and> window_mode (printf format args c) = window_mode c \<and>
    (\<forall>k. k \<notin> (if window_mode c = 0 then screen else pane) \<longrightarrow>
      video_memory (printf format args c) k = video_memory c k)"
  using printf_step [of c format args] assms
  by (simp_all add: console_step_def console_post_def paints_def)

text \<open>The display before the kernel runs.\<close>

definition zero_console :: console where
  "zero_console = \<lparr>video_memory = (\<lambda>_. 0), cursor_x = 0, cursor_y = 0, current_color = 0x0F,
     window_mode = 0, ports = []\<rparr>"

lemma cursor_ok_zero_console: "cursor_ok zero_console"
  by (simp add: cursor_ok_def zero_console_def)

theorem printf_stays_inside_witness:
  "cursor_ok (printf ''%s'' [FStr ''glass''] zero_console) \<and>
   video_memory (printf ''%s'' [FStr ''glass''] zero_console) 4000 = 0"
proof -
  have "4000 \<notin> screen" using screen_bytes by auto
  with printf_stays_inside [OF cursor_ok_zero_console, of "''%s''" "[FStr ''glass'']"] show ?thesis
    by (simp add: zero_console_def)
qed

end
