(* ===== verification/Keyboard.thy ===== *)
theory Keyboard
  imports Console
begin

text \<open>
  The line editor of \<^verbatim>\<open>kernel/keyboard.c\<close>: scan codes in, an edited line with a cursor, a
  history of the last eight commands, and the same line drawn on the console. The state is the
  file's static variables together with the console it draws on. A scan code read from port
  0x60 is an argument of the handler.
\<close>

section \<open>State\<close>

text \<open>\<^verbatim>\<open>kbd_buffer[0..buffer_idx)\<close> is \<open>kbd_line\<close>; the history array is kept with all its
  eight slots; \<open>display\<close> is the console.\<close>

record keyboard =
  kbd_line :: string
  command_ready :: bool
  command_history :: "string list"
  saved_line :: string
  history_count :: int
  history_next :: int
  history_cursor :: int
  edit_cursor :: nat
  rendered_length :: nat
  extended_scancode :: bool
  shift_pressed :: bool
  display :: console

abbreviation (input) LINE_CAPACITY :: nat where "LINE_CAPACITY \<equiv> 128"
abbreviation (input) HISTORY_CAPACITY :: int where "HISTORY_CAPACITY \<equiv> 8"

definition on_display :: "(console \<Rightarrow> console) \<Rightarrow> keyboard \<Rightarrow> keyboard" where
  "on_display f k = k\<lparr>display := f (display k)\<rparr>"

section \<open>Keys\<close>

text \<open>\<^verbatim>\<open>kbd_us\<close>; the entries past the initialisers are 0, for which no character exists.\<close>

definition kbd_us :: "nat \<Rightarrow> nat" where
  "kbd_us scancode =
     (let keys = [0, 27] @ map of_char ''1234567890-='' @ [8, 9] @ map of_char ''qwertyuiop[]'' @ [10, 0] @
            map of_char ''asdfghjkl;'' @ [39, 96, 0, 92] @ map of_char ''zxcvbnm,./'' @ [0, 42, 0, 32, 0]
      in if scancode < length keys then keys ! scancode else 0)"

definition shifted_key :: "nat \<Rightarrow> nat" where
  "shifted_key key =
     (if 97 \<le> key \<and> key \<le> 122 then key - 97 + 65
      else case map_of (zip (map of_char ''1234567890-=[]'' @ [92, 59, 39, 96, 44, 46, 47])
                            (map of_char ''!@#$%^&*()_+{}'' @ [124, 58, 34, 126, 60, 62, 63])) key of
        Some shifted \<Rightarrow> shifted
      | None \<Rightarrow> key)"

section \<open>Operations\<close>

definition copy_line :: "string \<Rightarrow> string" where
  "copy_line source = copy_chars (LINE_CAPACITY - 1) source"

definition history_slot :: "keyboard \<Rightarrow> int \<Rightarrow> int" where
  "history_slot k index = (history_next k - history_count k + index + HISTORY_CAPACITY) mod HISTORY_CAPACITY"

definition redraw_line :: "keyboard \<Rightarrow> keyboard" where
  "redraw_line k =
     (let k = on_display (vga_move_cursor_right ^^ (rendered_length k - edit_cursor k)) k;
          k = on_display (vga_backspace ^^ rendered_length k) k;
          k = on_display (fold print_char (kbd_line k)) k;
          k = k\<lparr>rendered_length := length (kbd_line k)\<rparr>
      in on_display (vga_move_cursor_left ^^ (length (kbd_line k) - edit_cursor k)) k)"

definition reset_history_navigation :: "keyboard \<Rightarrow> keyboard" where
  "reset_history_navigation k = k\<lparr>history_cursor := -1\<rparr>"

definition replace_line :: "string \<Rightarrow> keyboard \<Rightarrow> keyboard" where
  "replace_line line k =
     redraw_line (k\<lparr>kbd_line := copy_line line, edit_cursor := length (copy_line line)\<rparr>)"

definition remember_command :: "keyboard \<Rightarrow> keyboard" where
  "remember_command k =
     (if kbd_line k = [] then k
      else let k = k\<lparr>command_history := (command_history k)[nat (history_next k) := copy_line (kbd_line k)],
                     history_next := (history_next k + 1) mod HISTORY_CAPACITY\<rparr>
           in if history_count k < HISTORY_CAPACITY then k\<lparr>history_count := history_count k + 1\<rparr> else k)"

definition history_up :: "keyboard \<Rightarrow> keyboard" where
  "history_up k =
     (if history_count k = 0 then k
      else let k = (if history_cursor k < 0
                    then k\<lparr>saved_line := copy_line (kbd_line k), history_cursor := history_count k - 1\<rparr>
                    else if history_cursor k > 0 then k\<lparr>history_cursor := history_cursor k - 1\<rparr> else k)
           in replace_line (command_history k ! nat (history_slot k (history_cursor k))) k)"

definition history_down :: "keyboard \<Rightarrow> keyboard" where
  "history_down k =
     (if history_cursor k < 0 then k
      else if history_cursor k < history_count k - 1
      then let k = k\<lparr>history_cursor := history_cursor k + 1\<rparr>
           in replace_line (command_history k ! nat (history_slot k (history_cursor k))) k
      else let k = k\<lparr>history_cursor := -1\<rparr> in replace_line (saved_line k) k)"

text \<open>The shifting loops move the tail of the line by one place.\<close>

definition insert_character :: "char \<Rightarrow> keyboard \<Rightarrow> keyboard" where
  "insert_character key k =
     (if length (kbd_line k) \<ge> LINE_CAPACITY - 1 then k
      else redraw_line (reset_history_navigation
        (k\<lparr>kbd_line := take (edit_cursor k) (kbd_line k) @ key # drop (edit_cursor k) (kbd_line k),
           edit_cursor := edit_cursor k + 1\<rparr>)))"

definition delete_character :: "keyboard \<Rightarrow> keyboard" where
  "delete_character k =
     (if edit_cursor k \<ge> length (kbd_line k) then k
      else redraw_line (reset_history_navigation
        (k\<lparr>kbd_line := take (edit_cursor k) (kbd_line k) @ drop (edit_cursor k + 1) (kbd_line k)\<rparr>)))"

definition backspace_character :: "keyboard \<Rightarrow> keyboard" where
  "backspace_character k =
     (if edit_cursor k = 0 then k
      else delete_character (on_display vga_move_cursor_left (k\<lparr>edit_cursor := edit_cursor k - 1\<rparr>)))"

definition keyboard_begin_line :: "keyboard \<Rightarrow> keyboard" where
  "keyboard_begin_line k =
     k\<lparr>kbd_line := [], edit_cursor := 0, rendered_length := 0, command_ready := False, history_cursor := -1\<rparr>"

definition cursor_left :: "keyboard \<Rightarrow> keyboard" where
  "cursor_left k =
     (if edit_cursor k > 0
      then on_display vga_move_cursor_left (k\<lparr>edit_cursor := edit_cursor k - 1\<rparr>) else k)"

definition cursor_right :: "keyboard \<Rightarrow> keyboard" where
  "cursor_right k =
     (if edit_cursor k < length (kbd_line k)
      then on_display vga_move_cursor_right (k\<lparr>edit_cursor := edit_cursor k + 1\<rparr>) else k)"

definition extended_key :: "nat \<Rightarrow> keyboard \<Rightarrow> keyboard" where
  "extended_key scancode k =
     (if scancode = 0x4B then cursor_left k
      else if scancode = 0x4D then cursor_right k
      else if scancode = 0x47 then (cursor_left ^^ edit_cursor k) k
      else if scancode = 0x4F then (cursor_right ^^ (length (kbd_line k) - edit_cursor k)) k
      else if scancode = 0x48 then history_up k
      else if scancode = 0x50 then history_down k
      else if scancode = 0x53 then delete_character k
      else k)"

definition plain_key :: "nat \<Rightarrow> keyboard \<Rightarrow> keyboard" where
  "plain_key key k =
     (if key = 10
      then let k = (cursor_right ^^ (length (kbd_line k) - edit_cursor k)) k;
               k = (remember_command k)\<lparr>command_ready := True, rendered_length := 0\<rparr>
           in on_display (print_char (CHR 0x0A)) k
      else if key = 8 then backspace_character k
      else if key \<noteq> 0 then insert_character (char_of key) k
      else k)"

definition keyboard_handler :: "u8 \<Rightarrow> keyboard \<Rightarrow> keyboard" where
  "keyboard_handler scancode k =
     on_display (outb 0x20 0x20)
      (if scancode = 0xE0 then k\<lparr>extended_scancode := True\<rparr>
       else if scancode = 0x2A \<or> scancode = 0x36 then k\<lparr>shift_pressed := True\<rparr>
       else if scancode = 0xAA \<or> scancode = 0xB6 then k\<lparr>shift_pressed := False\<rparr>
       else
         (if scancode AND 0x80 = 0 \<and> \<not> command_ready k
          then if extended_scancode k then extended_key (unat scancode) k
               else let key = kbd_us (unat scancode);
                        key = (if shift_pressed k then shifted_key key else key)
                    in plain_key key k
          else k)\<lparr>extended_scancode := False\<rparr>)"

section \<open>What each operation does to the line\<close>

text \<open>Drawing changes the display and \<open>rendered_length\<close> only.\<close>

lemma on_display_fields [simp]:
  "kbd_line (on_display f k) = kbd_line k" "edit_cursor (on_display f k) = edit_cursor k"
  "command_ready (on_display f k) = command_ready k" "command_history (on_display f k) = command_history k"
  "saved_line (on_display f k) = saved_line k" "history_count (on_display f k) = history_count k"
  "history_next (on_display f k) = history_next k" "history_cursor (on_display f k) = history_cursor k"
  "rendered_length (on_display f k) = rendered_length k"
  "extended_scancode (on_display f k) = extended_scancode k"
  "shift_pressed (on_display f k) = shift_pressed k" "display (on_display f k) = f (display k)"
  by (simp_all add: on_display_def)

lemma redraw_line_fields [simp]:
  "kbd_line (redraw_line k) = kbd_line k" "edit_cursor (redraw_line k) = edit_cursor k"
  "command_ready (redraw_line k) = command_ready k" "command_history (redraw_line k) = command_history k"
  "saved_line (redraw_line k) = saved_line k" "history_count (redraw_line k) = history_count k"
  "history_next (redraw_line k) = history_next k" "history_cursor (redraw_line k) = history_cursor k"
  "extended_scancode (redraw_line k) = extended_scancode k"
  "shift_pressed (redraw_line k) = shift_pressed k" "rendered_length (redraw_line k) = length (kbd_line k)"
  by (simp_all add: redraw_line_def Let_def)

lemma cursor_right_all:
  "n \<le> length (kbd_line k) - edit_cursor k \<Longrightarrow>
   (cursor_right ^^ n) k = on_display (vga_move_cursor_right ^^ n) (k\<lparr>edit_cursor := edit_cursor k + n\<rparr>)"
proof (induction n)
  case 0
  then show ?case by (simp add: on_display_def)
next
  case (Suc n)
  then show ?case by (simp add: cursor_right_def on_display_def)
qed

lemma cursor_left_all:
  "n \<le> edit_cursor k \<Longrightarrow>
   (cursor_left ^^ n) k = on_display (vga_move_cursor_left ^^ n) (k\<lparr>edit_cursor := edit_cursor k - n\<rparr>)"
proof (induction n)
  case 0
  then show ?case by (simp add: on_display_def)
next
  case (Suc n)
  then show ?case by (simp add: cursor_left_def on_display_def)
qed

text \<open>Whatever is typed, the serial line only grows.\<close>

definition keyboard_sends :: "(keyboard \<Rightarrow> keyboard) \<Rightarrow> bool" where
  "keyboard_sends f \<longleftrightarrow>
     (\<forall>k. length (serial_text (display k)) \<le> length (serial_text (display (f k))))"

lemma keyboard_sendsD:
  "keyboard_sends f \<Longrightarrow> display k' = display k \<Longrightarrow>
   length (serial_text (display k)) \<le> length (serial_text (display (f k')))"
  by (metis keyboard_sends_def)

lemma keyboard_sends_power: "keyboard_sends f \<Longrightarrow> keyboard_sends (f ^^ n)"
proof (induction n)
  case (Suc n)
  then show ?case unfolding keyboard_sends_def using le_trans by fastforce
qed (simp add: keyboard_sends_def)

lemma serial_text_powers [simp]:
  "serial_text ((vga_move_cursor_left ^^ n) c) = serial_text c"
  "serial_text ((vga_move_cursor_right ^^ n) c) = serial_text c"
  "serial_text ((vga_backspace ^^ n) c) = serial_text c"
  by (induction n) simp_all

lemma redraw_sends: "keyboard_sends redraw_line"
  by (simp add: keyboard_sends_def redraw_line_def Let_def serial_text_print_chars)

lemma replace_sends: "keyboard_sends (replace_line line)"
  unfolding keyboard_sends_def replace_line_def
  by (intro allI keyboard_sendsD [OF redraw_sends]) simp

lemma reset_display [simp]: "display (reset_history_navigation k) = display k"
  by (simp add: reset_history_navigation_def)

lemma edit_sends:
  "keyboard_sends (insert_character c)" "keyboard_sends delete_character"
  "keyboard_sends cursor_left" "keyboard_sends cursor_right"
  unfolding keyboard_sends_def insert_character_def delete_character_def cursor_left_def cursor_right_def
  by (auto intro: keyboard_sendsD [OF redraw_sends])

lemma history_sends: "keyboard_sends history_up" "keyboard_sends history_down"
  unfolding keyboard_sends_def history_up_def history_down_def Let_def
  by (auto intro: keyboard_sendsD [OF replace_sends])

lemma backspace_sends: "keyboard_sends backspace_character"
proof -
  have "keyboard_sends (\<lambda>k. delete_character (on_display vga_move_cursor_left (k\<lparr>edit_cursor := edit_cursor k - 1\<rparr>)))"
    unfolding keyboard_sends_def
  proof
    fix k
    show "length (serial_text (display k)) \<le>
        length (serial_text (display (delete_character (on_display vga_move_cursor_left (k\<lparr>edit_cursor := edit_cursor k - 1\<rparr>)))))"
      using edit_sends(2) [unfolded keyboard_sends_def, rule_format,
          of "on_display vga_move_cursor_left (k\<lparr>edit_cursor := edit_cursor k - 1\<rparr>)"] by simp
  qed
  then show ?thesis by (simp add: keyboard_sends_def backspace_character_def)
qed

lemma remember_display [simp]: "display (remember_command k) = display k"
  by (simp add: remember_command_def Let_def)

lemma key_sends: "keyboard_sends (extended_key n)" "keyboard_sends (plain_key n)"
proof -
  have left: "length (serial_text (display k)) \<le> length (serial_text (display ((cursor_left ^^ m) k)))"
    and right: "length (serial_text (display k)) \<le> length (serial_text (display ((cursor_right ^^ m) k)))" for m k
    using keyboard_sends_power [OF edit_sends(3)] keyboard_sends_power [OF edit_sends(4)]
    by (simp_all add: keyboard_sends_def)
  note steps = edit_sends history_sends backspace_sends
  show "keyboard_sends (extended_key n)"
    using steps left right by (simp add: extended_key_def keyboard_sends_def)
  show "keyboard_sends (plain_key n)"
    using steps right by (simp add: plain_key_def keyboard_sends_def Let_def le_SucI)
qed

lemma handler_sends: "keyboard_sends (keyboard_handler scancode)"
  using key_sends by (simp add: keyboard_sends_def keyboard_handler_def Let_def serial_text_outb)

text \<open>The abstract editor: the text before the cursor and the text after it.\<close>

definition zipper :: "keyboard \<Rightarrow> string \<times> string" where
  "zipper k = (take (edit_cursor k) (kbd_line k), drop (edit_cursor k) (kbd_line k))"

definition line_ok :: "keyboard \<Rightarrow> bool" where
  "line_ok k \<longleftrightarrow> edit_cursor k \<le> length (kbd_line k) \<and> length (kbd_line k) \<le> 127"

lemma zipper_iff:
  "line_ok k \<Longrightarrow> zipper k = (l, r) \<longleftrightarrow> kbd_line k = l @ r \<and> edit_cursor k = length l"
  by (auto simp: zipper_def line_ok_def)

lemma zipper_insert:
  assumes "line_ok k" and "zipper k = (l, r)" and "length (l @ r) < 127"
  shows "zipper (insert_character c k) = (l @ [c], r)" and "line_ok (insert_character c k)"
proof -
  have k: "kbd_line k = l @ r" "edit_cursor k = length l"
    using assms by (simp_all add: zipper_iff)
  then show "zipper (insert_character c k) = (l @ [c], r)" and "line_ok (insert_character c k)"
    using assms(3) by (simp_all add: insert_character_def zipper_def line_ok_def reset_history_navigation_def)
qed

lemma zipper_delete:
  assumes "line_ok k" and "zipper k = (l, r)"
  shows "zipper (delete_character k) = (l, tl r)" and "line_ok (delete_character k)"
proof -
  have k: "kbd_line k = l @ r" "edit_cursor k = length l"
    using assms by (simp_all add: zipper_iff)
  then show "zipper (delete_character k) = (l, tl r)" and "line_ok (delete_character k)"
    using assms(1)
    by (cases r; simp add: delete_character_def zipper_def line_ok_def reset_history_navigation_def)+
qed

lemma zipper_backspace:
  assumes "line_ok k" and "zipper k = (l, r)"
  shows "zipper (backspace_character k) = (butlast l, r)" and "line_ok (backspace_character k)"
proof -
  have k: "kbd_line k = l @ r" "edit_cursor k = length l"
    using assms by (simp_all add: zipper_iff)
  have "zipper (backspace_character k) = (butlast l, r) \<and> line_ok (backspace_character k)"
  proof (cases l rule: rev_cases)
    case Nil
    then show ?thesis using assms k by (simp add: backspace_character_def)
  next
    case (snoc l' c)
    let ?k = "on_display vga_move_cursor_left (k\<lparr>edit_cursor := edit_cursor k - 1\<rparr>)"
    have "zipper ?k = (l', c # r)" "line_ok ?k"
      using assms(1) k snoc by (simp_all add: zipper_def line_ok_def)
    from zipper_delete [OF this(2,1)] show ?thesis
      using k snoc by (simp add: backspace_character_def)
  qed
  then show "zipper (backspace_character k) = (butlast l, r)" and "line_ok (backspace_character k)"
    by simp_all
qed

lemma zipper_moves:
  assumes "line_ok k" and "zipper k = (l, r)"
  shows "zipper (cursor_left k) = (butlast l, (if l = [] then r else last l # r))"
    and "zipper (cursor_right k) = (if r = [] then (l, r) else (l @ [hd r], tl r))"
    and "line_ok (cursor_left k)" and "line_ok (cursor_right k)"
proof -
  have k: "kbd_line k = l @ r" "edit_cursor k = length l"
    using assms by (simp_all add: zipper_iff)
  show "zipper (cursor_left k) = (butlast l, (if l = [] then r else last l # r))"
    using k by (cases l rule: rev_cases) (simp_all add: cursor_left_def zipper_def)
  show "zipper (cursor_right k) = (if r = [] then (l, r) else (l @ [hd r], tl r))"
    using k by (cases r) (simp_all add: cursor_right_def zipper_def)
  show "line_ok (cursor_left k)" "line_ok (cursor_right k)"
    using assms(1) by (auto simp: cursor_left_def cursor_right_def line_ok_def)
qed

section \<open>The command history\<close>

text \<open>The remembered commands, oldest first.\<close>

definition remembered :: "keyboard \<Rightarrow> string list" where
  "remembered k = map (\<lambda>i. command_history k ! nat (history_slot k (int i))) [0..<nat (history_count k)]"

lemma nth_remembered:
  "i < nat (history_count k) \<Longrightarrow> remembered k ! i = command_history k ! nat (history_slot k (int i))"
  and length_remembered: "length (remembered k) = nat (history_count k)"
  by (simp_all add: remembered_def)

definition history_ok :: "keyboard \<Rightarrow> bool" where
  "history_ok k \<longleftrightarrow>
     length (command_history k) = 8 \<and> 0 \<le> history_count k \<and> history_count k \<le> 8 \<and>
     0 \<le> history_next k \<and> history_next k < 8 \<and>
     -1 \<le> history_cursor k \<and> history_cursor k < history_count k"

text \<open>Remembering a given line, as pressing Enter on it does.\<close>

definition remember_line :: "string \<Rightarrow> keyboard \<Rightarrow> keyboard" where
  "remember_line line k = remember_command (k\<lparr>kbd_line := line\<rparr>)"

definition short_command :: "string \<Rightarrow> bool" where
  "short_command line \<longleftrightarrow> line \<noteq> [] \<and> length line \<le> 127"

lemma remember_line_fields:
  assumes "short_command line"
  shows "history_next (remember_line line k) = (history_next k + 1) mod 8"
    and "history_count (remember_line line k) = (if history_count k < 8 then history_count k + 1 else history_count k)"
    and "command_history (remember_line line k) = (command_history k)[nat (history_next k) := line]"
    and "history_cursor (remember_line line k) = history_cursor k"
  using assms by (auto simp: remember_line_def remember_command_def short_command_def Let_def copy_line_def)

lemma mod_8_cases: "0 \<le> (x :: int) \<Longrightarrow> x < 16 \<Longrightarrow> x mod 8 = (if x < 8 then x else x - 8)"
  using mod_pos_pos_trivial [of x 8] mod_pos_pos_trivial [of "x - 8" 8] minus_mod_self2 [of x 8] by auto

lemma slot_mod: "(x mod 8 - c + i + 8) mod 8 = (x - c + i + 8) mod (8 :: int)"
proof -
  have "x mod 8 - c + i + 8 = x mod 8 + (i + 8 - c)" "x - c + i + 8 = x + (i + 8 - c)" by simp_all
  then show ?thesis by (simp only: mod_add_left_eq)
qed

lemma history_slot_value:
  "0 \<le> history_next k - history_count k + i + 8 \<Longrightarrow> history_next k - history_count k + i + 8 < 16 \<Longrightarrow>
   history_slot k i = (if history_next k - history_count k + i < 0
     then history_next k - history_count k + i + 8 else history_next k - history_count k + i)"
  unfolding history_slot_def by (subst mod_8_cases) auto

lemma remembered_push:
  assumes "history_ok k" and "short_command line"
  shows "remembered (remember_line line k) = last_n 8 (remembered k @ [line])"
proof -
  let ?n = "nat (history_count k)" and ?k = "remember_line line k"
  have k: "length (command_history k) = 8" "0 \<le> history_count k" "history_count k \<le> 8"
    "0 \<le> history_next k" "history_next k < 8"
    using assms(1) by (simp_all add: history_ok_def)
  note f = remember_line_fields [OF assms(2), of k]
  show ?thesis
  proof (cases "history_count k < 8")
    case True
    then have n: "nat (history_count ?k) = Suc ?n" using k by (simp add: f)
    have "remembered ?k ! i = (remembered k @ [line]) ! i" if "i < Suc ?n" for i
    proof -
      have slot: "history_slot ?k (int i) = history_slot k (int i)"
        unfolding history_slot_def f slot_mod using True by simp
      have "i < ?n \<Longrightarrow> nat (history_slot k (int i)) \<noteq> nat (history_next k)"
        using True k by (auto simp: history_slot_value split: if_splits)
      moreover have "i = ?n \<Longrightarrow> history_slot k (int i) = history_next k"
        using True k by (simp add: history_slot_value)
      moreover have "i < ?n \<or> i = ?n" using that by auto
      moreover have "remembered ?k ! i = (command_history k)[nat (history_next k) := line]
          ! nat (history_slot k (int i))"
        using that n slot by (simp add: nth_remembered f(3))
      ultimately show ?thesis
        using k by (elim disjE) (simp_all add: nth_remembered length_remembered nth_append)
    qed
    then have "remembered ?k = remembered k @ [line]"
      using n by (intro nth_equalityI) (simp_all add: length_remembered)
    then show ?thesis using True k by (simp add: last_n_short remembered_def)
  next
    case False
    then have c: "history_count k = 8" using k by simp
    have "remembered ?k ! i = (drop 1 (remembered k) @ [line]) ! i" if "i < 8" for i
    proof -
      have slot: "history_slot ?k (int i) = history_slot k (int i + 1)"
        unfolding history_slot_def f slot_mod using c by (simp add: algebra_simps)
      have "i < 7 \<Longrightarrow> nat (history_slot k (int i + 1)) \<noteq> nat (history_next k)"
        using c k by (auto simp: history_slot_value split: if_splits)
      moreover have "i = 7 \<Longrightarrow> history_slot k (int i + 1) = history_next k"
        using c k by (simp add: history_slot_value)
      moreover have "i < 7 \<or> i = 7" using that by auto
      moreover have "remembered ?k ! i = (command_history k)[nat (history_next k) := line]
          ! nat (history_slot k (int i + 1))"
        using that c slot by (simp add: nth_remembered f(2,3))
      ultimately show ?thesis
        using k c by (elim disjE) (simp_all add: nth_remembered length_remembered nth_append add.commute)
    qed
    then have "remembered ?k = drop 1 (remembered k) @ [line]"
      using c by (intro nth_equalityI) (simp_all add: length_remembered f)
    then show ?thesis using c by (simp add: last_n_def remembered_def)
  qed
qed

interpretation history_log: bounded_log remember_line remembered 8 history_ok short_command
proof
  show "history_ok (remember_line line k)" if "history_ok k" "short_command line" for k line
    using that by (auto simp: history_ok_def remember_line_fields)
qed (rule remembered_push)

section \<open>Every scan code keeps the editor well formed\<close>

definition keyboard_ok :: "keyboard \<Rightarrow> bool" where
  "keyboard_ok k \<longleftrightarrow> line_ok k \<and> history_ok k"

lemma keyboard_ok_edits:
  assumes "keyboard_ok k"
  shows "keyboard_ok (insert_character c k)" "keyboard_ok (delete_character k)"
    "keyboard_ok (backspace_character k)"
  using assms
  by (auto simp: keyboard_ok_def line_ok_def history_ok_def insert_character_def delete_character_def
      backspace_character_def reset_history_navigation_def)

lemma keyboard_ok_move: "keyboard_ok k \<Longrightarrow> keyboard_ok (cursor_left k)" "keyboard_ok k \<Longrightarrow> keyboard_ok (cursor_right k)"
  by (auto simp: keyboard_ok_def line_ok_def history_ok_def cursor_left_def cursor_right_def)

lemma keyboard_ok_moves:
  assumes "keyboard_ok k"
  shows "keyboard_ok ((cursor_left ^^ n) k)" "keyboard_ok ((cursor_right ^^ n) k)"
  using assms by (induction n) (simp_all add: keyboard_ok_move)

lemma keyboard_ok_history:
  assumes "keyboard_ok k"
  shows "keyboard_ok (history_up k)" "keyboard_ok (history_down k)"
  using assms
  by (auto simp: keyboard_ok_def line_ok_def history_ok_def history_up_def history_down_def replace_line_def
      copy_line_def Let_def)

lemma keyboard_ok_remember: "keyboard_ok k \<Longrightarrow> keyboard_ok (remember_command k)"
  by (auto simp: keyboard_ok_def line_ok_def history_ok_def remember_command_def Let_def)

lemma keyboard_ok_flags [simp]:
  "keyboard_ok (k\<lparr>extended_scancode := b\<rparr>) = keyboard_ok k"
  "keyboard_ok (k\<lparr>shift_pressed := b\<rparr>) = keyboard_ok k"
  "keyboard_ok (k\<lparr>command_ready := b\<rparr>) = keyboard_ok k"
  "keyboard_ok (k\<lparr>rendered_length := n\<rparr>) = keyboard_ok k"
  "keyboard_ok (on_display f k) = keyboard_ok k"
  by (simp_all add: keyboard_ok_def line_ok_def history_ok_def)

lemma keyboard_ok_keys:
  assumes "keyboard_ok k"
  shows "keyboard_ok (extended_key n k)" "keyboard_ok (plain_key n k)"
  using assms
  by (simp_all add: extended_key_def plain_key_def Let_def keyboard_ok_edits keyboard_ok_move
      keyboard_ok_moves keyboard_ok_history keyboard_ok_remember)

lemma keyboard_handler_ok: "keyboard_ok k \<Longrightarrow> keyboard_ok (keyboard_handler scancode k)"
  by (simp add: keyboard_handler_def Let_def keyboard_ok_keys)

lemma keyboard_begin_line_ok: "keyboard_ok k \<Longrightarrow> keyboard_ok (keyboard_begin_line k)"
  by (auto simp: keyboard_begin_line_def keyboard_ok_def line_ok_def history_ok_def)

text \<open>The display: every editing step draws inside the window.\<close>

lemma stepping_funpow:
  assumes "\<And>c. console_step c (f c)"
  shows "console_step c ((f ^^ n) c)"
proof (induction n)
  case (Suc n)
  then show ?case using stepping.evo_trans [OF Suc assms] by simp
qed (simp add: stepping.evo_refl)

lemma outb_step [intro]: "console_step c (outb port val c)"
  by (simp add: console_step_def console_post_def cursor_ok_def paints_def outb_def)

lemma redraw_line_step: "console_step (display k) (display (redraw_line k))"
proof -
  note right = stepping_funpow [of vga_move_cursor_right, OF move_cursor_step(2)]
    and rub = stepping_funpow [of vga_backspace, OF backspace_step]
    and left = stepping_funpow [of vga_move_cursor_left, OF move_cursor_step(1)]
  show ?thesis
    unfolding redraw_line_def Let_def on_display_fields
    by (simp, rule stepping.evo_trans [OF stepping.evo_trans [OF stepping.evo_trans [OF right rub]
          print_chars_step] left])
qed

lemma step_via: "console_step c (display k) \<Longrightarrow> console_step c (display (redraw_line k))"
  by (rule stepping.evo_trans [OF _ redraw_line_step])

lemma edit_steps:
  "console_step (display k) (display (insert_character c k))"
  "console_step (display k) (display (delete_character k))"
  "console_step (display k) (display (cursor_left k))"
  "console_step (display k) (display (cursor_right k))"
  "console_step (display k) (display (history_up k))"
  "console_step (display k) (display (history_down k))"
  by (simp_all add: insert_character_def delete_character_def cursor_left_def cursor_right_def history_up_def
      history_down_def replace_line_def reset_history_navigation_def Let_def step_via stepping.evo_refl
      move_cursor_step)

lemma backspace_char_step: "console_step (display k) (display (backspace_character k))"
proof -
  let ?k = "on_display vga_move_cursor_left (k\<lparr>edit_cursor := edit_cursor k - 1\<rparr>)"
  have "console_step (display k) (display ?k)" by (simp add: move_cursor_step)
  then have "console_step (display k) (display (delete_character ?k))"
    by (rule stepping.evo_trans) (rule edit_steps)
  then show ?thesis by (simp add: backspace_character_def stepping.evo_refl)
qed

lemma moves_steps:
  "console_step (display k) (display ((cursor_left ^^ n) k))"
  "console_step (display k) (display ((cursor_right ^^ n) k))"
proof (induction n)
  case (Suc n)
  show "console_step (display k) (display ((cursor_left ^^ Suc n) k))"
    using stepping.evo_trans [OF Suc.IH(1) edit_steps(3)] by simp
  show "console_step (display k) (display ((cursor_right ^^ Suc n) k))"
    using stepping.evo_trans [OF Suc.IH(2) edit_steps(4)] by simp
qed (simp_all add: stepping.evo_refl)

lemma display_remember [simp]: "display (remember_command k) = display k"
  by (simp add: remember_command_def Let_def)

lemma keyboard_handler_step: "console_step (display k) (display (keyboard_handler scancode k))"
proof -
  have ext: "console_step (display k) (display (extended_key n k))" for n
    by (simp add: extended_key_def edit_steps moves_steps stepping.evo_refl)
  have enter: "console_step (display k) (print_char c (display ((cursor_right ^^ n) k)))" for c n
    by (rule stepping.evo_trans [OF moves_steps(2) print_char_step])
  have plain: "console_step (display k) (display (plain_key n k))" for n
    by (simp add: plain_key_def Let_def enter edit_steps backspace_char_step stepping.evo_refl)
  have out: "console_step (display k) (display k') \<Longrightarrow>
      console_step (display k) (display (on_display (outb p v) k'))" for k' p v
    using stepping.evo_trans [OF _ outb_step] by simp
  show ?thesis
    unfolding keyboard_handler_def Let_def by (rule out) (simp add: ext plain stepping.evo_refl)
qed

lemma handler_grows: "console_grows (display k) (display (keyboard_handler scancode k))"
  using handler_sends [unfolded keyboard_sends_def, rule_format, of k scancode] keyboard_handler_step [of k scancode]
  by (simp add: console_grows_def console_step_def console_post_def)

section \<open>Properties\<close>

definition zero_keyboard :: keyboard where
  "zero_keyboard = \<lparr>kbd_line = [], command_ready = False, command_history = replicate 8 [], saved_line = [],
     history_count = 0, history_next = 0, history_cursor = -1, edit_cursor = 0, rendered_length = 0,
     extended_scancode = False, shift_pressed = False, display = zero_console\<rparr>"

lemma zero_keyboard_ok:
  "line_ok zero_keyboard" "history_ok zero_keyboard" "remembered zero_keyboard = []"
  "cursor_ok (display zero_keyboard)"
  by (simp_all add: zero_keyboard_def line_ok_def history_ok_def remembered_def cursor_ok_zero_console)



text \<open>C23: The command history is the list of the last eight commands entered, oldest first, whatever
  was entered before: the array of eight lines used as a ring drops exactly the oldest.\<close>

theorem history_is_last_8:
  assumes "history_ok k" and "list_all short_command ls"
  shows "remembered (fold remember_line ls k) = last_n 8 (remembered k @ ls)"
proof (rule history_log.contents_pushes [OF assms(1) _ assms(2)])
  show "length (remembered k) \<le> 8"
    using assms(1) by (simp add: length_remembered history_ok_def nat_le_iff)
qed

theorem history_is_last_8_witness:
  "remembered (fold remember_line [''a'', ''b'', ''c'', ''d'', ''e'', ''f'', ''g'', ''h'', ''i''] zero_keyboard) =
     [''b'', ''c'', ''d'', ''e'', ''f'', ''g'', ''h'', ''i'']"
  using history_is_last_8 [OF zero_keyboard_ok(2), of "[''a'', ''b'', ''c'', ''d'', ''e'', ''f'', ''g'', ''h'', ''i'']"]
  by (simp add: zero_keyboard_ok short_command_def last_n_def)

text \<open>C24: Whatever scancodes arrive, the edit cursor stays within the line, the line within its
  128-byte buffer, the history's indices within its array; and the cursor on the screen stays
  inside the pane.\<close>

theorem keyboard_invariant:
  assumes "keyboard_ok k" and "cursor_ok (display k)"
  shows "keyboard_ok (fold keyboard_handler codes k) \<and> cursor_ok (display (fold keyboard_handler codes k))"
  using assms
proof (induction codes arbitrary: k)
  case (Cons c codes)
  then show ?case
    using keyboard_handler_step [of k c]
    by (simp add: keyboard_handler_ok console_step_def console_post_def)
qed simp

theorem keyboard_invariant_witness:
  "keyboard_ok (fold keyboard_handler [0x1E, 0xE0, 0x4B, 0x0E, 0x1C] zero_keyboard)"
  using keyboard_invariant [of zero_keyboard "[0x1E, 0xE0, 0x4B, 0x0E, 0x1C]"] zero_keyboard_ok
  by (simp add: keyboard_ok_def)

end
