(* ===== verification/Registry.thy ===== *)
theory Registry
  imports C_Text
begin

text \<open>
  The object registry of \<^verbatim>\<open>kernel/object.c\<close>: the table of kernel objects, lookup by
  name or by decimal id, registration, and the state change that carries an event. The
  operations that also record an event or print are in \<open>Journal\<close>.
\<close>

section \<open>State\<close>

text \<open>\<^verbatim>\<open>struct kernel_object\<close>.\<close>

record kernel_object =
  obj_id :: u32
  obj_parent_id :: u32
  obj_revision :: u64
  obj_created_event :: u64
  obj_last_event :: u64
  obj_type :: string
  obj_name :: string
  obj_state :: string

text \<open>The table \<^verbatim>\<open>objects[0..object_count)\<close> and \<^verbatim>\<open>next_id\<close>; the slots from
  \<^verbatim>\<open>object_count\<close> on are never read.\<close>

record registry =
  objects :: "kernel_object list"
  next_id :: u32

abbreviation (input) OBJECT_CAPACITY :: nat where "OBJECT_CAPACITY \<equiv> 128"

section \<open>Operations\<close>

text \<open>A pointer to an object is its index in the table.\<close>

definition object_find :: "registry \<Rightarrow> string \<Rightarrow> nat option" where
  "object_find r query =
     (let id = parse_id query
      in find_index (\<lambda>object. (id \<noteq> 0 \<and> obj_id object = id) \<or> text_equal (obj_name object) query)
           (objects r))"

definition object_id :: "registry \<Rightarrow> string \<Rightarrow> u32" where
  "object_id r query =
     (case object_find r query of None \<Rightarrow> 0 | Some i \<Rightarrow> obj_id (objects r ! i))"

definition object_revision :: "registry \<Rightarrow> string \<Rightarrow> u64" where
  "object_revision r query =
     (case object_find r query of None \<Rightarrow> 0 | Some i \<Rightarrow> obj_revision (objects r ! i))"

definition object_register ::
  "string \<Rightarrow> string \<Rightarrow> u32 \<Rightarrow> string \<Rightarrow> u64 \<Rightarrow> registry \<Rightarrow> u32 \<times> registry" where
  "object_register type name parent_id state created_event r =
     (if length (objects r) \<ge> OBJECT_CAPACITY then (0, r)
      else case object_find r name of
        Some i \<Rightarrow> (obj_id (objects r ! i), r)
      | None \<Rightarrow>
          (let object = \<lparr>obj_id = next_id r, obj_parent_id = parent_id, obj_revision = 1,
                 obj_created_event = created_event, obj_last_event = created_event,
                 obj_type = copy_text 32 (Some type), obj_name = copy_text 48 (Some name),
                 obj_state = copy_text 48 (Some state)\<rparr>
           in (obj_id object,
               r\<lparr>objects := objects r @ [object], next_id := next_id r + 1\<rparr>)))"

text \<open>The assignments of a state change, shared by both setters: text, revision, last event.\<close>

definition set_object_state :: "nat \<Rightarrow> string \<Rightarrow> u64 \<Rightarrow> registry \<Rightarrow> registry" where
  "set_object_state i state event r =
     (let object = objects r ! i
      in r\<lparr>objects := (objects r)[i := object\<lparr>obj_state := copy_text 48 (Some state),
             obj_revision := obj_revision object + 1, obj_last_event := event\<rparr>]\<rparr>)"

definition object_set_state_direct :: "string \<Rightarrow> string \<Rightarrow> u64 \<Rightarrow> registry \<Rightarrow> registry" where
  "object_set_state_direct name state event r =
     (case object_find r name of None \<Rightarrow> r | Some i \<Rightarrow> set_object_state i state event r)"

definition object_registry_init :: "u64 \<Rightarrow> registry \<Rightarrow> registry" where
  "object_registry_init boot_event r =
     (let r = r\<lparr>objects := [], next_id := 1\<rparr>;
          (system, r) = object_register ''system'' ''system'' 0 ''booting'' boot_event r;
          r = snd (object_register ''boot'' ''boot'' system ''entered kernel'' boot_event r);
          r = snd (object_register ''subsystem'' ''memory'' system ''initializing'' boot_event r);
          r = snd (object_register ''subsystem'' ''interrupts'' system ''pending'' boot_event r);
          r = snd (object_register ''subsystem'' ''ramfs'' system ''pending'' boot_event r);
          r = snd (object_register ''subsystem'' ''shell'' system ''pending'' boot_event r)
      in snd (object_register ''ledger'' ''events'' system ''recording'' boot_event r))"

section \<open>Well-formed registries\<close>

text \<open>The \<open>i\<close>-th object has id \<open>i + 1\<close>, a parent registered before it (or none), and texts
  that fit their fields.\<close>

definition object_ok :: "nat \<Rightarrow> kernel_object \<Rightarrow> bool" where
  "object_ok i object \<longleftrightarrow>
     obj_id object = word_of_nat (Suc i) \<and> unat (obj_parent_id object) \<le> i \<and>
     length (obj_type object) < 32 \<and> length (obj_name object) < 48 \<and> length (obj_state object) < 48"

definition registry_ok :: "registry \<Rightarrow> bool" where
  "registry_ok r \<longleftrightarrow>
     length (objects r) \<le> OBJECT_CAPACITY \<and>
     next_id r = word_of_nat (Suc (length (objects r))) \<and>
     (\<forall>i < length (objects r). object_ok i (objects r ! i)) \<and>
     distinct (map obj_name (objects r))"

text \<open>A name that fits its field and is not itself a decimal id.\<close>

definition proper_name :: "string \<Rightarrow> bool" where
  "proper_name name \<longleftrightarrow> length name < 48 \<and> parse_id name = 0"

lemma object_find_SomeD:
  assumes "object_find r query = Some i"
  shows "i < length (objects r)"
    and "(parse_id query \<noteq> 0 \<and> obj_id (objects r ! i) = parse_id query) \<or> obj_name (objects r ! i) = query"
  using find_index_SomeD [OF assms [unfolded object_find_def Let_def]] by auto

lemma object_find_None:
  "object_find r query = None \<longleftrightarrow>
     (\<forall>object \<in> set (objects r). obj_name object \<noteq> query \<and>
        (parse_id query \<noteq> 0 \<longrightarrow> obj_id object \<noteq> parse_id query))"
  by (auto simp: object_find_def Let_def find_index_None)

text \<open>A proper name finds the one object that bears it.\<close>

lemma object_find_name:
  assumes "registry_ok r" and "i < length (objects r)" and "obj_name (objects r ! i) = name"
    and "parse_id name = 0"
  shows "object_find r name = Some i"
  unfolding object_find_def Let_def
proof (rule find_index_SomeI)
  fix j
  assume "j < i"
  then have "obj_name (objects r ! j) \<noteq> obj_name (objects r ! i)"
    using assms(1,2) nth_eq_iff_index_eq [of "map obj_name (objects r)" j i] \<open>j < i\<close>
    by (simp add: registry_ok_def)
  then show "\<not> (parse_id name \<noteq> 0 \<and> obj_id (objects r ! j) = parse_id name \<or>
      text_equal (obj_name (objects r ! j)) name)"
    using assms(3,4) by simp
qed (use assms in auto)

lemma word_of_nat_id_inject:
  assumes "i \<le> 128" and "j \<le> 128"
  shows "(word_of_nat i :: u32) = word_of_nat j \<longleftrightarrow> i = j"
  using assms by (simp add: word_of_nat_eq_iff take_bit_eq_mod)

lemma registry_ok_nth_id:
  assumes "registry_ok r" and "i < length (objects r)"
  shows "obj_id (objects r ! i) = word_of_nat (Suc i)" and "obj_id (objects r ! i) \<noteq> 0"
proof -
  show id: "obj_id (objects r ! i) = word_of_nat (Suc i)"
    using assms by (simp add: registry_ok_def object_ok_def)
  have "Suc i \<le> 128" using assms by (auto simp: registry_ok_def)
  then show "obj_id (objects r ! i) \<noteq> 0"
    unfolding id using word_of_nat_id_inject [of "Suc i" 0] by simp
qed

lemma object_id_found:
  assumes "registry_ok r" and "object_find r query = Some i"
  shows "object_id r query \<noteq> 0"
  using assms registry_ok_nth_id(2) object_find_SomeD(1) by (simp add: object_id_def)

lemma object_id_bound:
  assumes "registry_ok r"
  shows "unat (object_id r query) \<le> length (objects r)"
proof (cases "object_find r query")
  case None
  then show ?thesis by (simp add: object_id_def)
next
  case (Some i)
  then have "i < length (objects r)" by (rule object_find_SomeD)
  moreover from this have "unat (word_of_nat (Suc i) :: u32) = Suc i"
    using assms by (intro unat_word_of_nat_small) (auto simp: registry_ok_def)
  ultimately show ?thesis
    using registry_ok_nth_id(1) [OF assms, of i] Some by (simp add: object_id_def del: of_nat_Suc)
qed

section \<open>What registration does\<close>

text \<open>Only one branch changes the table: there is room and the name is not taken.\<close>

lemma object_register_full:
  "length (objects r) \<ge> OBJECT_CAPACITY \<Longrightarrow> object_register ty name p st ev r = (0, r)"
  by (simp add: object_register_def)

lemma object_register_taken:
  "length (objects r) < OBJECT_CAPACITY \<Longrightarrow> object_find r name = Some i \<Longrightarrow>
   object_register ty name p st ev r = (obj_id (objects r ! i), r)"
  by (simp add: object_register_def)

lemma object_register_new:
  assumes "length (objects r) < OBJECT_CAPACITY" and "object_find r name = None"
  shows "fst (object_register ty name p st ev r) = next_id r"
    and "next_id (snd (object_register ty name p st ev r)) = next_id r + 1"
    and "objects (snd (object_register ty name p st ev r)) =
      objects r @ [\<lparr>obj_id = next_id r, obj_parent_id = p, obj_revision = 1,
        obj_created_event = ev, obj_last_event = ev, obj_type = take 31 ty,
        obj_name = take 47 name, obj_state = take 47 st\<rparr>]"
  using assms by (simp_all add: object_register_def Let_def)

lemma object_register_cases:
  obtains (full) "length (objects r) \<ge> OBJECT_CAPACITY"
  | (taken) i where "length (objects r) < OBJECT_CAPACITY" "object_find r name = Some i"
  | (new) "length (objects r) < OBJECT_CAPACITY" "object_find r name = None"
  by (cases "length (objects r) < OBJECT_CAPACITY"; cases "object_find r name") auto

text \<open>The table only grows: no registration touches an object that is already there.\<close>

lemma object_register_extends:
  "\<exists>new. objects (snd (object_register ty name p st ev r)) = objects r @ new"
  by (rule object_register_cases [where r = r and name = name])
    (simp_all add: object_register_full object_register_taken object_register_new)

lemma object_find_extends:
  assumes "objects r' = objects r @ new" and "object_find r query = Some i"
  shows "object_find r' query = Some i"
  using assms by (simp add: object_find_def find_index_append Let_def)

lemma object_register_keeps_found:
  "object_find r query = Some i \<Longrightarrow>
   object_find (snd (object_register ty name p st ev r)) query = Some i"
  using object_register_extends object_find_extends by blast

lemma object_register_ok:
  assumes ok: "registry_ok r" and "length name < 48" and "unat p \<le> length (objects r)"
  shows "registry_ok (snd (object_register ty name p st ev r))"
proof (rule object_register_cases [where r = r and name = name])
  assume "length (objects r) \<ge> 128"
  then show ?thesis using ok by (simp add: object_register_full)
next
  fix i
  assume "length (objects r) < 128" "object_find r name = Some i"
  then show ?thesis using ok by (simp add: object_register_taken)
next
  assume new: "length (objects r) < 128" "object_find r name = None"
  have "name \<notin> set (map obj_name (objects r))"
    using new(2) by (auto simp: object_find_None)
  then show ?thesis
    using ok assms(2,3) new
    by (auto simp: registry_ok_def object_ok_def object_register_new nth_append less_Suc_eq
        add.commute)
qed

lemma object_register_finds:
  fixes ty st :: string and p :: u32 and ev :: u64
  assumes "registry_ok r" and "proper_name name" and "length (objects r) < OBJECT_CAPACITY"
  defines "r' \<equiv> snd (object_register ty name p st ev r)"
  shows "\<exists>i. object_find r' name = Some i \<and> obj_name (objects r' ! i) = name \<and>
    fst (object_register ty name p st ev r) = obj_id (objects r' ! i)"
proof (cases "object_find r name")
  case (Some i)
  then show ?thesis
    using assms object_find_SomeD(2) [OF Some]
    by (auto simp: object_register_taken proper_name_def)
next
  case None
  let ?new = "\<lparr>obj_id = next_id r, obj_parent_id = p, obj_revision = 1, obj_created_event = ev,
    obj_last_event = ev, obj_type = take 31 ty, obj_name = take 47 name, obj_state = take 47 st\<rparr>"
  have r': "objects r' = objects r @ [?new]"
    using None assms(3) by (simp add: r'_def object_register_new)
  have "object_find r' name = Some (length (objects r))"
    using None assms(2) unfolding object_find_def r' Let_def find_index_append
    by (simp add: proper_name_def)
  then show ?thesis
    using None assms(2,3) r' by (auto simp: object_register_new proper_name_def r'_def)
qed

section \<open>What a state change does\<close>

lemma set_object_state_objects:
  "objects (set_object_state i st ev r) =
     (objects r)[i := (objects r ! i)\<lparr>obj_state := take 47 st,
        obj_revision := obj_revision (objects r ! i) + 1, obj_last_event := ev\<rparr>]"
  "next_id (set_object_state i st ev r) = next_id r"
  by (simp_all add: set_object_state_def Let_def)

text \<open>Names and ids never change, so neither does any lookup.\<close>

lemma set_object_state_find [simp]:
  "i < length (objects r) \<Longrightarrow> object_find (set_object_state i st ev r) query = object_find r query"
  by (simp add: object_find_def set_object_state_objects find_index_update Let_def)

lemma set_object_state_id [simp]:
  "i < length (objects r) \<Longrightarrow> object_id (set_object_state i st ev r) query = object_id r query"
  by (auto simp: object_id_def set_object_state_objects nth_list_update split: option.split)

lemma set_object_state_ok: "registry_ok r \<Longrightarrow> registry_ok (set_object_state i st ev r)"
proof (cases "i < length (objects r)")
  case True
  moreover have "map obj_name ((objects r)[i := (objects r ! i)\<lparr>obj_state := a, obj_revision := b,
      obj_last_event := c\<rparr>]) = map obj_name (objects r)" for a b c
    using \<open>i < length (objects r)\<close> by (simp add: map_update list_update_same_conv)
  moreover assume "registry_ok r"
  ultimately show ?thesis
    by (auto simp: registry_ok_def object_ok_def set_object_state_objects nth_list_update)
next
  case False
  moreover assume "registry_ok r"
  ultimately show ?thesis
    by (simp add: registry_ok_def set_object_state_objects list_update_beyond)
qed

lemma object_set_state_direct_ok:
  "registry_ok r \<Longrightarrow> registry_ok (object_set_state_direct name st ev r)"
  by (simp add: object_set_state_direct_def set_object_state_ok split: option.split)

lemma object_set_state_direct_find [simp]:
  "object_find (object_set_state_direct name st ev r) query = object_find r query"
  by (auto simp: object_set_state_direct_def dest: object_find_SomeD(1) split: option.split)

section \<open>The registry as a directory\<close>

text \<open>
  What the boot code relies on: it registers lists of names and later looks them up. A
  directory has room for a number of names; enrolling a name makes it present, never removes
  another, and takes at most one place.
\<close>

locale directory =
  fixes enrol :: "'n \<Rightarrow> 'r \<Rightarrow> 'r"
    and present :: "'r \<Rightarrow> 'n \<Rightarrow> bool"
    and room :: "'r \<Rightarrow> nat"
    and ok :: "'r \<Rightarrow> bool"
    and good :: "'r \<Rightarrow> 'n \<Rightarrow> bool"
  assumes ok_enrol: "ok r \<Longrightarrow> good r n \<Longrightarrow> ok (enrol n r)"
    and good_mono: "good r m \<Longrightarrow> good (enrol n r) m"
    and present_enrol: "ok r \<Longrightarrow> good r n \<Longrightarrow> 0 < room r \<Longrightarrow> present (enrol n r) n"
    and present_mono: "present r m \<Longrightarrow> present (enrol n r) m"
    and room_enrol: "room r \<le> Suc (room (enrol n r))"
begin

lemma present_mono_all: "present r m \<Longrightarrow> present (fold enrol ns r) m"
  by (induction ns arbitrary: r) (auto intro: present_mono)

lemma present_all:
  assumes "ok r" and "\<And>n. n \<in> set ns \<Longrightarrow> good r n" and "length ns \<le> room r" and "m \<in> set ns"
  shows "present (fold enrol ns r) m"
  using assms
proof (induction ns arbitrary: r)
  case Nil
  then show ?case by simp
next
  case (Cons n ns)
  have ok: "ok (enrol n r)" and room: "length ns \<le> room (enrol n r)"
    using Cons.prems room_enrol [of r n] by (auto intro: ok_enrol)
  show ?case
  proof (cases "m = n")
    case True
    then have "present (enrol n r) m"
      using Cons.prems by (auto intro: present_enrol)
    then show ?thesis by (simp add: present_mono_all)
  next
    case False
    then show ?thesis
      using Cons.IH [OF ok _ room] Cons.prems by (auto intro: good_mono)
  qed
qed

end

text \<open>A request for a registration: type, name, parent, state text and creating event.\<close>

type_synonym request = "string \<times> string \<times> u32 \<times> string \<times> u64"

definition enrol_request :: "request \<Rightarrow> registry \<Rightarrow> registry" where
  "enrol_request q r = (case q of (ty, name, p, st, ev) \<Rightarrow> snd (object_register ty name p st ev r))"

definition request_name :: "request \<Rightarrow> string" where
  "request_name q = fst (snd q)"

definition request_good :: "registry \<Rightarrow> request \<Rightarrow> bool" where
  "request_good r q \<longleftrightarrow> proper_name (request_name q) \<and> unat (fst (snd (snd q))) \<le> length (objects r)"

lemma enrol_request_extends: "\<exists>new. objects (enrol_request q r) = objects r @ new"
  using object_register_extends by (cases q) (simp add: enrol_request_def)

interpretation objects_directory: directory enrol_request
  "\<lambda>r q. object_find r (request_name q) \<noteq> None"
  "\<lambda>r. OBJECT_CAPACITY - length (objects r)" registry_ok request_good
proof
  fix r :: registry and n m :: request
  obtain ty name p st ev where n: "n = (ty, name, p, st, ev)" by (cases n)
  show "registry_ok (enrol_request n r)" if "registry_ok r" "request_good r n"
    using that by (simp add: n enrol_request_def request_good_def request_name_def object_register_ok
        proper_name_def)
  show "request_good (enrol_request n r) m" if "request_good r m"
    using that enrol_request_extends [of n r] by (auto simp: request_good_def)
  show "object_find (enrol_request n r) (request_name n) \<noteq> None"
    if "registry_ok r" "request_good r n" "0 < 128 - length (objects r)"
    using object_register_finds [of r name ty p st ev] that
    by (auto simp: n enrol_request_def request_good_def request_name_def)
  show "object_find (enrol_request n r) (request_name m) \<noteq> None"
    if "object_find r (request_name m) \<noteq> None"
    using that enrol_request_extends [of n r] object_find_extends by fastforce
  show "128 - length (objects r) \<le> Suc (128 - length (objects (enrol_request n r)))"
    by (rule object_register_cases [where r = r and name = name])
      (simp_all add: n enrol_request_def object_register_full object_register_taken object_register_new)
qed

section \<open>Properties\<close>

text \<open>C25: Registering an object in a registry with room, under a name that fits its field and is not
  a number, makes it the object that a lookup of the name finds; the id returned is that object's
  id; and every lookup that succeeded before gives the same object as before.\<close>

theorem registration_found:
  assumes "registry_ok r" and "proper_name name" and "length (objects r) < OBJECT_CAPACITY"
  shows "(\<exists>i. object_find (snd (object_register ty name p st ev r)) name = Some i \<and>
      obj_name (objects (snd (object_register ty name p st ev r)) ! i) = name \<and>
      fst (object_register ty name p st ev r) = obj_id (objects (snd (object_register ty name p st ev r)) ! i)) \<and>
    (\<forall>query j. object_find r query = Some j \<longrightarrow>
      object_find (snd (object_register ty name p st ev r)) query = Some j)"
  using object_register_finds [OF assms] by (auto intro: object_register_keeps_found)

theorem registration_found_witness:
  "object_find (snd (object_register ''file'' ''/a'' 0 ''ready'' 1 \<lparr>objects = [], next_id = 1\<rparr>)) ''/a'' = Some 0"
proof -
  have "registry_ok \<lparr>objects = [], next_id = 1\<rparr>" "proper_name ''/a''"
    by (simp_all add: registry_ok_def proper_name_def parse_id_name is_digit_def)
  from registration_found [OF this, of "''file''" 0 "''ready''" 1]
  obtain i where "object_find (snd (object_register ''file'' ''/a'' 0 ''ready'' 1 \<lparr>objects = [], next_id = 1\<rparr>)) ''/a'' = Some i"
    by auto
  moreover from object_find_SomeD(1) [OF this] have "i = 0"
    by (simp add: object_register_def object_find_def Let_def)
  ultimately show ?thesis by simp
qed



end
