(* ===== verification/Event_Ring.thy ===== *)
theory Event_Ring
  imports C_Text
begin

text \<open>
  The data of \<^verbatim>\<open>kernel/event.h\<close> and \<^verbatim>\<open>kernel/event.c\<close>: the event record, the
  transaction record, and the journal, a ring of the newest 128 events. This theory holds
  the operations that touch the journal alone; recording an event, which also reads the
  registry and the clock and writes the serial line, is in \<open>Journal\<close>.
\<close>

section \<open>State\<close>

datatype event_result = EVENT_OK | EVENT_DENIED | EVENT_FAULT

text \<open>\<^verbatim>\<open>struct system_event\<close>.\<close>

record system_event =
  ev_sequence :: u64
  ev_timestamp :: u64
  ev_parent_event :: u64
  ev_transaction_id :: u64
  ev_actor_object_id :: u32
  ev_target_object_id :: u32
  ev_target_revision :: u64
  ev_kind :: string
  ev_actor :: string
  ev_target :: string
  ev_operation :: string
  ev_policy_decision :: string
  ev_result :: event_result

text \<open>\<^verbatim>\<open>struct transaction_record\<close>.\<close>

record transaction_record =
  tx_id :: u64
  tx_parent_event :: u64
  tx_begin_event :: u64
  tx_end_event :: u64
  tx_started_revision :: u64
  tx_committed_revision :: u64
  tx_actor :: string
  tx_target :: string
  tx_status :: string

text \<open>The file's static variables. \<open>first\<close> and \<open>count\<close> stay at most 128, so their sums
  never reach the width of the C type; \<open>transactions\<close> is the used part of its array.\<close>

record journal =
  entries :: "system_event list"
  first :: nat
  count :: nat
  next_sequence :: u64
  current_sequence :: u64
  current_transaction :: u64
  transactions :: "transaction_record list"

abbreviation (input) EVENT_CAPACITY :: nat where "EVENT_CAPACITY \<equiv> 128"
abbreviation (input) TRANSACTION_CAPACITY :: nat where "TRANSACTION_CAPACITY \<equiv> 32"
abbreviation (input) EVENT_LABEL_SIZE :: nat where "EVENT_LABEL_SIZE \<equiv> 48"

section \<open>Operations\<close>

definition result_name :: "event_result \<Rightarrow> string" where
  "result_name result =
     (if result = EVENT_OK then ''ok'' else if result = EVENT_DENIED then ''denied'' else ''fault'')"

text \<open>\<^verbatim>\<open>event_init\<close> leaves the array itself alone.\<close>

definition event_init :: "journal \<Rightarrow> journal" where
  "event_init j = j\<lparr>next_sequence := 1, current_sequence := 0, current_transaction := 0,
     first := 0, count := 0, transactions := []\<rparr>"

text \<open>The slot computation of \<^verbatim>\<open>event_record_kind\<close>, and the event stored in that slot.\<close>

definition ring_push :: "system_event \<Rightarrow> journal \<Rightarrow> journal" where
  "ring_push event j =
     (let slot = (first j + count j) mod EVENT_CAPACITY
      in if count j = EVENT_CAPACITY
         then j\<lparr>entries := (entries j)[first j := event], first := (first j + 1) mod EVENT_CAPACITY\<rparr>
         else j\<lparr>entries := (entries j)[slot := event], count := count j + 1\<rparr>)"

definition event_at :: "journal \<Rightarrow> nat \<Rightarrow> system_event option" where
  "event_at j index =
     (if index < count j then Some (entries j ! ((first j + index) mod EVENT_CAPACITY)) else None)"

definition event_count :: "journal \<Rightarrow> nat" where
  "event_count j = count j"

fun event_find_from :: "journal \<Rightarrow> u64 \<Rightarrow> nat list \<Rightarrow> system_event option" where
  "event_find_from j sequence [] = None"
| "event_find_from j sequence (i # is) =
     (case event_at j i of
        Some event \<Rightarrow> if ev_sequence event = sequence then Some event
                      else event_find_from j sequence is
      | None \<Rightarrow> event_find_from j sequence is)"

definition event_find :: "journal \<Rightarrow> u64 \<Rightarrow> system_event option" where
  "event_find j sequence = event_find_from j sequence [0..<count j]"

definition event_set_current :: "u64 \<Rightarrow> journal \<Rightarrow> journal" where
  "event_set_current sequence j = j\<lparr>current_sequence := sequence\<rparr>"

definition event_set_transaction :: "u64 \<Rightarrow> journal \<Rightarrow> journal" where
  "event_set_transaction sequence j = j\<lparr>current_transaction := sequence\<rparr>"

definition transaction_find :: "journal \<Rightarrow> u64 \<Rightarrow> nat option" where
  "transaction_find j transaction_id =
     find_index (\<lambda>transaction. tx_id transaction = transaction_id) (transactions j)"

definition update_transaction ::
  "nat \<Rightarrow> (transaction_record \<Rightarrow> transaction_record) \<Rightarrow> journal \<Rightarrow> journal" where
  "update_transaction i f j = j\<lparr>transactions := (transactions j)[i := f (transactions j ! i)]\<rparr>"

definition transaction_name :: "u64 \<Rightarrow> string" where
  "transaction_name transaction_id =
     append_decimal64 EVENT_LABEL_SIZE (append_text EVENT_LABEL_SIZE [] ''transaction/'') transaction_id"

section \<open>The ring holds the newest events\<close>

definition ring_ok :: "journal \<Rightarrow> bool" where
  "ring_ok j \<longleftrightarrow> length (entries j) = EVENT_CAPACITY \<and> first j < EVENT_CAPACITY \<and> count j \<le> EVENT_CAPACITY"

text \<open>The retained events, oldest first.\<close>

definition events :: "journal \<Rightarrow> system_event list" where
  "events j = map (\<lambda>i. entries j ! ((first j + i) mod EVENT_CAPACITY)) [0..<count j]"

lemma length_events [simp]: "length (events j) = count j"
  by (simp add: events_def)

lemma event_at_events: "event_at j i = (if i < count j then Some (events j ! i) else None)"
  by (simp add: event_at_def events_def)

lemma mod_128_shift_neq:
  fixes i k :: nat
  assumes "i < k" and "k < 128 + i"
  shows "(a + i) mod 128 \<noteq> (a + k) mod 128"
proof
  assume "(a + i) mod 128 = (a + k) mod 128"
  then have "(128 :: nat) dvd (a + k) - (a + i)"
    using assms by (intro mod_eq_dvd_iff_nat [THEN iffD1]) auto
  then have "(128 :: nat) dvd k - i" by simp
  then have "128 \<le> k - i" using assms by (intro dvd_imp_le) auto
  then show False using assms by simp
qed

lemma ring_push_ok: "ring_ok j \<Longrightarrow> ring_ok (ring_push e j)"
  by (auto simp: ring_ok_def ring_push_def Let_def)

lemma events_ring_push:
  assumes "ring_ok j"
  shows "events (ring_push e j) = last_n EVENT_CAPACITY (events j @ [e])"
proof (cases "count j = 128")
  case False
  then have "count j < 128" using assms by (simp add: ring_ok_def)
  moreover from this have "(first j + count j) mod 128 \<noteq> (first j + i) mod 128" if "i < count j" for i
    using mod_128_shift_neq [of i "count j" "first j"] that by simp
  ultimately have "events (ring_push e j) = events j @ [e]"
    using assms
    by (auto simp: events_def ring_push_def ring_ok_def Let_def nth_list_update)
  then show ?thesis
    using \<open>count j < 128\<close> by (simp add: last_n_short)
next
  case True
  have slot: "(Suc (first j) mod 128 + i) mod 128 = (first j + Suc i) mod 128" for i
    by (simp add: mod_simps)
  have "events (ring_push e j) ! i = (drop 1 (events j) @ [e]) ! i" if "i < 128" for i
  proof (cases "i = 127")
    case True
    then show ?thesis
      using \<open>count j = 128\<close> assms
      by (simp add: events_def ring_push_def ring_ok_def Let_def nth_append slot)
  next
    case False
    then have "i < 127" using that by simp
    then have "(first j + Suc i) mod 128 \<noteq> first j"
      using mod_128_shift_neq [of 0 "Suc i" "first j"] assms by (simp add: ring_ok_def)
    then show ?thesis
      using \<open>count j = 128\<close> \<open>i < 127\<close> assms
      by (simp add: events_def ring_push_def ring_ok_def Let_def nth_append slot)
  qed
  then have "events (ring_push e j) = drop 1 (events j) @ [e]"
    using True by (intro nth_equalityI) (simp_all add: ring_push_def Let_def)
  then show ?thesis
    using True by (simp add: last_n_def)
qed

interpretation journal_log: bounded_log ring_push events EVENT_CAPACITY ring_ok "\<lambda>_. True"
  by unfold_locales (simp_all add: ring_push_ok events_ring_push)

section \<open>Consecutive sequence numbers make the search an index computation\<close>

text \<open>The \<open>i\<close>-th retained event was recorded \<open>count - i\<close> steps ago. The statement is modulo
  the width of the counter, so it needs no bound on how long the kernel has run.\<close>

definition consecutive :: "journal \<Rightarrow> bool" where
  "consecutive j \<longleftrightarrow>
     (\<forall>i < count j. ev_sequence (events j ! i) = next_sequence j - word_of_nat (count j - i))"

lemma event_find_from_first:
  "event_find_from j s is =
     (case find_index (\<lambda>i. i < count j \<and> ev_sequence (events j ! i) = s) is of
        None \<Rightarrow> None | Some k \<Rightarrow> event_at j (is ! k))"
  by (induction "is") (auto simp: event_at_events split: option.splits)

lemma sequence_distance:
  assumes "consecutive j" and "count j \<le> 128" and "i < count j"
  shows "unat (next_sequence j - ev_sequence (events j ! i)) = count j - i"
proof -
  have "next_sequence j - ev_sequence (events j ! i) = word_of_nat (count j - i)"
    using assms(1,3) by (simp add: consecutive_def)
  moreover have "unat (word_of_nat (count j - i) :: u64) = count j - i"
    using assms(2) by (intro unat_word_of_nat_small) simp
  ultimately show ?thesis by simp
qed

lemma event_find_direct:
  assumes "consecutive j" and "count j \<le> 128"
  shows "event_find j s =
    (let d = unat (next_sequence j - s)
     in if 1 \<le> d \<and> d \<le> count j then Some (events j ! (count j - d)) else None)"
proof (cases "1 \<le> unat (next_sequence j - s) \<and> unat (next_sequence j - s) \<le> count j")
  case True
  define d where "d = unat (next_sequence j - s)"
  have d: "1 \<le> d" "d \<le> count j" using True by (simp_all add: d_def)
  have s: "s = next_sequence j - word_of_nat d"
    by (simp add: d_def)
  have "find_index (\<lambda>i. i < count j \<and> ev_sequence (events j ! i) = s) [0..<count j] = Some (count j - d)"
  proof (rule find_index_SomeI)
    show "[0..<count j] ! (count j - d) < count j \<and> ev_sequence (events j ! ([0..<count j] ! (count j - d))) = s"
      using assms(1) d s by (simp add: consecutive_def)
    fix i
    assume "i < count j - d"
    then show "\<not> ([0..<count j] ! i < count j \<and> ev_sequence (events j ! ([0..<count j] ! i)) = s)"
      using sequence_distance [OF assms, of i] d by (auto simp: d_def)
  qed (use d in simp)
  then show ?thesis
    using d by (simp add: event_find_def event_find_from_first event_at_events d_def Let_def)
next
  case False
  have "find_index (\<lambda>i. i < count j \<and> ev_sequence (events j ! i) = s) [0..<count j] = None"
    unfolding find_index_None using sequence_distance [OF assms] False by fastforce
  then show ?thesis
    using False by (auto simp: event_find_def event_find_from_first Let_def)
qed

lemma consecutive_push:
  assumes "ring_ok j" and "consecutive j" and "ev_sequence e = next_sequence j"
  shows "consecutive ((ring_push e j)\<lparr>next_sequence := next_sequence j + 1\<rparr>)"
proof -
  let ?j = "(ring_push e j)\<lparr>next_sequence := next_sequence j + 1\<rparr>"
  have ev: "events ?j = last_n 128 (events j @ [e])"
    using events_ring_push [OF assms(1)] by (simp add: events_def)
  have cnt: "count ?j = min 128 (Suc (count j))"
    using assms(1) by (auto simp: ring_push_def ring_ok_def Let_def)
  show ?thesis
    unfolding consecutive_def
  proof (intro allI impI)
    fix i
    assume i: "i < count ?j"
    define off where "off = Suc (count j) - 128"
    have k: "count (ring_push e j) - i = Suc (count j) - (off + i)" "off + i \<le> count j"
      using i cnt by (auto simp: off_def)
    have nth: "events ?j ! i = (events j @ [e]) ! (off + i)"
      using i cnt by (simp add: ev nth_last_n off_def)
    show "ev_sequence (events ?j ! i) = next_sequence ?j - word_of_nat (count ?j - i)"
    proof (cases "off + i = count j")
      case True
      then show ?thesis using assms(3) by (simp add: nth k(1) nth_append)
    next
      case False
      then have "off + i < count j" using k(2) by simp
      moreover from this have "Suc (count j) - (off + i) = Suc (count j - (off + i))" by simp
      ultimately show ?thesis
        using assms(2) by (simp add: nth k(1) nth_append consecutive_def)
    qed
  qed
qed

section \<open>Transaction names\<close>

text \<open>No digit of a transaction's name is cut off, and the name gives its number back.\<close>

lemma transaction_name_eq: "transaction_name t = ''transaction/'' @ decimal (unat t)"
proof -
  have "unat t < 10 ^ 20"
    using unsigned_less [of t, where ?'a = nat] by simp
  then have "length (decimal (unat t)) \<le> 20"
    by (rule length_decimal) simp
  then show ?thesis
    by (simp add: transaction_name_def append_decimal64_eq append_text_eq)
qed

lemma transaction_name_inject: "transaction_name s = transaction_name t \<Longrightarrow> s = t"
  by (auto simp: transaction_name_eq word_unat_eq_iff dest: decimal_inject)

section \<open>Properties\<close>

text \<open>The storage before \<^verbatim>\<open>event_init\<close>: cleared by \<^verbatim>\<open>zero_bss\<close>.\<close>

definition zero_event :: system_event where
  "zero_event = \<lparr>ev_sequence = 0, ev_timestamp = 0, ev_parent_event = 0, ev_transaction_id = 0,
     ev_actor_object_id = 0, ev_target_object_id = 0, ev_target_revision = 0, ev_kind = [], ev_actor = [],
     ev_target = [], ev_operation = [], ev_policy_decision = [], ev_result = EVENT_OK\<rparr>"

definition zero_journal :: journal where
  "zero_journal = \<lparr>entries = replicate 128 zero_event, first = 0, count = 0, next_sequence = 0,
     current_sequence = 0, current_transaction = 0, transactions = []\<rparr>"

lemma zero_journal_start:
  "ring_ok (event_init zero_journal)" "consecutive (event_init zero_journal)" "events (event_init zero_journal) = []"
  by (simp_all add: event_init_def zero_journal_def ring_ok_def consecutive_def events_def)

text \<open>C18: The ring buffer of 128 slots is the log of the last 128 events: after any sequence of
  pushes, the events read back with \<^verbatim>\<open>event_at\<close>, oldest first, are the last 128 of everything
  pushed, in order.\<close>

theorem ring_is_last_128:
  assumes "ring_ok j"
  shows "events (fold ring_push es j) = last_n 128 (events j @ es) \<and>
    event_at (fold ring_push es j) i =
      (if i < min 128 (count j + length es) then Some (last_n 128 (events j @ es) ! i) else None)"
proof -
  have bound: "length (events j) \<le> 128" using assms by (simp add: ring_ok_def)
  have *: "events (fold ring_push es j) = last_n 128 (events j @ es)"
    by (rule journal_log.contents_pushes [OF assms bound]) (simp add: list_all_iff)
  then have "count (fold ring_push es j) = min 128 (count j + length es)"
    using length_events [of "fold ring_push es j"] by simp
  with * show ?thesis
    by (simp add: event_at_events)
qed

theorem ring_is_last_128_witness:
  "event_at (fold ring_push (replicate 130 zero_event) (event_init zero_journal)) 127 = Some zero_event"
  using ring_is_last_128 [OF zero_journal_start(1), of "replicate 130 zero_event" 127]
  by (simp add: zero_journal_start last_n_def event_init_def zero_journal_def)

text \<open>C21: On a journal numbered consecutively, the linear search of \<^verbatim>\<open>event_find\<close> is a direct index:
  it finds exactly the events whose number is at most \<open>count\<close> behind the next one, with no
  hit for a number that was overwritten or not given out yet.\<close>

theorem event_find_is_index:
  assumes "consecutive j" and "ring_ok j"
  shows "event_find j s =
    (let d = unat (next_sequence j - s)
     in if 1 \<le> d \<and> d \<le> count j then event_at j (count j - d) else None)"
  using event_find_direct [OF assms(1), of s] assms(2)
  by (auto simp: ring_ok_def Let_def event_at_events)

theorem event_find_is_index_witness:
  "event_find ((ring_push (zero_event\<lparr>ev_sequence := 1\<rparr>) (event_init zero_journal))\<lparr>next_sequence := 2\<rparr>) 1 =
     Some (zero_event\<lparr>ev_sequence := 1\<rparr>)"
proof -
  let ?j = "(ring_push (zero_event\<lparr>ev_sequence := 1\<rparr>) (event_init zero_journal))\<lparr>next_sequence := 2\<rparr>"
  have "consecutive ?j" "ring_ok ?j"
    by (simp_all add: consecutive_def events_def ring_push_def event_init_def zero_journal_def ring_ok_def Let_def)
  from event_find_is_index [OF this, of 1] show ?thesis
    by (simp add: Let_def event_at_def ring_push_def event_init_def zero_journal_def)
qed

end
