(* ===== verification/Policy_Rules.thy ===== *)
theory Policy_Rules
  imports C_Text
begin

text \<open>
  The rule table of \<^verbatim>\<open>kernel/policy.c\<close>: the parser of the policy text, the matching
  of a request against the rules, and the texts built from rules and decisions. The embedded
  policy is \<^verbatim>\<open>policy/base.policy\<close> as \<^verbatim>\<open>tests/embed_policy.py\<close> quotes it. The
  operations that record events or register objects are in \<open>Policy\<close>.
\<close>

section \<open>State\<close>

text \<open>\<^verbatim>\<open>struct policy_rule\<close>.\<close>

record policy_rule =
  rule_allow :: bool
  rule_number :: u32
  rule_capability :: string
  rule_subject :: string
  rule_operation :: string
  rule_object :: string

text \<open>\<^verbatim>\<open>rules[0..rule_count)\<close> and the file's other static variables.\<close>

record policy_table =
  rules :: "policy_rule list"
  active_revision :: u32
  policy_loaded :: bool

text \<open>\<^verbatim>\<open>struct policy_decision\<close>.\<close>

record policy_decision =
  allowed :: bool
  decision_event :: u64
  reason :: string

abbreviation (input) POLICY_MAX_RULES :: nat where "POLICY_MAX_RULES \<equiv> 64"
abbreviation (input) POLICY_FIELD_SIZE :: nat where "POLICY_FIELD_SIZE \<equiv> 48"
abbreviation (input) POLICY_DECISION_SIZE :: nat where "POLICY_DECISION_SIZE \<equiv> 48"

section \<open>The parser\<close>

fun skip_spaces :: "string \<Rightarrow> string" where
  "skip_spaces [] = []"
| "skip_spaces (c # text) = (if c = CHR '' '' \<or> c = CHR 0x09 then skip_spaces text else c # text)"

text \<open>The token loop: what has been stored so far, and the text left. Characters that do not
  fit are read and dropped.\<close>

fun read_token_loop :: "nat \<Rightarrow> string \<Rightarrow> string \<Rightarrow> string \<times> string" where
  "read_token_loop capacity token [] = (token, [])"
| "read_token_loop capacity token (c # text) =
     (if c \<noteq> CHR '' '' \<and> c \<noteq> CHR 0x09 \<and> c \<noteq> CHR 0x0D \<and> c \<noteq> CHR 0x0A
      then read_token_loop capacity (if length token < capacity - 1 then token @ [c] else token) text
      else (token, c # text))"

definition read_token :: "nat \<Rightarrow> string \<Rightarrow> string \<times> string" where
  "read_token capacity text = read_token_loop capacity [] (skip_spaces text)"

definition parse_revision_comment :: "string \<Rightarrow> policy_table \<Rightarrow> policy_table" where
  "parse_revision_comment line p =
     (if starts_with line ''# GlassOS policy revision ''
      then p\<lparr>active_revision := parse_decimal (drop 26 line)\<rparr> else p)"

definition parse_rule_line :: "string \<Rightarrow> policy_table \<Rightarrow> policy_table" where
  "parse_rule_line line p =
     (let (effect, line) = read_token 8 line;
          (subject, line) = read_token POLICY_FIELD_SIZE line;
          (operation, line) = read_token POLICY_FIELD_SIZE line;
          (object, line) = read_token POLICY_FIELD_SIZE line
      in if (\<not> text_equal effect ''allow'' \<and> \<not> text_equal effect ''deny'') \<or>
            subject = [] \<or> operation = [] \<or> object = [] \<or> length (rules p) \<ge> POLICY_MAX_RULES
         then p
         else p\<lparr>rules := rules p @
           [\<lparr>rule_allow = text_equal effect ''allow'',
             rule_number = word_of_nat (length (rules p)) + 1,
             rule_capability = [],
             rule_subject = copy_field POLICY_FIELD_SIZE (Some subject),
             rule_operation = copy_field POLICY_FIELD_SIZE (Some operation),
             rule_object = copy_field POLICY_FIELD_SIZE (Some object)\<rparr>]\<rparr>)"

text \<open>One line of at most \<open>limit\<close> characters, and the text after the line's end.\<close>

fun read_line :: "nat \<Rightarrow> string \<Rightarrow> string" where
  "read_line 0 source = []"
| "read_line (Suc limit) [] = []"
| "read_line (Suc limit) (c # source) = (if c = CHR 0x0A then [] else c # read_line limit source)"

fun next_line :: "string \<Rightarrow> string" where
  "next_line [] = []"
| "next_line (c # source) = (if c = CHR 0x0A then source else next_line source)"

lemma length_next_line: "source \<noteq> [] \<Longrightarrow> length (next_line source) < length source"
proof -
  have "length (next_line source) \<le> length source" for source
    by (induction source rule: next_line.induct) auto
  then show "source \<noteq> [] \<Longrightarrow> length (next_line source) < length source"
    by (cases source) (auto simp: le_imp_less_Suc)
qed

definition parse_line :: "string \<Rightarrow> policy_table \<Rightarrow> policy_table" where
  "parse_line line p =
     (let trimmed = skip_spaces line
      in if trimmed = [] then p
         else if hd trimmed = CHR ''#'' then parse_revision_comment trimmed p
         else parse_rule_line trimmed p)"

function parse_source :: "string \<Rightarrow> policy_table \<Rightarrow> policy_table" where
  "parse_source source p =
     (if source = [] then p
      else parse_source (next_line source) (parse_line (read_line 159 source) p))"
  by pat_completeness auto
termination
  by (relation "measure (\<lambda>(source, p). length source)") (auto simp: length_next_line)

declare parse_source.simps [simp del]

definition policy_parse :: "string \<Rightarrow> policy_table \<Rightarrow> policy_table" where
  "policy_parse source p =
     (let p = parse_source source (p\<lparr>rules := [], active_revision := 0\<rparr>);
          p = (if active_revision p = 0 then p\<lparr>active_revision := 1\<rparr> else p)
      in p\<lparr>policy_loaded := True\<rparr>)"

section \<open>Texts built from rules\<close>

definition build_capability_name :: "nat \<Rightarrow> string \<Rightarrow> string \<Rightarrow> string \<Rightarrow> string" where
  "build_capability_name capacity subject operation object =
     (let buf = append_text capacity [] ''capability/'';
          buf = append_text capacity buf subject;
          buf = append_text capacity buf ''/'';
          buf = append_text capacity buf operation;
          buf = append_text capacity buf ''/''
      in append_text capacity buf object)"

definition build_capability_state :: "nat \<Rightarrow> u32 \<Rightarrow> bool \<Rightarrow> u32 \<Rightarrow> string" where
  "build_capability_state capacity revision allow number =
     (let buf = append_text capacity [] (if allow then ''allow rule '' else ''deny rule '');
          buf = append_decimal32 capacity buf number;
          buf = append_text capacity buf '' rev ''
      in append_decimal32 capacity buf revision)"

definition format_decision :: "u32 \<Rightarrow> bool \<Rightarrow> string \<Rightarrow> u32 \<Rightarrow> string" where
  "format_decision revision permit operation number =
     (let buf = append_text POLICY_DECISION_SIZE [] (if permit then ''allow:'' else ''deny:'');
          buf = append_text POLICY_DECISION_SIZE buf operation;
          buf = append_text POLICY_DECISION_SIZE buf '',rev='';
          buf = append_decimal32 POLICY_DECISION_SIZE buf revision;
          buf = append_text POLICY_DECISION_SIZE buf '',rule=''
      in append_decimal32 POLICY_DECISION_SIZE buf number)"

section \<open>Matching\<close>

definition field_matches :: "string \<Rightarrow> string \<Rightarrow> bool" where
  "field_matches rule_field value \<longleftrightarrow> text_equal rule_field ''*'' \<or> text_equal rule_field value"

definition rule_matches :: "string \<Rightarrow> string \<Rightarrow> string \<Rightarrow> policy_rule \<Rightarrow> bool" where
  "rule_matches actor target operation rule \<longleftrightarrow>
     field_matches (rule_subject rule) actor \<and>
     field_matches (rule_operation rule) operation \<and>
     field_matches (rule_object rule) target"

text \<open>The loop of \<^verbatim>\<open>policy_check\<close>: it runs over all rules, so a later match replaces an
  earlier one; the pair is \<^verbatim>\<open>decision.allowed\<close> and \<^verbatim>\<open>decision.reason\<close>.\<close>

definition policy_decide :: "policy_table \<Rightarrow> string \<Rightarrow> string \<Rightarrow> string \<Rightarrow> bool \<times> string" where
  "policy_decide p actor target operation =
     fold (\<lambda>rule decision.
             if rule_matches actor target operation rule
             then (rule_allow rule,
                   format_decision (active_revision p) (rule_allow rule) operation (rule_number rule))
             else decision)
       (rules p) (False, format_decision (active_revision p) False ''policy-default'' 0)"

definition rule_relevant_to_object :: "policy_rule \<Rightarrow> string \<Rightarrow> bool" where
  "rule_relevant_to_object rule object_name \<longleftrightarrow>
     text_equal object_name ''policy/base.policy'' \<or> text_equal (rule_subject rule) object_name \<or>
     text_equal (rule_object rule) object_name \<or> text_equal (rule_object rule) ''*''"

section \<open>The embedded policy\<close>

definition base_policy_lines :: "string list" where
  "base_policy_lines =
    [''# GlassOS policy revision 1'',
     ''allow boot enter kernel'',
     ''allow kernel initialize interrupts'',
     ''deny cpu exception kernel'',
     ''allow shell inspect *'',
     ''allow shell expand *'',
     ''allow shell history *'',
     ''allow shell why *'',
     ''allow shell filesystem:list ramfs'',
     ''allow shell filesystem:lookup *'',
     ''allow shell filesystem:read *'',
     ''allow shell module:load *'',
     ''allow shell memory:inspect memory'',
     ''allow shell ui:clear window'',
     ''allow shell ui:redraw window'',
     ''allow shell config:get *'',
     ''allow shell config:set *'',
     ''allow shell policy:show policy/base.policy'',
     ''allow shell policy:change policy/base.policy'',
     ''allow shell process:load /bin/hello'',
     ''allow * syscall:inspect *'',
     ''allow * syscall:yield *'',
     ''allow * syscall:config_get *'']"

text \<open>\<^verbatim>\<open>embed_policy.py\<close> ends every line with a newline.\<close>

definition base_policy_source :: string where
  "base_policy_source = concat (map (\<lambda>line. line @ [CHR 0x0A]) base_policy_lines)"

text \<open>The policy in force: every operation that reads the rules first parses the embedded policy
  if nothing has been loaded yet (\<^verbatim>\<open>if (!policy_loaded) policy_parse(base_policy_source);\<close>).\<close>

definition in_force :: "policy_table \<Rightarrow> policy_table" where
  "in_force p = (if \<not> policy_loaded p then policy_parse base_policy_source p else p)"

lemma policy_parse_loaded [simp]: "policy_loaded (policy_parse source p)"
  by (simp add: policy_parse_def Let_def)

lemma in_force_loaded [simp]: "policy_loaded p \<Longrightarrow> in_force p = p"
  and policy_loaded_in_force [simp]: "policy_loaded (in_force p)"
  by (simp_all add: in_force_def)

lemma in_force_idem [simp]: "in_force (in_force p) = in_force p"
  by simp

section \<open>The last matching rule decides\<close>

definition last_match :: "policy_table \<Rightarrow> string \<Rightarrow> string \<Rightarrow> string \<Rightarrow> policy_rule option" where
  "last_match p actor target operation = find (rule_matches actor target operation) (rev (rules p))"

lemma policy_decide_last_match:
  "policy_decide p actor target operation =
     (case last_match p actor target operation of
        None \<Rightarrow> (False, format_decision (active_revision p) False ''policy-default'' 0)
      | Some rule \<Rightarrow> (rule_allow rule,
          format_decision (active_revision p) (rule_allow rule) operation (rule_number rule)))"
proof -
  have "fold (\<lambda>rule decision. if rule_matches actor target operation rule
          then (rule_allow rule, format_decision v (rule_allow rule) operation (rule_number rule))
          else decision) rs d =
      (case find (rule_matches actor target operation) (rev rs) of
         None \<Rightarrow> d
       | Some rule \<Rightarrow> (rule_allow rule, format_decision v (rule_allow rule) operation (rule_number rule)))"
    for rs d v
    by (induction rs rule: rev_induct) auto
  then show ?thesis by (simp add: policy_decide_def last_match_def)
qed

lemma last_match_split:
  assumes "rules p = before @ rule # after" and "rule_matches actor target operation rule"
    and "\<forall>r \<in> set after. \<not> rule_matches actor target operation r"
  shows "last_match p actor target operation = Some rule"
proof -
  have "find P (xs @ ys) = (case find P xs of None \<Rightarrow> find P ys | Some x \<Rightarrow> Some x)" for P and xs ys :: "policy_rule list"
    by (induction xs) auto
  moreover have "find (rule_matches actor target operation) (rev after) = None"
    using assms(3) by (simp add: find_None_iff)
  ultimately show ?thesis
    using assms(1,2) by (simp add: last_match_def)
qed

lemma last_match_None:
  "last_match p actor target operation = None \<longleftrightarrow>
     (\<forall>rule \<in> set (rules p). \<not> rule_matches actor target operation rule)"
  by (auto simp: last_match_def find_None_iff)

lemma last_match_Some:
  "last_match p actor target operation = Some rule \<Longrightarrow>
     rule \<in> set (rules p) \<and> rule_matches actor target operation rule"
  by (auto simp: last_match_def find_Some_iff) (metis nth_mem length_rev set_rev)

text \<open>A rule appended to the table decides every request that it matches, and no other.\<close>

lemma policy_decide_append:
  "policy_decide (p\<lparr>rules := rules p @ [rule]\<rparr>) actor target operation =
     (if rule_matches actor target operation rule
      then (rule_allow rule,
            format_decision (active_revision p) (rule_allow rule) operation (rule_number rule))
      else policy_decide p actor target operation)"
  by (simp add: policy_decide_def)

section \<open>The parser's bounds and numbering\<close>

text \<open>At most 64 rules, numbered from 1, with fields that are not empty and fit.\<close>

definition rule_ok :: "nat \<Rightarrow> policy_rule \<Rightarrow> bool" where
  "rule_ok i rule \<longleftrightarrow>
     rule_number rule = word_of_nat (Suc i) \<and>
     rule_subject rule \<noteq> [] \<and> length (rule_subject rule) < 48 \<and>
     rule_operation rule \<noteq> [] \<and> length (rule_operation rule) < 48 \<and>
     rule_object rule \<noteq> [] \<and> length (rule_object rule) < 48"

definition rules_ok :: "policy_table \<Rightarrow> bool" where
  "rules_ok p \<longleftrightarrow> length (rules p) \<le> POLICY_MAX_RULES \<and> (\<forall>i < length (rules p). rule_ok i (rules p ! i))"

lemma length_read_token_loop:
  "length token < capacity \<Longrightarrow> length (fst (read_token_loop capacity token text)) < capacity"
  by (induction capacity token "text" rule: read_token_loop.induct) auto

lemma length_read_token: "0 < capacity \<Longrightarrow> length (fst (read_token capacity text)) < capacity"
  by (simp add: read_token_def length_read_token_loop)

lemma rules_ok_snoc:
  assumes "rules_ok p" and "length (rules p) < 64" and "rule_ok (length (rules p)) rule"
  shows "rules_ok (p\<lparr>rules := rules p @ [rule]\<rparr>)"
  using assms by (auto simp: rules_ok_def nth_append less_Suc_eq)

lemma rules_ok_parse_rule: "rules_ok p \<Longrightarrow> rules_ok (parse_rule_line line p)"
proof -
  assume ok: "rules_ok p"
  obtain e l1 where t1: "read_token 8 line = (e, l1)" by fastforce
  obtain s l2 where t2: "read_token 48 l1 = (s, l2)" by fastforce
  obtain o' l3 where t3: "read_token 48 l2 = (o', l3)" by fastforce
  obtain b l4 where t4: "read_token 48 l3 = (b, l4)" by fastforce
  have "length s < 48" "length o' < 48" "length b < 48"
    using length_read_token [of 48] t2 t3 t4 by (metis fst_conv zero_less_numeral)+
  then show ?thesis
    using ok by (simp add: parse_rule_line_def t1 t2 t3 t4 rules_ok_snoc rule_ok_def)
qed

lemma rules_ok_cong: "rules p' = rules p \<Longrightarrow> rules_ok p' = rules_ok p"
  by (simp add: rules_ok_def)

lemma rules_ok_parse_line: "rules_ok p \<Longrightarrow> rules_ok (parse_line line p)"
  by (simp add: parse_line_def Let_def rules_ok_parse_rule parse_revision_comment_def
      rules_ok_cong [of "p\<lparr>active_revision := r\<rparr>" p for r])

lemma rules_ok_parse_source: "rules_ok p \<Longrightarrow> rules_ok (parse_source source p)"
proof (induction source p rule: parse_source.induct)
  case (1 source p)
  then show ?case
    by (subst parse_source.simps) (simp add: rules_ok_parse_line)
qed

lemma rules_ok_parse: "rules_ok (policy_parse source p)"
proof -
  have "rules_ok (parse_source source (p\<lparr>rules := [], active_revision := 0\<rparr>))" (is "rules_ok ?p")
    by (rule rules_ok_parse_source) (simp add: rules_ok_def)
  then show ?thesis
    by (simp add: policy_parse_def Let_def rules_ok_def)
qed

section \<open>What a decision's text says\<close>

text \<open>The text of a decision begins with its outcome, whatever the operation's length.\<close>

lemma append_text_start: "append_text 48 [] s = take 47 s"
  by (simp add: append_text_eq)

lemma format_decision_eq:
  "format_decision revision permit operation number =
     take 47 ((if permit then ''allow:'' else ''deny:'') @ operation @ '',rev='' @ decimal (unat revision) @
       '',rule='' @ decimal (unat number))"
  unfolding format_decision_def Let_def append_decimal32_eq append_text_append
  by (simp only: append_text_start append_assoc)

lemma format_decision_starts:
  "starts_with (format_decision revision permit operation number) ''allow:'' = permit"
  "starts_with (format_decision revision permit operation number) ''deny:'' = (\<not> permit)"
  by (simp_all add: format_decision_eq)

lemma length_format_decision: "length (format_decision revision permit operation number) \<le> 47"
  by (simp only: format_decision_eq length_take min.cobounded2)

text \<open>The table that the built-in policy parses to.\<close>

definition base_rule :: "nat \<Rightarrow> bool \<Rightarrow> string \<Rightarrow> string \<Rightarrow> string \<Rightarrow> policy_rule" where
  "base_rule n allow subject operation ob =
     \<lparr>rule_allow = allow, rule_number = word_of_nat n, rule_capability = [], rule_subject = subject,
      rule_operation = operation, rule_object = ob\<rparr>"

definition base_rules :: "policy_rule list" where
  "base_rules =
    [base_rule 1 True ''boot'' ''enter'' ''kernel'',
     base_rule 2 True ''kernel'' ''initialize'' ''interrupts'',
     base_rule 3 False ''cpu'' ''exception'' ''kernel'',
     base_rule 4 True ''shell'' ''inspect'' ''*'',
     base_rule 5 True ''shell'' ''expand'' ''*'',
     base_rule 6 True ''shell'' ''history'' ''*'',
     base_rule 7 True ''shell'' ''why'' ''*'',
     base_rule 8 True ''shell'' ''filesystem:list'' ''ramfs'',
     base_rule 9 True ''shell'' ''filesystem:lookup'' ''*'',
     base_rule 10 True ''shell'' ''filesystem:read'' ''*'',
     base_rule 11 True ''shell'' ''module:load'' ''*'',
     base_rule 12 True ''shell'' ''memory:inspect'' ''memory'',
     base_rule 13 True ''shell'' ''ui:clear'' ''window'',
     base_rule 14 True ''shell'' ''ui:redraw'' ''window'',
     base_rule 15 True ''shell'' ''config:get'' ''*'',
     base_rule 16 True ''shell'' ''config:set'' ''*'',
     base_rule 17 True ''shell'' ''policy:show'' ''policy/base.policy'',
     base_rule 18 True ''shell'' ''policy:change'' ''policy/base.policy'',
     base_rule 19 True ''shell'' ''process:load'' ''/bin/hello'',
     base_rule 20 True ''*'' ''syscall:inspect'' ''*'',
     base_rule 21 True ''*'' ''syscall:yield'' ''*'',
     base_rule 22 True ''*'' ''syscall:config_get'' ''*'']"

lemma base_parse: "parse_source base_policy_source \<lparr>rules = [], active_revision = 0, policy_loaded = b\<rparr> =
   \<lparr>rules = base_rules, active_revision = 1, policy_loaded = b\<rparr>"
  by code_simp

lemma policy_parse_base:
  "rules (policy_parse base_policy_source p) = base_rules"
  "active_revision (policy_parse base_policy_source p) = 1"
proof -
  have "p\<lparr>rules := [], active_revision := 0\<rparr> = \<lparr>rules = [], active_revision = 0, policy_loaded = policy_loaded p\<rparr>"
    by (cases p) simp
  then have "parse_source base_policy_source (p\<lparr>rules := [], active_revision := 0\<rparr>) =
      \<lparr>rules = base_rules, active_revision = 1, policy_loaded = policy_loaded p\<rparr>"
    by (simp only: base_parse)
  then show "rules (policy_parse base_policy_source p) = base_rules"
    and "active_revision (policy_parse base_policy_source p) = 1"
    by (simp_all add: policy_parse_def)
qed

lemma base_decision:
  "fst (policy_decide (policy_parse base_policy_source p) actor target operation) =
     fold (\<lambda>rule d. if rule_matches actor target operation rule then rule_allow rule else d) base_rules False"
  by (simp add: policy_decide_def policy_parse_base base_rules_def)

section \<open>Properties\<close>

text \<open>C19: A request is decided by the last rule that matches it, and by default refused: the loop of
  \<^verbatim>\<open>policy_check\<close>, which overwrites the decision at every match, yields the effect of that rule and
  a text with its number, or the refusal \<^verbatim>\<open>policy-default\<close> when no rule matches.\<close>

theorem decision_is_last_match:
  "policy_decide p actor target operation =
     (case find (rule_matches actor target operation) (rev (rules p)) of
        None \<Rightarrow> (False, format_decision (active_revision p) False ''policy-default'' 0)
      | Some rule \<Rightarrow> (rule_allow rule,
          format_decision (active_revision p) (rule_allow rule) operation (rule_number rule)))"
  using policy_decide_last_match [of p actor target operation] by (simp add: last_match_def)

text \<open>C29: Whatever text is parsed as a policy, the table holds at most 64 rules, rule \<open>i\<close> (from 0)
  carries the number \<open>i + 1\<close>, and its subject, operation and object are non-empty and shorter than
  their 48-byte fields.\<close>

theorem parsed_rules_bounded:
  "length (rules (policy_parse source p)) \<le> 64 \<and>
   list_all (\<lambda>(i, rule). rule_number rule = word_of_nat (Suc i) \<and>
       rule_subject rule \<noteq> [] \<and> length (rule_subject rule) < 48 \<and>
       rule_operation rule \<noteq> [] \<and> length (rule_operation rule) < 48 \<and>
       rule_object rule \<noteq> [] \<and> length (rule_object rule) < 48)
     (enumerate 0 (rules (policy_parse source p)))"
  using rules_ok_parse [of source p]
  by (auto simp: rules_ok_def rule_ok_def list_all_iff in_set_enumerate_eq)

text \<open>C30: The decision text written into the event and shown to the user tells the decision, whatever
  the length of the operation's name: it starts with \<^verbatim>\<open>allow:\<close> exactly when the request is permitted
  and with \<^verbatim>\<open>deny:\<close> exactly when it is refused, and it fits its 48-byte field.\<close>

theorem decision_text_tells:
  "starts_with (snd (policy_decide p actor target operation)) ''allow:'' =
     fst (policy_decide p actor target operation) \<and>
   starts_with (snd (policy_decide p actor target operation)) ''deny:'' =
     (fst (policy_decide p actor target operation) = False) \<and>
   length (snd (policy_decide p actor target operation)) \<le> 47"
  by (simp add: policy_decide_last_match format_decision_starts length_format_decision split: option.split)

text \<open>C20: The policy built into the kernel parses to 22 rules of revision 1; under it no request for
  the operation \<^verbatim>\<open>syscall:config_set\<close> or \<^verbatim>\<open>kernel:reboot\<close> is permitted, by any actor on any target.\<close>

theorem base_policy_refuses:
  "length (rules (policy_parse base_policy_source p)) = 22 \<and>
   active_revision (policy_parse base_policy_source p) = 1 \<and>
   fst (policy_decide (policy_parse base_policy_source p) actor target ''syscall:config_set'') = False \<and>
   fst (policy_decide (policy_parse base_policy_source p) actor target ''kernel:reboot'') = False"
  by (simp add: policy_parse_base base_decision)
    (simp add: base_rules_def base_rule_def rule_matches_def field_matches_def)

end
