(* ===== verification/Process_Table.thy ===== *)
theory Process_Table
  imports C_Text
begin

text \<open>
  The process table of \<^verbatim>\<open>kernel/user.c\<close> and the names it builds. The operations that
  allocate pages, record events or handle traps are in \<open>User\<close>.
\<close>

text \<open>\<^verbatim>\<open>struct user_process\<close>.\<close>

record user_process =
  pid :: u32
  thread_id :: u32
  process_cr3 :: u64
  code_page :: u64
  stack_page :: u64
  peer_probe_address :: u64
  process_name :: string
  thread_name :: string
  address_space_name :: string
  image_path :: string
  peer_process_name :: string

text \<open>The file's static variables: the used part of the process array, whose length is
  \<^verbatim>\<open>process_count\<close>, and the active process as an index.\<close>

record user_table =
  processes :: "user_process list"
  scheduler_index :: nat
  active_user_process :: "nat option"
  user_fault_contained :: bool

abbreviation (input) USER_PROCESS_CAPACITY :: nat where "USER_PROCESS_CAPACITY \<equiv> 4"
abbreviation (input) USER_NAME_SIZE :: nat where "USER_NAME_SIZE \<equiv> 48"
abbreviation (input) USER_CODE_VA :: u64 where "USER_CODE_VA \<equiv> 0x400000"
abbreviation (input) USER_STACK_TOP :: u64 where "USER_STACK_TOP \<equiv> 0x800000"
abbreviation (input) USER_PEER_PROBE_VA :: u64 where "USER_PEER_PROBE_VA \<equiv> 0x600000"

definition build_name :: "nat \<Rightarrow> string \<Rightarrow> u32 \<Rightarrow> string" where
  "build_name capacity prefix n = append_decimal32 capacity (append_text capacity [] prefix) n"

definition copy_name :: "nat \<Rightarrow> string option \<Rightarrow> string" where
  "copy_name capacity source = append_text capacity [] (case source of None \<Rightarrow> [] | Some s \<Rightarrow> s)"

definition new_process :: "nat \<Rightarrow> user_process" where
  "new_process process_count =
     (let n = word_of_nat process_count + 1
      in \<lparr>pid = n, thread_id = n, process_cr3 = 0, code_page = 0, stack_page = 0,
          peer_probe_address = 0, process_name = build_name USER_NAME_SIZE ''process/'' n,
          thread_name = build_name USER_NAME_SIZE ''thread/'' n,
          address_space_name = build_name USER_NAME_SIZE ''address_space/'' n,
          image_path = copy_name USER_NAME_SIZE (Some ''''),
          peer_process_name = copy_name USER_NAME_SIZE (Some '''')\<rparr>)"

definition process_at :: "user_table \<Rightarrow> nat \<Rightarrow> user_process" where
  "process_at u i = processes u ! i"

definition update_process :: "nat \<Rightarrow> (user_process \<Rightarrow> user_process) \<Rightarrow> user_table \<Rightarrow> user_table" where
  "update_process i f u = u\<lparr>processes := (processes u)[i := f (processes u ! i)]\<rparr>"

text \<open>No digit of a name is cut off, so distinct numbers get distinct names.\<close>

lemma build_name_eq:
  assumes "length prefix \<le> 37"
  shows "build_name USER_NAME_SIZE prefix n = prefix @ decimal (unat n)"
proof -
  have "unat n < 10 ^ 10"
    using unsigned_less [of n, where ?'a = nat] by simp
  then have "length (decimal (unat n)) \<le> 10"
    by (rule length_decimal) simp
  then show ?thesis
    using assms by (simp add: build_name_def append_decimal32_eq append_text_eq)
qed

lemma build_name_inject:
  assumes "length prefix \<le> 37" and "build_name USER_NAME_SIZE prefix m = build_name USER_NAME_SIZE prefix n"
  shows "m = n"
  using assms by (auto simp: build_name_eq word_unat_eq_iff dest: decimal_inject)

lemma copy_name_Some [simp]: "copy_name capacity (Some s) = take (capacity - 1) s"
  by (simp add: copy_name_def append_text_eq)

section \<open>Properties\<close>

lemma build_name_iff:
  "length prefix \<le> 37 \<Longrightarrow> build_name USER_NAME_SIZE prefix m = build_name USER_NAME_SIZE prefix n \<longleftrightarrow> m = n"
  using build_name_inject by blast

text \<open>C36: Processes, threads and address spaces in different slots of the process table have
  different names: no digit is cut off by the 48-byte fields, so the name in an event identifies the
  process.\<close>

theorem names_identify:
  assumes "m \<noteq> n" and "m < 4" and "n < 4"
  shows "process_name (new_process m) \<noteq> process_name (new_process n) \<and>
    thread_name (new_process m) \<noteq> thread_name (new_process n) \<and>
    address_space_name (new_process m) \<noteq> address_space_name (new_process n)"
proof -
  have "(word_of_nat m :: u32) \<noteq> word_of_nat n"
  proof
    assume "(word_of_nat m :: u32) = word_of_nat n"
    then have "unat (word_of_nat m :: u32) = unat (word_of_nat n :: u32)" by simp
    then show False using assms by (simp add: unat_word_of_nat_small)
  qed
  then show ?thesis by (simp add: new_process_def Let_def build_name_iff)
qed

theorem names_identify_witness: "process_name (new_process 0) \<noteq> process_name (new_process 1)"
  using names_identify [of 0 1] by simp

end
