(* ===== verification/Descriptors.thy ===== *)
theory Descriptors
  imports Glass_Prelude
begin

text \<open>
  The descriptor tables that \<^verbatim>\<open>kernel/idt.c\<close> builds: interrupt gates, the segment
  descriptors and the task-state segment. Addresses that the linker chooses (the tables
  themselves, the interrupt stack, the assembly entry points) are arguments.
\<close>

section \<open>State\<close>

text \<open>\<^verbatim>\<open>struct idt_entry\<close>.\<close>

record idt_entry =
  offset_low :: u16
  selector :: u16
  ist :: u8
  gate_flags :: u8
  offset_mid :: u16
  offset_high :: u32
  gate_zero :: u32

text \<open>The tables and the two table registers; of \<^verbatim>\<open>struct tss64\<close> the fields the code assigns.\<close>

record descriptors =
  idt :: "nat \<Rightarrow> idt_entry"
  idtp_limit :: u16
  idtp_base :: u64
  gdt :: "u64 list"
  gdtp_limit :: u16
  gdtp_base :: u64
  tss_rsp0 :: u64
  tss_iomap_base :: u16

section \<open>Operations\<close>

definition set_idt_gate_flags :: "nat \<Rightarrow> u64 \<Rightarrow> u8 \<Rightarrow> descriptors \<Rightarrow> descriptors" where
  "set_idt_gate_flags n handler flags d =
     d\<lparr>idt := (idt d)(n := \<lparr>offset_low = ucast (handler AND 0xFFFF), selector = 0x08, ist = 0,
       gate_flags = flags, offset_mid = ucast (drop_bit 16 handler AND 0xFFFF),
       offset_high = ucast (drop_bit 32 handler AND 0xFFFFFFFF), gate_zero = 0\<rparr>)\<rparr>"

definition set_idt_gate :: "nat \<Rightarrow> u64 \<Rightarrow> descriptors \<Rightarrow> descriptors" where
  "set_idt_gate n handler d = set_idt_gate_flags n handler 0x8E d"

text \<open>The low half of the TSS descriptor, \<^verbatim>\<open>gdt[5]\<close>.\<close>

definition tss_descriptor :: "u64 \<Rightarrow> u64 \<Rightarrow> u64" where
  "tss_descriptor tss_base tss_limit =
     (tss_limit AND 0xFFFF) OR push_bit 16 (tss_base AND 0xFFFFFF) OR push_bit 40 0x89 OR
     push_bit 32 (tss_limit AND 0xF0000) OR push_bit 56 (drop_bit 24 tss_base AND 0xFF)"

text \<open>\<^verbatim>\<open>sizeof(tss)\<close> is 104 and the interrupt stack has 4096 bytes. The loads of the table and
  segment registers, and the message that follows them, are in \<open>Boot\<close>.\<close>

definition init_gdt_tss :: "u64 \<Rightarrow> u64 \<Rightarrow> u64 \<Rightarrow> descriptors \<Rightarrow> descriptors" where
  "init_gdt_tss gdt_address tss_base kernel_interrupt_stack d =
     d\<lparr>gdt := [0, 0x00209A0000000000, 0x0000920000000000, 0x0000F20000000000, 0x0020FA0000000000,
              tss_descriptor tss_base 103, drop_bit 32 tss_base],
       tss_rsp0 := kernel_interrupt_stack + 4096, tss_iomap_base := 104,
       gdtp_limit := 55, gdtp_base := gdt_address\<rparr>"

text \<open>The gates that \<^verbatim>\<open>init_idt\<close> fills: the exceptions, the two device interrupts and the
  system call.\<close>

definition set_exception_gates :: "(nat \<Rightarrow> u64) \<Rightarrow> descriptors \<Rightarrow> descriptors" where
  "set_exception_gates exception_stub_table d =
     fold (\<lambda>vector. set_idt_gate vector (exception_stub_table vector)) [0..<32] d"

definition set_device_gates :: "u64 \<Rightarrow> u64 \<Rightarrow> u64 \<Rightarrow> descriptors \<Rightarrow> descriptors" where
  "set_device_gates timer_isr keyboard_isr syscall_isr d =
     set_idt_gate_flags 0x80 syscall_isr 0xEE
       (set_idt_gate 33 keyboard_isr (set_idt_gate 32 timer_isr d))"

section \<open>What the processor reads back\<close>

text \<open>The handler address, presence and privilege level of a gate, as the processor decodes them.\<close>

definition gate_offset :: "idt_entry \<Rightarrow> u64" where
  "gate_offset g = ucast (offset_low g) OR push_bit 16 (ucast (offset_mid g)) OR
     push_bit 32 (ucast (offset_high g))"

definition gate_present :: "idt_entry \<Rightarrow> bool" where
  "gate_present g \<longleftrightarrow> bit (gate_flags g) 7"

definition gate_dpl :: "idt_entry \<Rightarrow> u8" where
  "gate_dpl g = drop_bit 5 (gate_flags g) AND 3"

definition tss_base_of :: "u64 \<Rightarrow> u64 \<Rightarrow> u64" where
  "tss_base_of low high = (drop_bit 16 low AND 0xFFFFFF) OR
     push_bit 24 (drop_bit 56 low AND 0xFF) OR push_bit 32 high"

definition tss_limit_of :: "u64 \<Rightarrow> u64" where
  "tss_limit_of low = (low AND 0xFFFF) OR (drop_bit 32 low AND 0xF0000)"

definition descriptor_access :: "u64 \<Rightarrow> u64" where
  "descriptor_access low = drop_bit 40 low AND 0xFF"

lemma masks:
  "(0xFF :: u64) = mask 8" "(0xFFFF :: u64) = mask 16" "(0xFFFFFF :: u64) = mask 24"
  "(0xFFFFFFFF :: u64) = mask 32" "(0xF0000 :: u64) = push_bit 16 (mask 4)"
  by (simp_all add: mask_eq_exp_minus_1 push_bit_eq_mult)

lemma bit_ranges:
  fixes i a :: nat
  assumes "a + b = 32"
  obtains "i < a" | j where "i = a + j" "j < b" | j where "i = 32 + j"
proof (cases "i < a")
  case False
  then obtain j where j: "i = a + j" by (metis le_iff_add not_less)
  show ?thesis
  proof (cases "j < b")
    case False
    then have "i = 32 + (j - b)" using j assms by simp
    then show ?thesis by (rule that)
  qed (use j that in blast)
qed (use that in blast)

lemma gate_offset_set:
  "gate_offset (idt (set_idt_gate_flags n handler flags d) n) = handler"
proof (rule bit_word_eqI)
  fix i :: nat
  assume i: "i < LENGTH(64)"
  consider "i < 16" | j where "i = 16 + j" "j < 16" | j where "i = 32 + j"
    by (rule bit_ranges [of 16 16 i]) (simp_all only: arith_simps)
  then show "bit (gate_offset (idt (set_idt_gate_flags n handler flags d) n)) i = bit handler i"
    using i unfolding gate_offset_def set_idt_gate_flags_def
    by cases (simp_all add: masks bit_simps)
qed

lemma tss_descriptor_base: "tss_base_of (tss_descriptor base 103) (drop_bit 32 base) = base"
proof (rule bit_word_eqI)
  have eq: "tss_descriptor base 103 = 103 OR push_bit 16 (take_bit 24 base) OR push_bit 40 0x89 OR
      push_bit 56 (take_bit 8 (drop_bit 24 base))"
    by (simp add: tss_descriptor_def masks(1,3) flip: take_bit_eq_mask)
  fix i :: nat
  assume i: "i < LENGTH(64)"
  consider "i < 24" | j where "i = 24 + j" "j < 8" | j where "i = 32 + j"
    by (rule bit_ranges [of 24 8 i]) (simp_all only: arith_simps)
  then show "bit (tss_base_of (tss_descriptor base 103) (drop_bit 32 base)) i = bit base i"
    using i unfolding tss_base_of_def eq masks(1,3) take_bit_eq_mask [symmetric]
    by cases (simp_all add: bit_simps)
qed

lemma descriptor_fields:
  fixes x y b c :: u64
  defines "D \<equiv> take_bit 7 x OR push_bit 16 (take_bit 24 b) OR push_bit 40 (take_bit 8 y) OR push_bit 56 (take_bit 8 c)"
  shows "(D AND mask 16) OR (drop_bit 32 D AND push_bit 16 (mask 4)) = take_bit 7 x"
    and "drop_bit 40 D AND mask 8 = take_bit 8 y"
proof -
  show "(D AND mask 16) OR (drop_bit 32 D AND push_bit 16 (mask 4)) = take_bit 7 x"
    unfolding D_def by (rule bit_word_eqI) (auto simp add: bit_simps)
  show "drop_bit 40 D AND mask 8 = take_bit 8 y"
    unfolding D_def by (rule bit_word_eqI) (auto simp add: bit_simps)
qed

lemma tss_descriptor_limit:
  "tss_limit_of (tss_descriptor base 103) = 103" "descriptor_access (tss_descriptor base 103) = 0x89"
proof -
  have eq: "tss_descriptor base 103 = take_bit 7 103 OR push_bit 16 (take_bit 24 base) OR
      push_bit 40 (take_bit 8 0x89) OR push_bit 56 (take_bit 8 (drop_bit 24 base))"
    by (simp add: tss_descriptor_def masks(1,3) flip: take_bit_eq_mask)
  show "tss_limit_of (tss_descriptor base 103) = 103"
    unfolding tss_limit_of_def eq masks(2,5) descriptor_fields(1) by simp
  show "descriptor_access (tss_descriptor base 103) = 0x89"
    unfolding descriptor_access_def eq masks(1) descriptor_fields(2) by simp
qed

section \<open>Properties\<close>

definition zero_descriptors :: descriptors where
  "zero_descriptors = \<lparr>idt = (\<lambda>_. \<lparr>offset_low = 0, selector = 0, ist = 0, gate_flags = 0, offset_mid = 0,
     offset_high = 0, gate_zero = 0\<rparr>), idtp_limit = 0, idtp_base = 0, gdt = replicate 7 0, gdtp_limit = 0,
     gdtp_base = 0, tss_rsp0 = 0, tss_iomap_base = 0\<rparr>"

text \<open>C34: The handler address that the processor reassembles from the three parts of an interrupt gate
  is the one that was stored, for all 64 bits; the other gates are left alone.\<close>

theorem gate_round_trip:
  "gate_offset (idt (set_idt_gate_flags n handler flags d) n) = handler \<and>
   (n' = n \<or> idt (set_idt_gate_flags n handler flags d) n' = idt d n')"
  using gate_offset_set [of n handler flags d] by (simp add: set_idt_gate_flags_def)

text \<open>C35: The base address that the processor reassembles from the two halves of the task-state
  descriptor in the GDT is the address of the kernel's task-state segment; the descriptor's limit is
  103 (the segment has 104 bytes) and its access byte 0x89, a present 64-bit TSS.\<close>

theorem tss_descriptor_reads_back:
  "tss_base_of (gdt (init_gdt_tss g base stack d) ! 5) (gdt (init_gdt_tss g base stack d) ! 6) = base \<and>
   tss_limit_of (gdt (init_gdt_tss g base stack d) ! 5) = 103 \<and>
   descriptor_access (gdt (init_gdt_tss g base stack d) ! 5) = 0x89"
  by (simp add: init_gdt_tss_def tss_descriptor_base tss_descriptor_limit)

end
