(* ===== verification/Kernel_State.thy ===== *)
theory Kernel_State
  imports Keyboard Registry Event_Ring Policy_Rules Page_Frames Process_Table Descriptors
begin

text \<open>
  The whole kernel's state: one field per source file's static variables. A kernel function is
  a computation of the state monad over it. Interrupts that do not occur inside an operation are
  operations of their own (\<open>timer_handler\<close>, the keyboard and trap handlers).
\<close>

record config_entry =
  config_key :: string
  config_value :: string

text \<open>\<open>con\<close>: \<^verbatim>\<open>vga.c\<close>, \<^verbatim>\<open>serial.c\<close> and the ports; \<open>ticks\<close>: \<^verbatim>\<open>timer.c\<close>;
  \<open>reg\<close>: \<^verbatim>\<open>object.c\<close>; \<open>jnl\<close>: \<^verbatim>\<open>event.c\<close>; \<open>pol\<close>: \<^verbatim>\<open>policy.c\<close>; \<open>cfg\<close>:
  \<^verbatim>\<open>config.c\<close>; \<open>mem\<close>: \<^verbatim>\<open>memory.c\<close>; \<open>usr\<close>: \<^verbatim>\<open>user.c\<close>; \<open>kbd\<close>:
  \<^verbatim>\<open>keyboard.c\<close>; \<open>dsc\<close>: \<^verbatim>\<open>idt.c\<close>. \<open>halted\<close> says that the processor has entered one
  of the endless \<^verbatim>\<open>hlt\<close> loops of \<^verbatim>\<open>panic.c\<close> or \<^verbatim>\<open>idt.c\<close>.\<close>

record kernel =
  con :: console
  ticks :: u64
  reg :: registry
  jnl :: journal
  pol :: policy_table
  cfg :: "config_entry list"
  mem :: memory
  usr :: user_table
  kbd :: keyboard
  dsc :: descriptors
  halted :: bool

type_synonym 'a op = "(kernel, 'a) state"

text \<open>The static storage when \<^verbatim>\<open>kernel_main\<close> is entered: \<^verbatim>\<open>.bss\<close> cleared by
  \<^verbatim>\<open>zero_bss\<close>, \<^verbatim>\<open>.data\<close> with its initialisers; the physical memory is whatever the loader
  left.\<close>

text \<open>The static initialiser of \<^verbatim>\<open>entries\<close> in \<^verbatim>\<open>config.c\<close>.\<close>

definition initial_entries :: "config_entry list" where
  "initial_entries =
    [\<lparr>config_key = ''/config/theme'', config_value = ''light''\<rparr>,
     \<lparr>config_key = ''/config/prompt'', config_value = ''>''\<rparr>]"

definition zero_memory :: "(u64 \<Rightarrow> u8) \<Rightarrow> memory" where
  "zero_memory physical = \<lparr>page_bitmap = (\<lambda>_. 0), usable_bitmap = (\<lambda>_. 0), usable_memory_bytes = 0,
     detected_entry_count = 0, heap_base = 0, heap_limit = 0, heap_ptr = 0, allocator_ready = False,
     kernel_cr3 = 0x1000, ram = physical, cr3 = 0x1000\<rparr>"

definition power_on :: "(u64 \<Rightarrow> u8) \<Rightarrow> kernel" where
  "power_on physical =
     \<lparr>con = zero_console, ticks = 0, reg = \<lparr>objects = [], next_id = 0\<rparr>, jnl = zero_journal,
      pol = \<lparr>rules = [], active_revision = 0, policy_loaded = False\<rparr>, cfg = initial_entries,
      mem = zero_memory physical,
      usr = \<lparr>processes = [], scheduler_index = 0, active_user_process = None, user_fault_contained = False\<rparr>,
      kbd = zero_keyboard, dsc = zero_descriptors, halted = False\<rparr>"

section \<open>Operations on one component\<close>

definition on_con :: "(console \<Rightarrow> console) \<Rightarrow> unit op" where
  "on_con f = modify (\<lambda>k. k\<lparr>con := f (con k)\<rparr>)"

definition on_reg :: "(registry \<Rightarrow> registry) \<Rightarrow> unit op" where
  "on_reg f = modify (\<lambda>k. k\<lparr>reg := f (reg k)\<rparr>)"

definition on_jnl :: "(journal \<Rightarrow> journal) \<Rightarrow> unit op" where
  "on_jnl f = modify (\<lambda>k. k\<lparr>jnl := f (jnl k)\<rparr>)"

definition on_pol :: "(policy_table \<Rightarrow> policy_table) \<Rightarrow> unit op" where
  "on_pol f = modify (\<lambda>k. k\<lparr>pol := f (pol k)\<rparr>)"

definition on_mem :: "(memory \<Rightarrow> memory) \<Rightarrow> unit op" where
  "on_mem f = modify (\<lambda>k. k\<lparr>mem := f (mem k)\<rparr>)"

definition on_usr :: "(user_table \<Rightarrow> user_table) \<Rightarrow> unit op" where
  "on_usr f = modify (\<lambda>k. k\<lparr>usr := f (usr k)\<rparr>)"

definition on_cfg :: "(config_entry list \<Rightarrow> config_entry list) \<Rightarrow> unit op" where
  "on_cfg f = modify (\<lambda>k. k\<lparr>cfg := f (cfg k)\<rparr>)"

lemmas on_defs = on_con_def on_reg_def on_jnl_def on_pol_def on_mem_def on_usr_def on_cfg_def

text \<open>\<^verbatim>\<open>printf\<close> and the serial line, as kernel operations.\<close>

definition kprintf :: "string \<Rightarrow> farg list \<Rightarrow> unit op" where
  "kprintf format args = on_con (printf format args)"

definition kserial :: "string \<Rightarrow> unit op" where
  "kserial s = on_con (serial_write s)"

text \<open>\<^verbatim>\<open>timer.c\<close>.\<close>

definition timer_handler :: "unit op" where
  "timer_handler = do {
     modify (\<lambda>k. k\<lparr>ticks := ticks k + 1\<rparr>);
     on_con (outb 0x20 0x20)
   }"

text \<open>\<^verbatim>\<open>keyboard_handler\<close>, drawing on the kernel's console.\<close>

definition keyboard_interrupt :: "u8 \<Rightarrow> unit op" where
  "keyboard_interrupt scancode =
     modify (\<lambda>k. let kb = keyboard_handler scancode ((kbd k)\<lparr>display := con k\<rparr>)
                 in k\<lparr>kbd := kb, con := display kb\<rparr>)"

text \<open>\<^verbatim>\<open>panic.c\<close>.\<close>

definition panic_impl :: "string \<Rightarrow> string \<Rightarrow> u32 \<Rightarrow> unit op" where
  "panic_impl message file line = do {
     kserial ''KERNEL PANIC: '';
     kserial message;
     kserial [CHR 0x0D, CHR 0x0A];
     on_con (vga_set_color 0x0C);
     kprintf ([CHR 0x0A] @ ''KERNEL PANIC'' @ [CHR 0x0A] @ ''%s'' @ [CHR 0x0A] @ ''%s:%d'' @ [CHR 0x0A])
       [FStr message, FStr file, FInt line];
     modify (\<lambda>k. k\<lparr>halted := True\<rparr>)
   }"

section \<open>What these leave alone\<close>

text \<open>Everything but the console, the registry and the journal, with the policy in force for the
  policy table: what recording an event, registering an object, printing, or consulting the
  policy never touches.\<close>

definition core :: "kernel \<Rightarrow> policy_table \<times> config_entry list \<times> memory \<times> user_table \<times> keyboard \<times> descriptors \<times> bool \<times> u64" where
  "core k = (in_force (pol k), cfg k, mem k, usr k, kbd k, dsc k, halted k, ticks k)"

lemma core_eqD:
  assumes "core k' = core k"
  shows "in_force (pol k') = in_force (pol k)" "cfg k' = cfg k" "mem k' = mem k" "usr k' = usr k" "kbd k' = kbd k"
    "dsc k' = dsc k" "halted k' = halted k" "ticks k' = ticks k"
  using assms by (simp_all add: core_def)

lemma frame_core:
  assumes "frame core m"
  shows "frame (\<lambda>k. in_force (pol k)) m" "frame cfg m" "frame mem m" "frame usr m" "frame kbd m" "frame dsc m" "frame halted m"
  using assms by (auto simp: frame_def dest: core_eqD)

lemma exec_on [simp]:
  "exec (on_con f) k = k\<lparr>con := f (con k)\<rparr>" "exec (on_reg g) k = k\<lparr>reg := g (reg k)\<rparr>"
  "exec (on_jnl h) k = k\<lparr>jnl := h (jnl k)\<rparr>" "exec (on_pol p) k = k\<lparr>pol := p (pol k)\<rparr>"
  "exec (on_mem m) k = k\<lparr>mem := m (mem k)\<rparr>" "exec (on_usr u) k = k\<lparr>usr := u (usr k)\<rparr>"
  "exec (on_cfg c) k = k\<lparr>cfg := c (cfg k)\<rparr>"
  by (simp_all add: on_defs)

lemma exec_print [simp]:
  "exec (kprintf format args) k = k\<lparr>con := printf format args (con k)\<rparr>"
  "exec (kserial s) k = k\<lparr>con := serial_write s (con k)\<rparr>"
  by (simp_all add: kprintf_def kserial_def)

lemma core_on [simp]:
  "core (k\<lparr>con := c\<rparr>) = core k" "core (k\<lparr>reg := r\<rparr>) = core k" "core (k\<lparr>jnl := j\<rparr>) = core k"
  by (simp_all add: core_def)

lemma frame_output [frame_intro]:
  "frame core (on_con f)" "frame core (on_reg g)" "frame core (on_jnl h)"
  "frame core (kprintf format args)" "frame core (kserial s)"
  by (simp_all add: frame_def)

lemma frame_print [frame_intro]:
  "frame reg (kprintf format args)" "frame jnl (kprintf format args)"
  "frame reg (kserial s)" "frame jnl (kserial s)"
  by (simp_all add: frame_def)

end
