(* ===== verification/Journal.thy ===== *)
theory Journal
  imports Kernel_State
begin

text \<open>
  Recording events (\<^verbatim>\<open>kernel/event.c\<close>) and the operations of \<^verbatim>\<open>kernel/object.c\<close> that
  record: an event takes the ids and the revision of its objects from the registry and its time
  from the clock, goes into the ring, moves the end of its transaction and is mirrored on the
  serial line. Transactions are events and objects of their own.
\<close>

section \<open>Recording\<close>

text \<open>The fields that \<^verbatim>\<open>event_record_kind\<close> assigns.\<close>

definition make_event ::
  "kernel \<Rightarrow> string \<Rightarrow> string \<Rightarrow> string \<Rightarrow> event_result \<Rightarrow> u64 \<Rightarrow> string \<Rightarrow> string \<Rightarrow> system_event" where
  "make_event k actor target operation result parent policy kind =
     \<lparr>ev_sequence = next_sequence (jnl k), ev_timestamp = ticks k, ev_parent_event = parent,
      ev_transaction_id = current_transaction (jnl k),
      ev_actor_object_id = object_id (reg k) actor, ev_target_object_id = object_id (reg k) target,
      ev_target_revision = object_revision (reg k) target,
      ev_kind = copy_field 24 (Some kind), ev_actor = copy_field EVENT_LABEL_SIZE (Some actor),
      ev_target = copy_field EVENT_LABEL_SIZE (Some target),
      ev_operation = copy_field EVENT_LABEL_SIZE (Some operation),
      ev_policy_decision = copy_field EVENT_LABEL_SIZE (Some policy), ev_result = result\<rparr>"

text \<open>The ring, the counter, and \<^verbatim>\<open>transaction->end_event\<close>.\<close>

definition record_event :: "system_event \<Rightarrow> journal \<Rightarrow> journal" where
  "record_event event j =
     (let j = (ring_push event j)\<lparr>next_sequence := next_sequence j + 1\<rparr>
      in case transaction_find j (ev_transaction_id event) of
           None \<Rightarrow> j
         | Some i \<Rightarrow> update_transaction i (\<lambda>t. t\<lparr>tx_end_event := ev_sequence event\<rparr>) j)"

text \<open>The line on the serial port.\<close>

definition serial_event :: "system_event \<Rightarrow> console \<Rightarrow> console" where
  "serial_event event c =
     (let c = serial_write_decimal (ev_sequence event) (serial_write ''event seq='' c);
          c = serial_write_decimal (ev_transaction_id event) (serial_write '' tx='' c);
          c = serial_write (ev_kind event) (serial_write '' kind='' c);
          c = serial_write_decimal (ucast (ev_actor_object_id event)) (serial_write '' actor#='' c);
          c = serial_write_decimal (ucast (ev_target_object_id event)) (serial_write '' target#='' c);
          c = serial_write_decimal (ev_target_revision event) (serial_write '' target_rev='' c);
          c = serial_write_decimal (ev_parent_event event) (serial_write '' parent='' c);
          c = serial_write (ev_actor event) (serial_write '' actor='' c);
          c = serial_write (ev_target event) (serial_write '' target='' c);
          c = serial_write (ev_operation event) (serial_write '' op='' c);
          c = serial_write (result_name (ev_result event)) (serial_write '' result='' c);
          c = serial_write (ev_policy_decision event) (serial_write '' policy='' c)
      in serial_write [CHR 0x0D, CHR 0x0A] c)"

definition event_record_kind ::
  "string \<Rightarrow> string \<Rightarrow> string \<Rightarrow> event_result \<Rightarrow> u64 \<Rightarrow> string \<Rightarrow> string \<Rightarrow> u64 op" where
  "event_record_kind actor target operation result parent policy kind = do {
     event \<leftarrow> gets (\<lambda>k. make_event k actor target operation result parent policy kind);
     on_jnl (record_event event);
     on_con (serial_event event);
     return (ev_sequence event)
   }"

definition event_record :: "string \<Rightarrow> string \<Rightarrow> string \<Rightarrow> event_result \<Rightarrow> u64 \<Rightarrow> string \<Rightarrow> u64 op" where
  "event_record actor target operation result parent policy =
     event_record_kind actor target operation result parent policy ''action''"

definition event_current :: "u64 op" where
  "event_current = gets (\<lambda>k. current_sequence (jnl k))"

definition set_current :: "u64 \<Rightarrow> unit op" where
  "set_current sequence = on_jnl (event_set_current sequence)"

definition set_transaction :: "u64 \<Rightarrow> unit op" where
  "set_transaction sequence = on_jnl (event_set_transaction sequence)"

definition event_current_transaction :: "u64 op" where
  "event_current_transaction = gets (\<lambda>k. current_transaction (jnl k))"

section \<open>Objects\<close>

definition register :: "string \<Rightarrow> string \<Rightarrow> u32 \<Rightarrow> string \<Rightarrow> u64 \<Rightarrow> u32 op" where
  "register type name parent_id state created_event = do {
     id \<leftarrow> gets (\<lambda>k. fst (object_register type name parent_id state created_event (reg k)));
     on_reg (\<lambda>r. snd (object_register type name parent_id state created_event r));
     return id
   }"

definition lookup_id :: "string \<Rightarrow> u32 op" where
  "lookup_id query = gets (\<lambda>k. object_id (reg k) query)"

text \<open>The state and the revision are written before the event is recorded, so that the event
  carries the new revision; \<^verbatim>\<open>last_event\<close> afterwards.\<close>

definition object_update_state :: "string \<Rightarrow> string \<Rightarrow> unit op" where
  "object_update_state name state = do {
     found \<leftarrow> gets (\<lambda>k. object_find (reg k) name);
     case found of
       None \<Rightarrow> return ()
     | Some i \<Rightarrow> do {
         on_reg (\<lambda>r. set_object_state i state (obj_last_event (objects r ! i)) r);
         object_name \<leftarrow> gets (\<lambda>k. obj_name (objects (reg k) ! i));
         parent \<leftarrow> event_current;
         event \<leftarrow> event_record_kind ''object'' object_name ''state_update'' EVENT_OK parent
                    ''allow:object-state'' ''state'';
         on_reg (\<lambda>r. r\<lparr>objects := (objects r)[i := (objects r ! i)\<lparr>obj_last_event := event\<rparr>]\<rparr>)
       }
   }"

section \<open>Transactions\<close>

definition transaction_begin :: "string \<Rightarrow> string \<Rightarrow> u64 \<Rightarrow> u64 op" where
  "transaction_begin actor target parent_event = do {
     count \<leftarrow> gets (\<lambda>k. length (transactions (jnl k)));
     if count \<ge> TRANSACTION_CAPACITY then return 0
     else do {
       previous_transaction \<leftarrow> gets (\<lambda>k. current_transaction (jnl k));
       transaction_id \<leftarrow> gets (\<lambda>k. next_sequence (jnl k));
       events_id \<leftarrow> lookup_id ''events'';
       register ''transaction'' (transaction_name transaction_id) events_id ''open'' parent_event;
       started_revision \<leftarrow> gets (\<lambda>k. object_revision (reg k) target);
       on_jnl (\<lambda>j. j\<lparr>transactions := transactions j @
         [\<lparr>tx_id = transaction_id, tx_parent_event = parent_event, tx_begin_event = transaction_id,
           tx_end_event = transaction_id, tx_started_revision = started_revision,
           tx_committed_revision = started_revision,
           tx_actor = copy_field EVENT_LABEL_SIZE (Some actor),
           tx_target = copy_field EVENT_LABEL_SIZE (Some target),
           tx_status = copy_field 16 (Some ''open'')\<rparr>]\<rparr>);
       set_transaction transaction_id;
       begin_event \<leftarrow> event_record_kind actor (transaction_name transaction_id) ''begin'' EVENT_OK
                        parent_event ''allow:transaction'' ''transaction'';
       set_transaction previous_transaction;
       return begin_event
     }
   }"

text \<open>The common body of \<^verbatim>\<open>transaction_commit\<close> and \<^verbatim>\<open>transaction_abort\<close>.\<close>

definition transaction_close ::
  "u64 \<Rightarrow> string \<Rightarrow> string \<Rightarrow> event_result \<Rightarrow> string \<Rightarrow> u64 op" where
  "transaction_close transaction_id status operation result policy = do {
     found \<leftarrow> gets (\<lambda>k. transaction_find (jnl k) transaction_id);
     case found of
       None \<Rightarrow> return 0
     | Some i \<Rightarrow> do {
         previous_transaction \<leftarrow> gets (\<lambda>k. current_transaction (jnl k));
         set_transaction transaction_id;
         committed_revision \<leftarrow> gets (\<lambda>k. object_revision (reg k) (tx_target (transactions (jnl k) ! i)));
         on_jnl (update_transaction i (\<lambda>t. t\<lparr>tx_committed_revision := committed_revision,
           tx_status := copy_field 16 (Some status)\<rparr>));
         transaction \<leftarrow> gets (\<lambda>k. transactions (jnl k) ! i);
         event \<leftarrow> event_record_kind (tx_actor transaction) (transaction_name transaction_id) operation
                    result (tx_end_event transaction) policy ''transaction'';
         on_reg (object_set_state_direct (transaction_name transaction_id) status event);
         set_transaction previous_transaction;
         return event
       }
   }"

definition transaction_commit :: "u64 \<Rightarrow> u64 op" where
  "transaction_commit transaction_id =
     transaction_close transaction_id ''committed'' ''commit'' EVENT_OK ''allow:transaction''"

definition transaction_abort :: "u64 \<Rightarrow> string \<Rightarrow> u64 op" where
  "transaction_abort transaction_id why =
     transaction_close transaction_id ''aborted'' ''abort'' EVENT_DENIED why"

section \<open>What recording leaves alone\<close>

lemma frame_record [frame_intro]:
  "frame core (event_record_kind a t op r p po kd)" "frame reg (event_record_kind a t op r p po kd)"
  "frame core (event_record a t op r p po)" "frame reg (event_record a t op r p po)"
  "frame core (lookup_id q)" "frame reg (lookup_id q)" "frame jnl (lookup_id q)" "frame core event_current" "frame reg event_current" "frame jnl event_current"
  "frame core (set_current s)" "frame reg (set_current s)"
  "frame core (set_transaction s)" "frame reg (set_transaction s)"
  by (auto simp: frame_def event_record_def event_record_kind_def event_current_def set_current_def
      set_transaction_def lookup_id_def)

lemma frame_objects [frame_intro]:
  "frame core (register ty n p st e)" "frame core (object_update_state n st)"
  unfolding register_def object_update_state_def by (intro frame_intro)+

lemma frame_register [frame_intro]: "frame jnl (register ty n p st e)"
  by (simp add: frame_def register_def)

lemma frame_transactions [frame_intro]:
  "frame core (transaction_begin a t p)" "frame core (transaction_close i st op r po)"
  "frame core (transaction_commit i)" "frame core (transaction_abort i why)"
  unfolding transaction_begin_def transaction_close_def transaction_commit_def transaction_abort_def Let_def
  by (intro frame_intro)+

section \<open>The serial line mirrors the journal\<close>

definition event_line :: "system_event \<Rightarrow> string" where
  "event_line e =
     ''event seq='' @ decimal (unat (ev_sequence e)) @ '' tx='' @ decimal (unat (ev_transaction_id e)) @
     '' kind='' @ ev_kind e @ '' actor#='' @ decimal (unat (ev_actor_object_id e)) @
     '' target#='' @ decimal (unat (ev_target_object_id e)) @
     '' target_rev='' @ decimal (unat (ev_target_revision e)) @
     '' parent='' @ decimal (unat (ev_parent_event e)) @ '' actor='' @ ev_actor e @
     '' target='' @ ev_target e @ '' op='' @ ev_operation e @
     '' result='' @ result_name (ev_result e) @ '' policy='' @ ev_policy_decision e @
     [CHR 0x0D, CHR 0x0A]"

lemma serial_text_event: "serial_text (serial_event e c) = serial_text c @ event_line e"
proof -
  have "unat (ucast (w :: u32) :: u64) = unat w" for w
    using unsigned_less [of w, where ?'a = nat] by (simp add: unsigned_ucast_eq take_bit_nat_eq_self)
  then show ?thesis
    by (simp add: serial_event_def event_line_def Let_def)
qed

lemma exec_record:
  "exec (event_record_kind a t op r p po kd) k =
     k\<lparr>jnl := record_event (make_event k a t op r p po kd) (jnl k),
       con := serial_event (make_event k a t op r p po kd) (con k)\<rparr>"
  "ret (event_record_kind a t op r p po kd) k = next_sequence (jnl k)"
  by (simp_all add: event_record_kind_def make_event_def)

section \<open>The journal after an event\<close>

lemma ring_push_rest [simp]:
  "next_sequence (ring_push e j) = next_sequence j"
  "current_sequence (ring_push e j) = current_sequence j"
  "current_transaction (ring_push e j) = current_transaction j"
  "transactions (ring_push e j) = transactions j"
  by (simp_all add: ring_push_def Let_def)

lemma update_transaction_rest [simp]:
  "entries (update_transaction i f j) = entries j" "first (update_transaction i f j) = first j"
  "count (update_transaction i f j) = count j" "next_sequence (update_transaction i f j) = next_sequence j"
  "current_sequence (update_transaction i f j) = current_sequence j"
  "current_transaction (update_transaction i f j) = current_transaction j"
  by (simp_all add: update_transaction_def)

text \<open>The ring depends on three fields only.\<close>

lemma ring_cong:
  assumes "entries j' = entries j" "first j' = first j" "count j' = count j"
  shows "events j' = events j" "ring_ok j' = ring_ok j"
    "next_sequence j' = next_sequence j \<Longrightarrow> consecutive j' = consecutive j"
proof -
  show ev: "events j' = events j" using assms by (simp add: events_def)
  show "ring_ok j' = ring_ok j" using assms by (simp add: ring_ok_def)
  show "next_sequence j' = next_sequence j \<Longrightarrow> consecutive j' = consecutive j"
    using assms by (simp add: consecutive_def ev)
qed

lemma record_event_fields [simp]:
  "next_sequence (record_event e j) = next_sequence j + 1"
  "current_sequence (record_event e j) = current_sequence j"
  "current_transaction (record_event e j) = current_transaction j"
  "count (record_event e j) = count (ring_push e j)"
  by (simp_all add: record_event_def Let_def split: option.split)

lemma record_event_ring:
  shows "events (record_event e j) = events (ring_push e j)"
    and "ring_ok (record_event e j) = ring_ok (ring_push e j)"
    and "consecutive (record_event e j) = consecutive ((ring_push e j)\<lparr>next_sequence := next_sequence j + 1\<rparr>)"
proof -
  let ?p = "(ring_push e j)\<lparr>next_sequence := next_sequence j + 1\<rparr>"
  have "entries (record_event e j) = entries ?p" "first (record_event e j) = first ?p"
    "count (record_event e j) = count ?p" "next_sequence (record_event e j) = next_sequence ?p"
    by (simp_all add: record_event_def Let_def split: option.split)
  note same = ring_cong [OF this(1-3)] this(4)
  have "entries ?p = entries (ring_push e j)" "first ?p = first (ring_push e j)"
    "count ?p = count (ring_push e j)" by simp_all
  note plain = ring_cong [OF this]
  show "events (record_event e j) = events (ring_push e j)" using same(1) plain(1) by simp
  show "ring_ok (record_event e j) = ring_ok (ring_push e j)" using same(2) plain(2) by simp
  show "consecutive (record_event e j) = consecutive ?p" using same(3,4) by blast
qed

end
