(* ===== verification/Causality.thy ===== *)
theory Causality
  imports Journal
begin

text \<open>
  The order of events: sequence numbers are consecutive, and every event was recorded after the
  event it names as its parent. \<open>traces E m f\<close> says that a kernel operation keeps this, given
  that the events \<open>E\<close> it is told about have been recorded, and that the events \<open>f\<close> of its
  result have been recorded. It holds up to the point where the 64-bit counter would wrap.
\<close>

definition causal_journal :: "journal \<Rightarrow> bool" where
  "causal_journal j \<longleftrightarrow>
     ring_ok j \<and> consecutive j \<and>
     (\<forall>e \<in> set (events j). ev_parent_event e < ev_sequence e \<and> ev_sequence e < next_sequence j) \<and>
     current_sequence j < next_sequence j \<and>
     (\<forall>t \<in> set (transactions j). tx_id t = tx_begin_event t \<and> tx_parent_event t < tx_begin_event t \<and>
        tx_begin_event t \<le> tx_end_event t \<and> tx_end_event t < next_sequence j)"

text \<open>While a transaction is being opened, its end is the event about to be recorded.\<close>

definition causal_upto :: "journal \<Rightarrow> bool" where
  "causal_upto j \<longleftrightarrow>
     ring_ok j \<and> consecutive j \<and>
     (\<forall>e \<in> set (events j). ev_parent_event e < ev_sequence e \<and> ev_sequence e < next_sequence j) \<and>
     current_sequence j < next_sequence j \<and>
     (\<forall>t \<in> set (transactions j). tx_id t = tx_begin_event t \<and> tx_parent_event t < tx_begin_event t \<and>
        tx_begin_event t \<le> tx_end_event t \<and> tx_end_event t \<le> next_sequence j)"

lemma causal_upto: "causal_journal j \<Longrightarrow> causal_upto j"
  unfolding causal_journal_def causal_upto_def by (auto intro: less_imp_le)

definition causal :: "kernel \<Rightarrow> bool" where
  "causal k \<longleftrightarrow> causal_journal (jnl k)"

definition recorded :: "u64 set \<Rightarrow> kernel \<Rightarrow> bool" where
  "recorded E k \<longleftrightarrow> (\<forall>e \<in> E. e < next_sequence (jnl k))"

text \<open>Every event costs at least one character on the serial line, so the characters sent bound the
  events recorded, however often the counter has wrapped.\<close>

definition sent :: "kernel \<Rightarrow> nat" where
  "sent k = length (serial_text (con k))"

definition extends :: "'a list \<Rightarrow> 'a list \<Rightarrow> bool" where
  "extends xs ys \<longleftrightarrow> (\<exists>zs. ys = xs @ zs)"

lemma extends_refl [simp]: "extends xs xs"
  by (simp add: extends_def)

lemma extends_append [simp]: "extends xs (xs @ zs)"
  by (simp add: extends_def)

lemma extends_trans: "extends xs ys \<Longrightarrow> extends ys zs \<Longrightarrow> extends xs zs"
  by (auto simp: extends_def)

text \<open>Transactions are only added; what identifies them never changes.\<close>

definition tx_identity :: "transaction_record \<Rightarrow> u64 \<times> u64 \<times> u64 \<times> string \<times> string" where
  "tx_identity t = (tx_id t, tx_parent_event t, tx_begin_event t, tx_actor t, tx_target t)"

definition tx_ledger :: "journal \<Rightarrow> (u64 \<times> u64 \<times> u64 \<times> string \<times> string) list" where
  "tx_ledger j = map tx_identity (transactions j)"

lemma tx_ledger_update:
  assumes "\<And>t. tx_identity (f t) = tx_identity t"
  shows "tx_ledger (update_transaction i f j) = tx_ledger j"
proof (cases "i < length (transactions j)")
  case True
  then show ?thesis
    by (simp add: tx_ledger_def update_transaction_def map_update assms list_update_same_conv)
qed (simp add: tx_ledger_def update_transaction_def list_update_beyond)

lemma tx_ledger_ring [simp]: "tx_ledger (ring_push e j) = tx_ledger j"
  "tx_ledger (j\<lparr>next_sequence := n\<rparr>) = tx_ledger j" "tx_ledger (j\<lparr>current_sequence := n\<rparr>) = tx_ledger j"
  "tx_ledger (j\<lparr>current_transaction := n\<rparr>) = tx_ledger j"
  by (simp_all add: tx_ledger_def)

lemma tx_ledger_record [simp]: "tx_ledger (record_event e j) = tx_ledger j"
  by (simp add: record_event_def Let_def tx_ledger_update tx_identity_def split: option.split)

definition later :: "kernel \<Rightarrow> kernel \<Rightarrow> nat \<Rightarrow> bool" where
  "later k k' n \<longleftrightarrow> next_sequence (jnl k') = next_sequence (jnl k) + word_of_nat n \<and>
     sent k + n \<le> sent k' \<and> (cursor_ok (con k) \<longrightarrow> cursor_ok (con k')) \<and>
     extends (tx_ledger (jnl k)) (tx_ledger (jnl k'))"

definition numbers_left :: "kernel \<Rightarrow> nat \<Rightarrow> bool" where
  "numbers_left k n \<longleftrightarrow> unat (next_sequence (jnl k)) + n < 2 ^ 64"

definition has_event :: "kernel \<Rightarrow> u64 \<Rightarrow> bool" where
  "has_event k e \<longleftrightarrow> e < next_sequence (jnl k)"

abbreviation traces :: "u64 set \<Rightarrow> 'a op \<Rightarrow> ('a \<Rightarrow> u64 set) \<Rightarrow> bool" where
  "traces \<equiv> tracked later numbers_left causal has_event"

named_theorems trace_intro "introduction rules: an operation keeps the order of events"

lemma unat_add_nat: "unat (w :: u64) + n < 2 ^ 64 \<Longrightarrow> unat (w + word_of_nat n) = unat w + n"
  by (simp add: unat_word_ariths(1) unat_of_nat take_bit_eq_mod)

interpretation event_ledger: ledger later numbers_left causal has_event
proof
  show "numbers_left s a \<and> numbers_left t b" if "numbers_left s (a + b)" "later s t a" for s t a b
    using that unat_add_nat [of "next_sequence (jnl s)" a]
    by (simp add: numbers_left_def later_def)
  show "has_event t e" if "has_event s e" "later s t n" "numbers_left s n" for s t n e
    using that unat_add_nat [of "next_sequence (jnl s)" n]
    by (simp add: has_event_def later_def numbers_left_def word_less_nat_alt)
qed (auto simp: later_def intro: extends_trans)

lemmas traces_structure [trace_intro] = event_ledger.tracked_bind event_ledger.tracked_pure
  event_ledger.tracked_if event_ledger.tracked_option event_ledger.tracked_when
  event_ledger.tracked_for_each

text \<open>Operations under which the console only grows.\<close>

definition speaks :: "'a op \<Rightarrow> bool" where
  "speaks m \<longleftrightarrow> state_io_rel (\<lambda>k k'. console_grows (con k) (con k')) m"

named_theorems speak_intro "introduction rules: under an operation the console only grows"

interpretation speaking: evolution "\<lambda>k k'. console_grows (con k) (con k')"
  by unfold_locales (auto intro: growing.evo_refl growing.evo_trans)

lemma speaks_iff: "speaks m \<longleftrightarrow> (\<forall>k. console_grows (con k) (con (exec m k)))"
  by (simp add: speaks_def state_io_rel_exec)

lemma speaks_structure [speak_intro]:
  "speaks (return x)" "speaks (gets g)"
  "speaks m \<Longrightarrow> (\<And>x. speaks (f x)) \<Longrightarrow> speaks (m \<bind> f)"
  "(b \<Longrightarrow> speaks m) \<Longrightarrow> (\<not> b \<Longrightarrow> speaks m') \<Longrightarrow> speaks (if b then m else m')"
  "(\<And>x. x \<in> set xs \<Longrightarrow> speaks (h x)) \<Longrightarrow> speaks (for_each xs h)"
  unfolding speaks_def
  by (rule speaking.evolves_pure speaking.evolves_bind speaking.evolves_if speaking.evolves_for_each; assumption?)+

lemma speaks_branch [speak_intro]:
  "(b \<Longrightarrow> speaks u) \<Longrightarrow> speaks (cwhen b u)"
  "(v = None \<Longrightarrow> speaks m) \<Longrightarrow> (\<And>x. v = Some x \<Longrightarrow> speaks (f' x)) \<Longrightarrow>
     speaks (case v of None \<Rightarrow> m | Some x \<Rightarrow> f' x)"
  by (simp_all add: cwhen_def speaks_structure split: option.split)

lemma speaks_on [speak_intro]:
  "speaks (on_reg r)" "speaks (on_pol pp)" "speaks (on_mem m)" "speaks (on_usr u)" "speaks (on_cfg c)"
  "speaks (on_jnl j)"
  by (simp_all add: speaks_iff growing.evo_refl)

lemma speaks_on_con [speak_intro]: "sends f \<Longrightarrow> speaks (on_con f)"
  by (simp add: speaks_iff sends_def)

lemma speaks_print [speak_intro]: "speaks (kprintf format args)" "speaks (kserial s)"
  unfolding kprintf_def kserial_def by (rule speaks_on_con, rule sends_intro)+

declare sends_intro [speak_intro]

text \<open>What does not touch the journal records nothing.\<close>

lemma traces_quiet:
  assumes "frame jnl m" and "speaks m" and "\<And>x. f x \<subseteq> E"
  shows "traces E m f"
proof (rule event_ledger.tracked_step)
  fix k
  have j: "jnl (exec m k) = jnl k" by (rule frameD [OF assms(1)])
  show "later k (exec m k) 0" using assms(2) by (simp add: later_def j speaks_iff console_grows_def sent_def)
  assume "causal k" "\<forall>e \<in> E. has_event k e"
  then show "causal (exec m k) \<and> (\<forall>e \<in> f (ret m k). has_event (exec m k) e)"
    using assms(3) [of "ret m k"] by (auto simp: causal_def has_event_def j)
qed

lemma frame_jnl_on:
  "frame jnl (on_con c)" "frame jnl (on_reg r)" "frame jnl (on_pol pp)" "frame jnl (on_mem m)"
  "frame jnl (on_usr u)" "frame jnl (on_cfg c')"
  by (simp_all add: frame_def)

lemma traces_on_con [trace_intro]: "sends c \<Longrightarrow> traces E (on_con c) (\<lambda>_. {})"
  by (rule traces_quiet [OF frame_jnl_on(1) speaks_on_con]) simp_all

declare sends_intro [trace_intro]

lemma speaks_objects [speak_intro]: "speaks (register ty n p st e)" "speaks (lookup_id q)"
  unfolding register_def lookup_id_def by (rule speak_intro)+

lemma traces_output [trace_intro]:
  "traces E (on_reg r) (\<lambda>_. {})" "traces E (on_pol pp) (\<lambda>_. {})"
  "traces E (on_mem m) (\<lambda>_. {})" "traces E (on_usr u) (\<lambda>_. {})" "traces E (on_cfg c') (\<lambda>_. {})"
  "traces E (kprintf format args) (\<lambda>_. {})" "traces E (kserial s) (\<lambda>_. {})"
  "traces E (register ty n p st e) (\<lambda>_. {})" "traces E (lookup_id q) (\<lambda>_. {})"
  by (rule traces_quiet, (rule frame_jnl_on frame_print frame_register frame_record), rule speak_intro, simp)+

section \<open>The journal's operations\<close>

lemma traces_current [trace_intro]: "traces E event_current (\<lambda>e. {e})"
  by (rule event_ledger.tracked_step)
    (simp_all add: event_current_def causal_def causal_journal_def later_def has_event_def)

lemma traces_set_current [trace_intro]: "e \<in> E \<Longrightarrow> traces E (set_current e) (\<lambda>_. {})"
proof (rule event_ledger.tracked_step)
  fix k
  assume "e \<in> E" "causal k" "\<forall>e \<in> E. has_event k e"
  then show "causal (exec (set_current e) k) \<and> (\<forall>x \<in> {}. has_event (exec (set_current e) k) x)"
    using ring_cong [of "jnl (exec (set_current e) k)" "jnl k"]
    by (simp add: set_current_def causal_def causal_journal_def event_set_current_def has_event_def)
qed (simp add: set_current_def event_set_current_def later_def sent_def)

lemma traces_set_transaction [trace_intro]: "traces E (set_transaction e) (\<lambda>_. {})"
proof (rule event_ledger.tracked_step)
  fix k
  assume "causal k"
  then show "causal (exec (set_transaction e) k) \<and> (\<forall>x \<in> {}. has_event (exec (set_transaction e) k) x)"
    using ring_cong [of "jnl (exec (set_transaction e) k)" "jnl k"]
    by (simp add: set_transaction_def causal_def causal_journal_def event_set_transaction_def)
qed (simp add: set_transaction_def event_set_transaction_def later_def sent_def)

lemma record_event_transactions:
  assumes "t \<in> set (transactions (record_event e j))"
  shows "t \<in> set (transactions j) \<or>
    (\<exists>t' \<in> set (transactions j). t = t'\<lparr>tx_end_event := ev_sequence e\<rparr>)"
proof (cases "transaction_find j (ev_transaction_id e)")
  case None
  then show ?thesis
    using assms by (simp add: record_event_def Let_def transaction_find_def)
next
  case (Some i)
  then have "i < length (transactions j)"
    by (auto simp: transaction_find_def dest: find_index_SomeD)
  moreover have "t \<in> set ((transactions j)[i := (transactions j ! i)\<lparr>tx_end_event := ev_sequence e\<rparr>])"
    using assms Some by (simp add: record_event_def Let_def transaction_find_def update_transaction_def)
  ultimately show ?thesis
    using set_update_subset_insert nth_mem by fastforce
qed

lemma causal_record:
  assumes ok: "causal_upto j" and seq: "ev_sequence e = next_sequence j"
    and par: "ev_parent_event e < next_sequence j" and room: "unat (next_sequence j) + 1 < 2 ^ 64"
  shows "causal_journal (record_event e j)"
proof -
  have up: "w < next_sequence j + 1" if "w \<le> next_sequence j" for w
    using that room unat_add_nat [of "next_sequence j" 1] by (simp add: word_less_nat_alt word_le_nat_alt)
  have ring: "events (record_event e j) = last_n 128 (events j @ [e])"
    using ok events_ring_push by (simp add: record_event_ring causal_upto_def)
  then have sub: "set (events (record_event e j)) \<subseteq> insert e (set (events j))"
    using set_last_n [of 128 "events j @ [e]"] by simp
  have "ring_ok (record_event e j)" "consecutive (record_event e j)"
    using ok seq by (simp_all add: record_event_ring ring_push_ok consecutive_push causal_upto_def)
  moreover have "ev_parent_event e' < ev_sequence e' \<and> ev_sequence e' < next_sequence j + 1"
    if e: "e' \<in> set (events (record_event e j))" for e'
  proof -
    consider "e' = e" | "e' \<in> set (events j)" using e sub by blast
    then show ?thesis
    proof cases
      case 1
      then show ?thesis using seq par by (simp add: up)
    next
      case 2
      then have "ev_parent_event e' < ev_sequence e'" "ev_sequence e' < next_sequence j"
        using ok by (auto simp: causal_upto_def)
      then show ?thesis by (simp add: up less_imp_le)
    qed
  qed
  moreover have "tx_id t = tx_begin_event t \<and> tx_parent_event t < tx_begin_event t \<and>
      tx_begin_event t \<le> tx_end_event t \<and> tx_end_event t < next_sequence j + 1"
    if t: "t \<in> set (transactions (record_event e j))" for t
  proof -
    consider "t \<in> set (transactions j)"
      | t' where "t' \<in> set (transactions j)" "t = t'\<lparr>tx_end_event := next_sequence j\<rparr>"
      using record_event_transactions [OF t] seq by auto
    then show ?thesis
      using ok by cases (fastforce simp: causal_upto_def intro: up less_imp_le)+
  qed
  moreover have "current_sequence j < next_sequence j + 1"
    using ok by (auto simp: causal_upto_def intro: up less_imp_le)
  ultimately show ?thesis
    unfolding causal_journal_def by simp
qed

lemma cursor_ok_event [simp]: "cursor_ok (serial_event e c) = cursor_ok c"
  by (simp add: serial_event_def)

lemma sent_event: "Suc (sent k) \<le> sent (k\<lparr>jnl := j, con := serial_event e (con k)\<rparr>)"
  "Suc (sent k) \<le> sent (k\<lparr>reg := r, jnl := j, con := serial_event e (con k)\<rparr>)"
  "Suc (sent k) \<le> sent (k\<lparr>jnl := j, reg := r, con := serial_event e (con k)\<rparr>)"
  by (simp_all add: sent_def serial_text_event event_line_def)

lemma traces_record_kind [trace_intro]:
  assumes "p \<in> E"
  shows "traces E (event_record_kind a t op r p po kd) (\<lambda>e. {e})"
  unfolding tracked_def
proof (intro allI exI [of _ 1] conjI impI)
  fix k
  show "later k (exec (event_record_kind a t op r p po kd) k) 1"
    by (simp add: exec_record later_def sent_event)
  assume k: "numbers_left k 1 \<and> causal k \<and> (\<forall>e \<in> E. has_event k e)"
  then show "causal (exec (event_record_kind a t op r p po kd) k)"
    using assms
    by (simp add: causal_def exec_record make_event_def causal_record causal_upto has_event_def
        numbers_left_def)
  show "\<forall>e \<in> {ret (event_record_kind a t op r p po kd) k}.
      has_event (exec (event_record_kind a t op r p po kd) k) e"
    using k unat_add_nat [of "next_sequence (jnl k)" 1]
    by (simp add: exec_record word_less_nat_alt has_event_def numbers_left_def)
qed

lemma traces_record [trace_intro]:
  "p \<in> E \<Longrightarrow> traces E (event_record a t op r p po) (\<lambda>e. {e})"
  by (simp add: event_record_def traces_record_kind)

lemma traces_update_state [trace_intro]: "traces E (object_update_state n st) (\<lambda>_. {})"
  unfolding object_update_state_def by (rule trace_intro | simp; fail)+

section \<open>Transactions\<close>

text \<open>What opening and closing a transaction do, in one equation each.\<close>

definition open_transaction :: "kernel \<Rightarrow> string \<Rightarrow> string \<Rightarrow> u64 \<Rightarrow> registry \<Rightarrow> transaction_record" where
  "open_transaction k actor target parent r =
     \<lparr>tx_id = next_sequence (jnl k), tx_parent_event = parent, tx_begin_event = next_sequence (jnl k),
      tx_end_event = next_sequence (jnl k), tx_started_revision = object_revision r target,
      tx_committed_revision = object_revision r target, tx_actor = take 47 actor,
      tx_target = take 47 target, tx_status = ''open''\<rparr>"

lemma exec_transaction_begin:
  fixes k :: kernel and actor target :: string and parent :: u64
  assumes room: "length (transactions (jnl k)) < TRANSACTION_CAPACITY"
  defines "name \<equiv> transaction_name (next_sequence (jnl k))"
  defines "r \<equiv> snd (object_register ''transaction'' name (object_id (reg k) ''events'') ''open'' parent (reg k))"
  defines "j \<equiv> (jnl k)\<lparr>transactions := transactions (jnl k) @ [open_transaction k actor target parent r],
    current_transaction := next_sequence (jnl k)\<rparr>"
  defines "e \<equiv> make_event (k\<lparr>reg := r, jnl := j\<rparr>) actor name ''begin'' EVENT_OK parent
    ''allow:transaction'' ''transaction''"
  shows "exec (transaction_begin actor target parent) k =
      k\<lparr>reg := r, jnl := (record_event e j)\<lparr>current_transaction := current_transaction (jnl k)\<rparr>,
        con := serial_event e (con k)\<rparr>"
    and "ret (transaction_begin actor target parent) k = next_sequence (jnl k)"
  using room
  by (simp_all add: transaction_begin_def register_def lookup_id_def set_transaction_def event_set_transaction_def
      exec_record name_def r_def j_def e_def open_transaction_def)

lemma transaction_begin_full:
  assumes "\<not> length (transactions (jnl k)) < TRANSACTION_CAPACITY"
  shows "exec (transaction_begin actor target parent) k = k"
    and "ret (transaction_begin actor target parent) k = 0"
  using assms by (simp_all add: transaction_begin_def)

definition closing_journal :: "kernel \<Rightarrow> nat \<Rightarrow> u64 \<Rightarrow> string \<Rightarrow> journal" where
  "closing_journal k i transaction_id status =
     update_transaction i
       (\<lambda>t. t\<lparr>tx_committed_revision := object_revision (reg k) (tx_target (transactions (jnl k) ! i)),
             tx_status := take 15 status\<rparr>)
       ((jnl k)\<lparr>current_transaction := transaction_id\<rparr>)"

lemma exec_transaction_close:
  fixes k :: kernel and status operation policy :: string and result :: event_result
  assumes found: "transaction_find (jnl k) transaction_id = Some i"
  defines "j \<equiv> closing_journal k i transaction_id status"
  defines "t \<equiv> transactions (jnl k) ! i"
  defines "e \<equiv> make_event (k\<lparr>jnl := j\<rparr>) (tx_actor t) (transaction_name transaction_id) operation
    result (tx_end_event t) policy ''transaction''"
  shows "exec (transaction_close transaction_id status operation result policy) k =
      k\<lparr>jnl := (record_event e j)\<lparr>current_transaction := current_transaction (jnl k)\<rparr>,
        reg := object_set_state_direct (transaction_name transaction_id) status (next_sequence (jnl k)) (reg k),
        con := serial_event e (con k)\<rparr>"
    and "ret (transaction_close transaction_id status operation result policy) k = next_sequence (jnl k)"
proof -
  have "i < length (transactions (jnl k))"
    using found by (auto simp: transaction_find_def dest: find_index_SomeD)
  then show "exec (transaction_close transaction_id status operation result policy) k =
      k\<lparr>jnl := (record_event e j)\<lparr>current_transaction := current_transaction (jnl k)\<rparr>,
        reg := object_set_state_direct (transaction_name transaction_id) status (next_sequence (jnl k)) (reg k),
        con := serial_event e (con k)\<rparr>"
    and "ret (transaction_close transaction_id status operation result policy) k = next_sequence (jnl k)"
    using found
    by (simp_all add: transaction_close_def set_transaction_def event_set_transaction_def exec_record
        e_def j_def t_def closing_journal_def update_transaction_def)
qed

lemma transaction_close_missing:
  assumes "transaction_find (jnl k) transaction_id = None"
  shows "exec (transaction_close transaction_id status operation result policy) k = k"
    and "ret (transaction_close transaction_id status operation result policy) k = 0"
  using assms by (simp_all add: transaction_close_def)

lemma causal_same_ring:
  assumes "entries j' = entries j" "first j' = first j" "count j' = count j"
    and "next_sequence j' = next_sequence j" "current_sequence j' = current_sequence j"
  shows "causal_journal j' \<longleftrightarrow> causal_journal (j\<lparr>transactions := transactions j'\<rparr>)"
    and "causal_upto j' \<longleftrightarrow> causal_upto (j\<lparr>transactions := transactions j'\<rparr>)"
  using ring_cong [of j' j] ring_cong [of "j\<lparr>transactions := transactions j'\<rparr>" j] assms
  by (simp_all add: causal_journal_def causal_upto_def)

lemma causal_transaction_id [simp]: "causal_journal (j\<lparr>current_transaction := t\<rparr>) = causal_journal j"
  using causal_same_ring(1) [of "j\<lparr>current_transaction := t\<rparr>" j] by simp

lemma causal_transactions:
  assumes "causal_journal j" and "entries j' = entries j" "first j' = first j" "count j' = count j"
    and "next_sequence j' = next_sequence j" "current_sequence j' = current_sequence j"
    and "\<forall>t \<in> set (transactions j'). tx_id t = tx_begin_event t \<and> tx_parent_event t < tx_begin_event t \<and>
      tx_begin_event t \<le> tx_end_event t \<and> tx_end_event t \<le> next_sequence j"
  shows "causal_upto j'"
  using causal_upto [OF assms(1)] ring_cong [OF assms(2-4)] assms(5-7) by (simp add: causal_upto_def)

lemma traces_one:
  assumes "\<And>k. causal k \<Longrightarrow> \<forall>e \<in> E. has_event k e \<Longrightarrow> unat (next_sequence (jnl k)) + 1 < 2 ^ 64 \<Longrightarrow>
      causal (exec m k) \<and> (ret m k = 0 \<or> ret m k = next_sequence (jnl k))"
    and "\<And>k. (next_sequence (jnl (exec m k)) = next_sequence (jnl k) + 1 \<and> sent k + 1 \<le> sent (exec m k) \<and>
        (cursor_ok (con k) \<longrightarrow> cursor_ok (con (exec m k))) \<and>
        extends (tx_ledger (jnl k)) (tx_ledger (jnl (exec m k)))) \<or>
      (exec m k = k \<and> ret m k = 0)"
  shows "traces E m (\<lambda>r. {r})"
  unfolding tracked_def
proof
  fix k
  show "\<exists>n. later k (exec m k) n \<and>
      (numbers_left k n \<and> causal k \<and> (\<forall>e \<in> E. has_event k e) \<longrightarrow>
        causal (exec m k) \<and> (\<forall>e \<in> {ret m k}. has_event (exec m k) e))"
  proof (cases "exec m k = k \<and> ret m k = 0")
    case True
    have "0 < next_sequence (jnl k)" if "causal k"
      using that by (auto simp: causal_def causal_journal_def intro: order.strict_trans1 [OF word_zero_le])
    then show ?thesis using True by (intro exI [of _ 0]) (simp add: later_def has_event_def)
  next
    case False
    then have next1: "next_sequence (jnl (exec m k)) = next_sequence (jnl k) + 1" "sent k + 1 \<le> sent (exec m k)"
      "cursor_ok (con k) \<longrightarrow> cursor_ok (con (exec m k))"
      "extends (tx_ledger (jnl k)) (tx_ledger (jnl (exec m k)))"
      using assms(2) by blast+
    have "ret m k < next_sequence (jnl k) + 1"
      if "causal k" "\<forall>e \<in> E. has_event k e" "unat (next_sequence (jnl k)) + 1 < 2 ^ 64"
      using assms(1) [OF that] unat_add_nat [of "next_sequence (jnl k)" 1] that(3)
      by (auto simp: word_less_nat_alt)
    then show ?thesis
      using next1 assms(1) by (intro exI [of _ 1]) (simp add: later_def has_event_def numbers_left_def)
  qed
qed

lemma tx_ledger_open [simp]:
  "tx_ledger (j\<lparr>transactions := transactions j @ [t]\<rparr>) = tx_ledger j @ [tx_identity t]"
  "tx_ledger (j\<lparr>transactions := transactions j @ [t], current_transaction := n\<rparr>) = tx_ledger j @ [tx_identity t]"
  by (simp_all add: tx_ledger_def)

lemma tx_ledger_closing [simp]: "tx_ledger (closing_journal k i n st) = tx_ledger (jnl k)"
  by (simp add: closing_journal_def tx_ledger_update tx_identity_def)

lemma traces_begin [trace_intro]:
  assumes "p \<in> E"
  shows "traces E (transaction_begin a t p) (\<lambda>r. {r})"
proof (rule traces_one)
  fix k :: kernel
  let ?n = "next_sequence (jnl k)"
  show "(next_sequence (jnl (exec (transaction_begin a t p) k)) = ?n + 1 \<and>
        sent k + 1 \<le> sent (exec (transaction_begin a t p) k) \<and>
        (cursor_ok (con k) \<longrightarrow> cursor_ok (con (exec (transaction_begin a t p) k))) \<and>
        extends (tx_ledger (jnl k)) (tx_ledger (jnl (exec (transaction_begin a t p) k)))) \<or>
      exec (transaction_begin a t p) k = k \<and> ret (transaction_begin a t p) k = 0"
    using sent_event [of k]
    by (cases "length (transactions (jnl k)) < 32")
      (simp_all add: exec_transaction_begin transaction_begin_full)
  assume k: "causal k" "\<forall>e \<in> E. has_event k e" "unat ?n + 1 < 2 ^ 64"
  then have p: "p < ?n" using assms by (simp add: has_event_def)
  have "causal (exec (transaction_begin a t p) k)" if room: "length (transactions (jnl k)) < 32"
  proof -
    have "causal_upto ((jnl k)\<lparr>transactions := transactions (jnl k) @ [open_transaction k a t p r],
        current_transaction := ?n\<rparr>)" for r
      using k(1) p
      by (intro causal_transactions [of "jnl k"])
        (auto simp: causal_def causal_journal_def open_transaction_def intro: less_imp_le)
    from causal_record [OF this] show ?thesis
      unfolding exec_transaction_begin [OF room] causal_def
      using p k(3) by (simp add: make_event_def)
  qed
  then show "causal (exec (transaction_begin a t p) k) \<and>
      (ret (transaction_begin a t p) k = 0 \<or> ret (transaction_begin a t p) k = ?n)"
    using k(1) by (cases "length (transactions (jnl k)) < 32")
      (simp_all add: exec_transaction_begin(2) transaction_begin_full)
qed

lemma closing_fields [simp]:
  "next_sequence (closing_journal k i tid st) = next_sequence (jnl k)"
  "current_sequence (closing_journal k i tid st) = current_sequence (jnl k)"
  "current_transaction (closing_journal k i tid st) = tid"
  by (simp_all add: closing_journal_def)

lemma causal_closing:
  assumes "causal k" and "i < length (transactions (jnl k))"
  shows "causal_upto (closing_journal k i tid st)"
proof (rule causal_transactions [of "jnl k"])
  show "\<forall>t\<in>set (transactions (closing_journal k i tid st)). tx_id t = tx_begin_event t \<and>
      tx_parent_event t < tx_begin_event t \<and> tx_begin_event t \<le> tx_end_event t \<and>
      tx_end_event t \<le> next_sequence (jnl k)"
  proof
    fix t
    assume "t \<in> set (transactions (closing_journal k i tid st))"
    then obtain n where n: "n < length (transactions (jnl k))"
      "t = transactions (closing_journal k i tid st) ! n"
      by (auto simp: in_set_conv_nth closing_journal_def update_transaction_def)
    moreover have "tx_id t = tx_id (transactions (jnl k) ! n)"
      "tx_begin_event t = tx_begin_event (transactions (jnl k) ! n)"
      "tx_end_event t = tx_end_event (transactions (jnl k) ! n)"
      "tx_parent_event t = tx_parent_event (transactions (jnl k) ! n)"
      using n by (cases "n = i"; simp add: closing_journal_def update_transaction_def)+
    moreover have "transactions (jnl k) ! n \<in> set (transactions (jnl k))" using n(1) by simp
    ultimately obtain t' where "t' \<in> set (transactions (jnl k))" "tx_id t = tx_id t'"
      "tx_begin_event t = tx_begin_event t'" "tx_end_event t = tx_end_event t'"
      "tx_parent_event t = tx_parent_event t'" by blast
    then show "tx_id t = tx_begin_event t \<and> tx_parent_event t < tx_begin_event t \<and>
        tx_begin_event t \<le> tx_end_event t \<and> tx_end_event t \<le> next_sequence (jnl k)"
      using assms(1) by (auto simp: causal_def causal_journal_def intro: less_imp_le)
  qed
qed (use assms(1) in \<open>simp_all add: causal_def closing_journal_def\<close>)

lemma traces_close: "traces E (transaction_close tid st op r po) (\<lambda>r. {r})"
proof (rule traces_one)
  fix k :: kernel
  let ?n = "next_sequence (jnl k)" and ?m = "transaction_close tid st op r po"
  show "(next_sequence (jnl (exec ?m k)) = ?n + 1 \<and> sent k + 1 \<le> sent (exec ?m k) \<and>
        (cursor_ok (con k) \<longrightarrow> cursor_ok (con (exec ?m k))) \<and>
        extends (tx_ledger (jnl k)) (tx_ledger (jnl (exec ?m k)))) \<or>
      exec ?m k = k \<and> ret ?m k = 0"
    using sent_event [of k]
    by (cases "transaction_find (jnl k) tid")
      (simp_all add: exec_transaction_close transaction_close_missing)
  assume k: "causal k" "unat ?n + 1 < 2 ^ 64"
  have "causal (exec ?m k)" if found: "transaction_find (jnl k) tid = Some i" for i
  proof -
    have i: "i < length (transactions (jnl k))"
      using found by (auto simp: transaction_find_def dest: find_index_SomeD)
    then have "tx_end_event (transactions (jnl k) ! i) < ?n"
      using k(1) nth_mem [OF i] by (auto simp: causal_def causal_journal_def)
    then show ?thesis
      unfolding exec_transaction_close [OF found] causal_def
      using causal_record [OF causal_closing [OF k(1) i]] k(2) by (simp add: make_event_def)
  qed
  then show "causal (exec ?m k) \<and> (ret ?m k = 0 \<or> ret ?m k = ?n)"
    using k(1) by (cases "transaction_find (jnl k) tid")
      (simp_all add: exec_transaction_close(2) transaction_close_missing)
qed

lemma traces_commit_abort [trace_intro]:
  "traces E (transaction_commit tid) (\<lambda>r. {r})" "traces E (transaction_abort tid why) (\<lambda>r. {r})"
  by (simp_all add: transaction_commit_def transaction_abort_def traces_close)

section \<open>The registry as a ledger of ids\<close>

text \<open>The same for the registry: it only grows, and a parent id is one that was handed out.\<close>

definition enlarged :: "kernel \<Rightarrow> kernel \<Rightarrow> nat \<Rightarrow> bool" where
  "enlarged k k' n \<longleftrightarrow> length (objects (reg k')) = length (objects (reg k)) + n"

definition registry_sound :: "kernel \<Rightarrow> bool" where
  "registry_sound k \<longleftrightarrow> registry_ok (reg k)"

definition has_id :: "kernel \<Rightarrow> u32 \<Rightarrow> bool" where
  "has_id k i \<longleftrightarrow> unat i \<le> length (objects (reg k))"

abbreviation enrols :: "u32 set \<Rightarrow> 'a op \<Rightarrow> ('a \<Rightarrow> u32 set) \<Rightarrow> bool" where
  "enrols \<equiv> tracked enlarged (\<lambda>_ _. True) registry_sound has_id"

named_theorems enrol_intro "introduction rules: an operation keeps the registry well formed"

interpretation id_ledger: ledger enlarged "\<lambda>_ _. True" registry_sound has_id
  by unfold_locales (auto simp: enlarged_def has_id_def)

lemmas enrol_structure [enrol_intro] = id_ledger.tracked_bind id_ledger.tracked_pure
  id_ledger.tracked_if id_ledger.tracked_option id_ledger.tracked_when id_ledger.tracked_for_each

lemma enrols_quiet:
  assumes "frame reg m" and "\<And>x. f x \<subseteq> E"
  shows "enrols E m f"
proof (rule id_ledger.tracked_step)
  fix k
  have r: "reg (exec m k) = reg k" by (rule frameD [OF assms(1)])
  show "enlarged k (exec m k) 0" by (simp add: enlarged_def r)
  assume "registry_sound k" "\<forall>e \<in> E. has_id k e"
  then show "registry_sound (exec m k) \<and> (\<forall>e \<in> f (ret m k). has_id (exec m k) e)"
    using assms(2) [of "ret m k"] by (auto simp: registry_sound_def has_id_def r)
qed

lemma enrols_output [enrol_intro]:
  "enrols E (on_con c) (\<lambda>_. {})" "enrols E (on_jnl j) (\<lambda>_. {})" "enrols E (on_pol pp) (\<lambda>_. {})"
  "enrols E (on_mem m) (\<lambda>_. {})" "enrols E (on_usr u) (\<lambda>_. {})" "enrols E (on_cfg c') (\<lambda>_. {})"
  "enrols E (kprintf format args) (\<lambda>_. {})" "enrols E (kserial s) (\<lambda>_. {})"
  by (rule enrols_quiet; simp add: frame_def)+

lemma enrols_record [enrol_intro]:
  "enrols E (event_record_kind a t op r p po kd) (\<lambda>_. {})" "enrols E (event_record a t op r p po) (\<lambda>_. {})"
  "enrols E event_current (\<lambda>_. {})" "enrols E (set_current e) (\<lambda>_. {})"
  "enrols E (set_transaction e) (\<lambda>_. {})"
  by (rule enrols_quiet; simp add: frame_record)+

lemma enrols_on_reg:
  assumes "\<And>r. registry_ok r \<Longrightarrow> registry_ok (g r)" and "\<And>r. length (objects (g r)) = length (objects r)"
  shows "enrols E (on_reg g) (\<lambda>_. {})"
  by (rule id_ledger.tracked_step) (simp_all add: enlarged_def registry_sound_def assms)

lemma enrols_lookup [enrol_intro]: "enrols E (lookup_id q) (\<lambda>i. {i})"
  by (rule id_ledger.tracked_step)
    (simp_all add: lookup_id_def enlarged_def registry_sound_def has_id_def object_id_bound)

lemma register_id_bound:
  assumes "registry_ok r"
  shows "unat (fst (object_register ty n p st ev r)) \<le> length (objects (snd (object_register ty n p st ev r)))"
proof (rule object_register_cases [where r = r and name = n])
  fix i
  assume *: "length (objects r) < 128" "object_find r n = Some i"
  then have "obj_id (objects r ! i) = object_id r n" by (simp add: object_id_def)
  then show ?thesis using * object_id_bound [OF assms, of n] by (simp add: object_register_taken)
next
  assume *: "length (objects r) < 128" "object_find r n = None"
  then have "unat (next_id r) = Suc (length (objects r))"
    using assms unat_word_of_nat_small [of "Suc (length (objects r))", where ?'a = 32]
    by (simp add: registry_ok_def del: of_nat_Suc)
  then show ?thesis using * by (simp add: object_register_new)
qed (simp add: object_register_full)

lemma enrols_register [enrol_intro]:
  assumes "p \<in> E" and "length n < 48"
  shows "enrols E (register ty n p st ev) (\<lambda>i. {i})"
  unfolding tracked_def
proof
  fix k :: kernel
  obtain new where new: "objects (snd (object_register ty n p st ev (reg k))) = objects (reg k) @ new"
    using object_register_extends by blast
  then show "\<exists>m. enlarged k (exec (register ty n p st ev) k) m \<and>
      (True \<and> registry_sound k \<and> (\<forall>e \<in> E. has_id k e) \<longrightarrow>
        registry_sound (exec (register ty n p st ev) k) \<and>
        (\<forall>e \<in> {ret (register ty n p st ev) k}. has_id (exec (register ty n p st ev) k) e))"
    using assms register_id_bound [of "reg k" ty n p st ev] object_register_ok
    by (intro exI [of _ "length new"])
      (simp add: register_def enlarged_def registry_sound_def has_id_def)
qed

lemma set_last_event_ok: "registry_ok r \<Longrightarrow>
  registry_ok (r\<lparr>objects := (objects r)[i := (objects r ! i)\<lparr>obj_last_event := e\<rparr>]\<rparr>)"
proof (cases "i < length (objects r)")
  case True
  then have "map obj_name ((objects r)[i := (objects r ! i)\<lparr>obj_last_event := e\<rparr>]) = map obj_name (objects r)"
    by (simp add: map_update list_update_same_conv)
  moreover assume "registry_ok r"
  ultimately show ?thesis
    using True by (auto simp: registry_ok_def object_ok_def nth_list_update)
qed (simp add: list_update_beyond)

lemma enrols_update_state [enrol_intro]: "enrols E (object_update_state n st) (\<lambda>_. {})"
  unfolding object_update_state_def
  by (rule enrol_intro enrols_on_reg set_object_state_ok set_last_event_ok |
      simp add: set_object_state_objects)+

lemma length_transaction_name: "length (transaction_name t) < 48"
proof -
  have "unat t < 10 ^ 20"
    using unsigned_less [of t, where ?'a = nat] by simp
  then have "length (decimal (unat t)) \<le> 20"
    by (rule length_decimal) simp
  then show ?thesis by (simp add: transaction_name_eq)
qed

lemma enrols_begin [enrol_intro]: "enrols E (transaction_begin a t p) (\<lambda>_. {})"
  unfolding transaction_begin_def
  by (rule enrol_intro | simp add: length_transaction_name)+

lemma enrols_close: "enrols E (transaction_close i st op r po) (\<lambda>_. {})"
  unfolding transaction_close_def
  by (rule enrol_intro enrols_on_reg object_set_state_direct_ok |
      simp add: object_set_state_direct_def set_object_state_objects split: option.split)+

lemma enrols_commit_abort [enrol_intro]:
  "enrols E (transaction_commit i) (\<lambda>_. {})" "enrols E (transaction_abort i why) (\<lambda>_. {})"
  by (simp_all add: transaction_commit_def transaction_abort_def enrols_close)

section \<open>The life of a transaction\<close>

lemma transactions_record_event:
  assumes "transaction_find j (ev_transaction_id e) = Some i"
  shows "transactions (record_event e j) =
    (transactions j)[i := (transactions j ! i)\<lparr>tx_end_event := ev_sequence e\<rparr>]"
  using assms by (simp add: record_event_def Let_def transaction_find_def update_transaction_def)

lemma transaction_find_appended:
  assumes "causal k"
  shows "transaction_find ((jnl k)\<lparr>transactions := transactions (jnl k) @ [open_transaction k a t p r],
      current_transaction := c\<rparr>) (next_sequence (jnl k)) = Some (length (transactions (jnl k)))"
proof -
  have "tx_id t' \<noteq> next_sequence (jnl k)" if "t' \<in> set (transactions (jnl k))" for t'
    using assms that by (fastforce simp: causal_def causal_journal_def)
  then have "find_index (\<lambda>t'. tx_id t' = next_sequence (jnl k)) (transactions (jnl k)) = None"
    by (simp add: find_index_None)
  then show ?thesis
    by (simp add: transaction_find_def find_index_append open_transaction_def)
qed

lemma closing_journal_fields:
  "next_sequence (closing_journal k i n status) = next_sequence (jnl k)"
  "current_transaction (closing_journal k i n status) = n"
  by (simp_all add: closing_journal_def)

lemma transaction_find_closing:
  assumes "transaction_find (jnl k) n = Some i"
  shows "transaction_find (closing_journal k i n status) n = Some i"
proof -
  have "i < length (transactions (jnl k))"
    using assms by (auto simp: transaction_find_def dest: find_index_SomeD)
  then show ?thesis
    using assms by (simp add: transaction_find_def closing_journal_def update_transaction_def find_index_update)
qed

text \<open>A transaction stays findable, at the place it was appended at and with the identity it was given,
  whatever is recorded after it; closing it sets its status there.\<close>

lemma transaction_find_ledger: "transaction_find j n = find_index (\<lambda>x. fst x = n) (tx_ledger j)"
proof -
  have "find_index (\<lambda>x. fst x = n) (map tx_identity ts) = find_index (\<lambda>t. tx_id t = n) ts" for ts
    by (induction ts) (simp_all add: tx_identity_def)
  then show ?thesis by (simp add: transaction_find_def tx_ledger_def)
qed

lemma begin_ledger:
  assumes "length (transactions (jnl k)) < 32"
  shows "tx_ledger (jnl (exec (transaction_begin a t p) k)) =
    tx_ledger (jnl k) @ [(next_sequence (jnl k), p, next_sequence (jnl k), take 47 a, take 47 t)]"
  using exec_transaction_begin(1) [OF assms] by (simp add: tx_identity_def open_transaction_def)

lemma found_after_begin:
  assumes "causal k" and "length (transactions (jnl k)) < 32"
    and "extends (tx_ledger (jnl (exec (transaction_begin a t p) k))) (tx_ledger j)"
  shows "transaction_find j (next_sequence (jnl k)) = Some (length (transactions (jnl k)))"
    and "length (transactions (jnl k)) < length (transactions j)"
    and "tx_identity (transactions j ! length (transactions (jnl k))) =
      (next_sequence (jnl k), p, next_sequence (jnl k), take 47 a, take 47 t)"
proof -
  let ?n = "next_sequence (jnl k)" and ?i = "length (transactions (jnl k))"
  obtain zs where zs: "tx_ledger j = (tx_ledger (jnl k) @ [(?n, p, ?n, take 47 a, take 47 t)]) @ zs"
    using assms(3) unfolding begin_ledger [OF assms(2)] extends_def by blast
  have "\<forall>x \<in> set (tx_ledger (jnl k)). fst x \<noteq> ?n"
    using assms(1) by (fastforce simp: tx_ledger_def tx_identity_def causal_def causal_journal_def)
  then have "find_index (\<lambda>x. fst x = ?n) (tx_ledger (jnl k)) = None"
    by (simp add: find_index_None)
  moreover have len: "length (tx_ledger (jnl k)) = ?i" "length (tx_ledger j) = length (transactions j)"
    by (simp_all add: tx_ledger_def)
  ultimately show "transaction_find j ?n = Some ?i"
    by (simp add: transaction_find_ledger zs find_index_append)
  show lt: "?i < length (transactions j)"
    using len zs by simp
  have "tx_ledger j ! ?i = (?n, p, ?n, take 47 a, take 47 t)"
    using zs len(1) by (simp add: nth_append)
  then show "tx_identity (transactions j ! ?i) = (?n, p, ?n, take 47 a, take 47 t)"
    using lt by (simp add: tx_ledger_def)
qed

lemma close_status:
  assumes "transaction_find (jnl k) n = Some i"
  shows "tx_status (transactions (jnl (exec (transaction_close n st op r po) k)) ! i) = take 15 st"
    and "tx_ledger (jnl (exec (transaction_close n st op r po) k)) = tx_ledger (jnl k)"
    and "current_transaction (jnl (exec (transaction_close n st op r po) k)) = current_transaction (jnl k)"
proof -
  have i: "i < length (transactions (jnl k))"
    using assms by (auto simp: transaction_find_def dest: find_index_SomeD)
  let ?j = "closing_journal k i n st"
  have j: "i < length (transactions ?j)" "tx_status (transactions ?j ! i) = take 15 st"
    using i by (simp_all add: closing_journal_def update_transaction_def)
  have "tx_status (transactions (record_event e ?j) ! i) = take 15 st" for e
  proof (cases "transaction_find ?j (ev_transaction_id e)")
    case None
    then show ?thesis using j by (simp add: record_event_def Let_def transaction_find_def)
  next
    case (Some i')
    then show ?thesis using j by (cases "i' = i") (simp_all add: transactions_record_event)
  qed
  then show "tx_status (transactions (jnl (exec (transaction_close n st op r po) k)) ! i) = take 15 st"
    unfolding exec_transaction_close(1) [OF assms] by simp
  show "tx_ledger (jnl (exec (transaction_close n st op r po) k)) = tx_ledger (jnl k)"
    "current_transaction (jnl (exec (transaction_close n st op r po) k)) = current_transaction (jnl k)"
    unfolding exec_transaction_close(1) [OF assms] by simp_all
qed

section \<open>Properties\<close>

text \<open>The kernel after \<^verbatim>\<open>event_init\<close>, for the witnesses.\<close>

definition first_kernel :: kernel where
  "first_kernel = exec (on_jnl event_init) (power_on (\<lambda>_. 0))"

lemma first_kernel_causal: "causal first_kernel" "jnl first_kernel = event_init zero_journal"
  using zero_journal_start
  by (simp_all add: first_kernel_def causal_def causal_journal_def power_on_def)
    (simp_all add: event_init_def zero_journal_def)

text \<open>C8: Recording an event adds exactly it at the end of the journal (dropping the oldest of more than
  128), gives it the next number, the time, the running transaction and the ids and revision that
  its objects have at that moment, and sends exactly its line to the serial port.\<close>

theorem recording_appends:
  assumes "ring_ok (jnl k)"
  shows "let k' = exec (event_record_kind actor target operation result parent policy kind) k;
      e = \<lparr>ev_sequence = next_sequence (jnl k), ev_timestamp = ticks k, ev_parent_event = parent,
        ev_transaction_id = current_transaction (jnl k), ev_actor_object_id = object_id (reg k) actor,
        ev_target_object_id = object_id (reg k) target, ev_target_revision = object_revision (reg k) target,
        ev_kind = take 23 kind, ev_actor = take 47 actor, ev_target = take 47 target,
        ev_operation = take 47 operation, ev_policy_decision = take 47 policy, ev_result = result\<rparr>
    in ret (event_record_kind actor target operation result parent policy kind) k = ev_sequence e \<and>
       events (jnl k') = last_n 128 (events (jnl k) @ [e]) \<and>
       next_sequence (jnl k') = next_sequence (jnl k) + 1 \<and>
       serial_text (con k') = serial_text (con k) @ event_line e"
  using assms
  by (simp add: Let_def exec_record make_event_def record_event_ring events_ring_push serial_text_event)

theorem recording_appends_witness:
  "length (events (jnl (exec (event_record_kind ''boot'' ''kernel'' ''enter'' EVENT_OK 0 ''allow:boot'' ''action'')
     first_kernel))) = 1"
  using recording_appends [of first_kernel "''boot''" "''kernel''" "''enter''" EVENT_OK 0 "''allow:boot''" "''action''"]
  by (simp add: Let_def first_kernel_causal zero_journal_start last_n_short del: length_events)




text \<open>A state with one open transaction.\<close>

definition one_open :: kernel where
  "one_open = first_kernel\<lparr>jnl := (jnl first_kernel)\<lparr>next_sequence := 5, transactions :=
     [\<lparr>tx_id = 1, tx_parent_event = 0, tx_begin_event = 1, tx_end_event = 3, tx_started_revision = 0,
       tx_committed_revision = 0, tx_actor = ''shell'', tx_target = ''system'', tx_status = ''open''\<rparr>]\<rparr>\<rparr>"


end
