(* ===== verification/Policy.thy ===== *)
theory Policy
  imports Causality
begin

text \<open>
  The operations of \<^verbatim>\<open>kernel/policy.c\<close> that record events, register capability objects
  or print, and the interface through which the rest of the kernel asks for permission.
\<close>

section \<open>Operations\<close>

text \<open>\<^verbatim>\<open>if (!policy_loaded) policy_parse(base_policy_source);\<close>\<close>

definition ensure_loaded :: "unit op" where
  "ensure_loaded = on_pol in_force"

text \<open>The index stands for the pointer to the rule.\<close>

definition register_capability_object :: "nat \<Rightarrow> u32 \<Rightarrow> unit op" where
  "register_capability_object i policy_object = do {
     rule \<leftarrow> gets (\<lambda>k. rules (pol k) ! i);
     revision \<leftarrow> gets (\<lambda>k. active_revision (pol k));
     on_pol (\<lambda>p. p\<lparr>rules := (rules p)[i := rule\<lparr>rule_capability :=
       build_capability_name POLICY_FIELD_SIZE (rule_subject rule) (rule_operation rule) (rule_object rule)\<rparr>]\<rparr>);
     event \<leftarrow> event_current;
     register ''capability''
       (build_capability_name POLICY_FIELD_SIZE (rule_subject rule) (rule_operation rule) (rule_object rule))
       policy_object
       (build_capability_state POLICY_FIELD_SIZE revision (rule_allow rule) (rule_number rule)) event;
     return ()
   }"

definition policy_init :: "u64 \<Rightarrow> unit op" where
  "policy_init boot_event = do {
     system \<leftarrow> lookup_id ''system'';
     policy_object \<leftarrow> register ''policy'' ''policy/base.policy'' system ''loading'' boot_event;
     transaction \<leftarrow> transaction_begin ''policy'' ''policy/base.policy'' boot_event;
     set_current transaction;
     set_transaction transaction;
     on_pol (policy_parse base_policy_source);
     bootstrap_decision \<leftarrow> gets (\<lambda>k. format_decision (active_revision (pol k)) True ''policy-bootstrap'' 0);
     count \<leftarrow> gets (\<lambda>k. length (rules (pol k)));
     for_each [0..<count] (\<lambda>i. register_capability_object i policy_object);
     event_record_kind ''policy'' ''policy/base.policy'' ''load'' EVENT_OK boot_event bootstrap_decision ''state'';
     object_update_state ''policy/base.policy'' ''loaded'';
     transaction_commit transaction;
     set_transaction 0;
     set_current boot_event
   }"

definition policy_revision :: "u32 op" where
  "policy_revision = do { ensure_loaded; gets (\<lambda>k. active_revision (pol k)) }"

text \<open>An \<open>int\<close> argument of \<^verbatim>\<open>printf\<close> is the value truncated to 32 bits.\<close>

definition int_arg :: "u64 \<Rightarrow> farg" where
  "int_arg n = FInt (ucast n)"

abbreviation (input) newline :: string where "newline \<equiv> [CHR 0x0A]"

definition policy_show :: "unit op" where
  "policy_show = do {
     ensure_loaded;
     p \<leftarrow> gets pol;
     kprintf (''policy/base.policy revision=%d rules=%d'' @ newline)
       [FInt (active_revision p), FInt (word_of_nat (length (rules p)))];
     for_each (rules p) (\<lambda>rule.
       kprintf (''  rule=%d %s %s %s %s capability=%s'' @ newline)
         [FInt (rule_number rule), FStr (if rule_allow rule then ''allow'' else ''deny''),
          FStr (rule_subject rule), FStr (rule_operation rule), FStr (rule_object rule),
          FStr (rule_capability rule)])
   }"

definition policy_change_rule :: "bool \<Rightarrow> string \<Rightarrow> string \<Rightarrow> string \<Rightarrow> bool op" where
  "policy_change_rule allow subject operation object = do {
     ensure_loaded;
     count \<leftarrow> gets (\<lambda>k. length (rules (pol k)));
     if count \<ge> POLICY_MAX_RULES then do {
       current \<leftarrow> event_current;
       event_record_kind ''policy'' ''policy/base.policy'' (if allow then ''allow'' else ''deny'')
         EVENT_DENIED current ''deny:policy-full'' ''state'';
       return False
     }
     else do {
       on_pol (\<lambda>p. p\<lparr>active_revision := active_revision p + 1,
         rules := rules p @ [\<lparr>rule_allow = allow, rule_number = word_of_nat count + 1,
           rule_capability = [], rule_subject = copy_field POLICY_FIELD_SIZE (Some subject),
           rule_operation = copy_field POLICY_FIELD_SIZE (Some operation),
           rule_object = copy_field POLICY_FIELD_SIZE (Some object)\<rparr>]\<rparr>);
       policy_object \<leftarrow> lookup_id ''policy/base.policy'';
       register_capability_object count policy_object;
       revision \<leftarrow> gets (\<lambda>k. active_revision (pol k));
       current \<leftarrow> event_current;
       event_record_kind ''policy'' ''policy/base.policy'' (if allow then ''allow'' else ''deny'') EVENT_OK
         current (format_decision revision True (if allow then ''policy:allow'' else ''policy:deny'')
           (word_of_nat count + 1)) ''state'';
       object_update_state ''policy/base.policy'' (if allow then ''allow-added'' else ''deny-added'');
       kprintf (''policy revision=%d rule=%d %s %s %s %s'' @ newline)
         [FInt revision, FInt (word_of_nat count + 1), FStr (if allow then ''allow'' else ''deny''),
          FStr subject, FStr operation, FStr object];
       return True
     }
   }"

definition policy_print_capabilities_for_object :: "string \<Rightarrow> unit op" where
  "policy_print_capabilities_for_object object_name = do {
     ensure_loaded;
     p \<leftarrow> gets pol;
     kprintf (''relevant capabilities:'' @ newline) [];
     for_each (rules p) (\<lambda>rule.
       cwhen (rule_relevant_to_object rule object_name)
         (kprintf (''  %s %s %s %s rule=%d rev=%d'' @ newline)
           [FStr (rule_capability rule), FStr (if rule_allow rule then ''allows'' else ''denies''),
            FStr (rule_subject rule), FStr (rule_operation rule), FInt (rule_number rule),
            FInt (active_revision p)]));
     cwhen (\<not> (\<exists>rule \<in> set (rules p). rule_relevant_to_object rule object_name))
       (kprintf (''  none'' @ newline) [])
   }"

definition policy_check :: "string \<Rightarrow> string \<Rightarrow> string \<Rightarrow> policy_decision op" where
  "policy_check actor target operation = do {
     ensure_loaded;
     decision \<leftarrow> gets (\<lambda>k. policy_decide (pol k) actor target operation);
     current \<leftarrow> event_current;
     event \<leftarrow> event_record_kind actor target ''policy_check''
                (if fst decision then EVENT_OK else EVENT_DENIED) current (snd decision) ''policy'';
     return \<lparr>allowed = fst decision, decision_event = event, reason = snd decision\<rparr>
   }"

section \<open>Consulting the policy changes nothing but the journal\<close>

lemma frame_ensure_loaded [frame_intro]:
  "frame core ensure_loaded" "frame reg ensure_loaded" "frame jnl ensure_loaded"
  by (simp_all add: frame_def ensure_loaded_def core_def)

lemma frame_policy_reports [frame_intro]:
  "frame core policy_revision" "frame core policy_show"
  "frame core (policy_print_capabilities_for_object n)" "frame core (policy_check a t op)"
  "frame reg policy_revision" "frame reg policy_show"
  "frame reg (policy_print_capabilities_for_object n)" "frame reg (policy_check a t op)"
  "frame jnl policy_revision" "frame jnl policy_show"
  "frame jnl (policy_print_capabilities_for_object n)"
  unfolding policy_revision_def policy_show_def policy_print_capabilities_for_object_def policy_check_def
  by (intro frame_intro)+

lemma policy_check_decision:
  "allowed (ret (policy_check a t op) k) = fst (policy_decide (in_force (pol k)) a t op)"
  "reason (ret (policy_check a t op) k) = snd (policy_decide (in_force (pol k)) a t op)"
  "decision_event (ret (policy_check a t op) k) = next_sequence (jnl k)"
  by (simp_all add: policy_check_def ensure_loaded_def exec_record event_current_def)

lemma policy_check_exec:
  fixes k :: kernel and a t op :: string
  defines "d \<equiv> policy_decide (in_force (pol k)) a t op"
  defines "e \<equiv> make_event k a t ''policy_check'' (if fst d then EVENT_OK else EVENT_DENIED)
    (current_sequence (jnl k)) (snd d) ''policy''"
  shows "exec (policy_check a t op) k =
    k\<lparr>pol := in_force (pol k), jnl := record_event e (jnl k), con := serial_event e (con k)\<rparr>"
  by (simp add: policy_check_def ensure_loaded_def exec_record event_current_def d_def e_def make_event_def)

section \<open>What the policy operations record and register\<close>

lemma traces_ensure_loaded [trace_intro]: "traces E ensure_loaded (\<lambda>_. {})"
  by (simp add: ensure_loaded_def traces_output)

lemma speaks_policy_reports [speak_intro]:
  "speaks policy_revision" "speaks policy_show" "speaks (policy_print_capabilities_for_object n)"
  unfolding policy_revision_def policy_show_def policy_print_capabilities_for_object_def ensure_loaded_def
  by (rule speak_intro)+

lemma traces_policy_reports [trace_intro]:
  "traces E policy_revision (\<lambda>_. {})" "traces E policy_show (\<lambda>_. {})"
  "traces E (policy_print_capabilities_for_object n) (\<lambda>_. {})"
  by (rule traces_quiet [OF frame_policy_reports(9)] traces_quiet [OF frame_policy_reports(10)]
      traces_quiet [OF frame_policy_reports(11)]; simp add: speak_intro)+

lemma traces_policy_check [trace_intro]: "traces E (policy_check a t op) (\<lambda>d. {decision_event d})"
  unfolding policy_check_def
  by (rule trace_intro event_ledger.tracked_return | simp)+

lemma traces_register_capability [trace_intro]: "traces E (register_capability_object i p) (\<lambda>_. {})"
  unfolding register_capability_object_def by (rule trace_intro)+

lemma traces_policy_init [trace_intro]: "b \<in> E \<Longrightarrow> traces E (policy_init b) (\<lambda>_. {})"
  unfolding policy_init_def by (rule trace_intro | simp; fail)+

lemma traces_policy_change [trace_intro]: "traces E (policy_change_rule al s op ob) (\<lambda>_. {})"
  unfolding policy_change_rule_def by (rule trace_intro | simp; fail)+

lemma length_build_capability_name: "length (build_capability_name 48 s op ob) < 48"
  by (simp add: build_capability_name_def Let_def length_append_text)

lemma enrols_ensure_loaded [enrol_intro]: "enrols E ensure_loaded (\<lambda>_. {})"
  by (simp add: ensure_loaded_def enrols_output)

lemma enrols_policy_reports [enrol_intro]:
  "enrols E policy_revision (\<lambda>_. {})" "enrols E policy_show (\<lambda>_. {})"
  "enrols E (policy_print_capabilities_for_object n) (\<lambda>_. {})" "enrols E (policy_check a t op) (\<lambda>_. {})"
  by (rule enrols_quiet; simp add: frame_policy_reports)+

lemma enrols_register_capability [enrol_intro]:
  "p \<in> E \<Longrightarrow> enrols E (register_capability_object i p) (\<lambda>_. {})"
  unfolding register_capability_object_def
  by (rule enrol_intro | simp add: length_build_capability_name; fail)+

lemma enrols_policy_init [enrol_intro]: "enrols E (policy_init b) (\<lambda>_. {})"
  unfolding policy_init_def by (rule enrol_intro | simp; fail)+

lemma enrols_policy_change [enrol_intro]: "enrols E (policy_change_rule al s op ob) (\<lambda>_. {})"
  unfolding policy_change_rule_def by (rule enrol_intro | simp; fail)+

section \<open>The policy as a guard\<close>

text \<open>
  What the clients of \<^verbatim>\<open>policy_check\<close> rely on: the check answers what the policy in force
  decides and leaves alone what it protects. Then whatever changes the protected part after a
  check must have been permitted, provided the refusal branch leaves it alone.
\<close>

locale mediator =
  fixes check :: "'q \<Rightarrow> ('s, 'd) state"
    and permits :: "'d \<Rightarrow> bool"
    and decides :: "'s \<Rightarrow> 'q \<Rightarrow> bool"
    and protected :: "'s \<Rightarrow> 'v"
  assumes permits_check: "permits (ret (check q) s) = decides s q"
    and check_protected: "protected (exec (check q) s) = protected s"
begin

lemma mediated:
  assumes "\<And>d. \<not> permits d \<Longrightarrow> frame protected (act d)"
    and "protected (exec (check q \<bind> act) s) \<noteq> protected s"
  shows "decides s q"
proof (rule ccontr)
  assume "\<not> decides s q"
  then have "frame protected (act (ret (check q) s))"
    using permits_check by (intro assms(1)) simp
  then have "protected (exec (check q \<bind> act) s) = protected s"
    by (simp add: frameD check_protected)
  then show False using assms(2) by simp
qed

lemma refused:
  assumes "\<And>d. \<not> permits d \<Longrightarrow> frame protected (act d)" and "\<not> decides s q"
  shows "protected (exec (check q \<bind> act) s) = protected s"
  using mediated [of act q s] assms by blast

end

definition permitted :: "kernel \<Rightarrow> string \<times> string \<times> string \<Rightarrow> bool" where
  "permitted k request = (case request of (actor, target, operation) \<Rightarrow>
     fst (policy_decide (in_force (pol k)) actor target operation))"

definition check_request :: "string \<times> string \<times> string \<Rightarrow> policy_decision op" where
  "check_request request = (case request of (actor, target, operation) \<Rightarrow> policy_check actor target operation)"

interpretation policy_guard: mediator check_request allowed permitted core
proof
  show "allowed (ret (check_request q) k) = permitted k q" for q k
    by (cases q) (simp add: check_request_def permitted_def policy_check_decision)
  show "core (exec (check_request q) k) = core k" for q k
    by (cases q) (simp add: check_request_def frameD [OF frame_policy_reports(4)])
qed

section \<open>Properties\<close>



end
