(* ===== verification/Memory.thy ===== *)
theory Memory
  imports Page_Frames Policy
begin

text \<open>
  The operations of \<^verbatim>\<open>kernel/memory.c\<close> that record events: reading the firmware's memory
  map, the page allocator and the heap. Address spaces are in \<open>Paging\<close>.
\<close>

section \<open>Reading physical memory\<close>

definition read32 :: "(u64 \<Rightarrow> u8) \<Rightarrow> u64 \<Rightarrow> u32" where
  "read32 m a = ucast (m a) OR push_bit 8 (ucast (m (a + 1))) OR
     push_bit 16 (ucast (m (a + 2))) OR push_bit 24 (ucast (m (a + 3)))"

definition read64 :: "(u64 \<Rightarrow> u8) \<Rightarrow> u64 \<Rightarrow> u64" where
  "read64 m a = ucast (read32 m a) OR push_bit 32 (ucast (read32 m (a + 4)))"

text \<open>\<^verbatim>\<open>struct multiboot_info\<close>, packed: the three fields that are read.\<close>

definition info_flags :: "memory \<Rightarrow> u32 \<Rightarrow> u32" where
  "info_flags m info = read32 (ram m) (ucast info)"

definition info_mmap_length :: "memory \<Rightarrow> u32 \<Rightarrow> u32" where
  "info_mmap_length m info = read32 (ram m) (ucast info + 44)"

definition info_mmap_addr :: "memory \<Rightarrow> u32 \<Rightarrow> u32" where
  "info_mmap_addr m info = read32 (ram m) (ucast info + 48)"

text \<open>\<^verbatim>\<open>struct multiboot_mmap\<close>, packed.\<close>

definition entry_size :: "memory \<Rightarrow> u64 \<Rightarrow> u32" where
  "entry_size m entry = read32 (ram m) entry"

definition entry_base :: "memory \<Rightarrow> u64 \<Rightarrow> u64" where
  "entry_base m entry = read64 (ram m) (entry + 4)"

definition entry_length :: "memory \<Rightarrow> u64 \<Rightarrow> u64" where
  "entry_length m entry = read64 (ram m) (entry + 12)"

definition entry_type :: "memory \<Rightarrow> u64 \<Rightarrow> u32" where
  "entry_type m entry = read32 (ram m) (entry + 20)"

section \<open>The memory map\<close>

text \<open>The guards of \<^verbatim>\<open>memory_init\<close>, negated.\<close>

definition info_valid :: "memory \<Rightarrow> u32 \<Rightarrow> bool" where
  "info_valid m info \<longleftrightarrow>
     \<not> (info = 0 \<or> info_flags m info AND push_bit 6 1 = 0 \<or> info_mmap_length m info = 0 \<or>
        info_mmap_addr m info = 0 \<or> ucast (info_mmap_addr m info) \<ge> IDENTITY_MAP_LIMIT \<or>
        ucast (info_mmap_length m info) > IDENTITY_MAP_LIMIT - ucast (info_mmap_addr m info))"

definition entry_bad :: "memory \<Rightarrow> u64 \<Rightarrow> u32 \<Rightarrow> bool" where
  "entry_bad m entry left \<longleftrightarrow> left < 24 \<or> entry_size m entry < 20 \<or> entry_size m entry > left - 4"

definition use_entry :: "u64 \<Rightarrow> memory \<Rightarrow> memory" where
  "use_entry entry m =
     (let m' = m\<lparr>detected_entry_count := detected_entry_count m + 1\<rparr>
      in if entry_type m entry = 1 \<and> entry_length m entry \<noteq> 0
         then mark_usable_range (entry_base m entry) (entry_length m entry) m' else m')"

lemma entry_advance:
  assumes "offset < len" and "\<not> entry_bad m entry (len - offset)"
  shows "unat (offset + (entry_size m entry + 4)) = unat offset + unat (entry_size m entry) + 4"
    and "unat (offset + (entry_size m entry + 4)) \<le> unat len"
    and "24 \<le> unat (entry_size m entry) + 4"
proof -
  have left: "unat (len - offset) = unat len - unat offset"
    using assms(1) by (simp add: unat_sub less_imp_le)
  have big: "24 \<le> unat (len - offset)" "20 \<le> unat (entry_size m entry)"
    using assms(2) by (auto simp: entry_bad_def word_less_nat_alt)
  then have "unat (len - offset - 4) = unat (len - offset) - 4"
    by (subst unat_sub) (simp_all add: word_le_nat_alt)
  then have fit: "unat offset + (unat (entry_size m entry) + 4) \<le> unat len"
    using assms big left by (auto simp: entry_bad_def word_less_nat_alt)
  moreover have "unat len < 2 ^ 32" using unsigned_less [of len, where ?'a = nat] by simp
  ultimately have "unat (entry_size m entry + 4) = unat (entry_size m entry) + 4"
    by (subst unat_add_lem [THEN iffD1]) simp_all
  then have "unat (offset + (entry_size m entry + 4)) = unat offset + (unat (entry_size m entry) + 4)"
    using fit \<open>unat len < 2 ^ 32\<close> by (subst unat_add_lem [THEN iffD1]) simp_all
  then show "unat (offset + (entry_size m entry + 4)) = unat offset + unat (entry_size m entry) + 4"
    and "unat (offset + (entry_size m entry + 4)) \<le> unat len"
    and "24 \<le> unat (entry_size m entry) + 4"
    using fit big(2) by simp_all
qed

text \<open>The first loop: \<open>Inl\<close>, with the bitmaps as far as they are filled, when an entry is
  malformed.\<close>

function scan_usable :: "u32 \<Rightarrow> u32 \<Rightarrow> u32 \<Rightarrow> memory \<Rightarrow> memory + memory" where
  "scan_usable mmap_addr mmap_length offset m =
     (if offset < mmap_length
      then let entry = ucast (mmap_addr + offset)
           in if entry_bad m entry (mmap_length - offset) then Inl m
              else scan_usable mmap_addr mmap_length (offset + (entry_size m entry + 4)) (use_entry entry m)
      else Inr m)"
  by pat_completeness auto
termination
proof (relation "measure (\<lambda>(addr, len, offset, m). unat len - unat offset)")
  fix addr len offset :: u32 and m x
  assume "offset < len" "x = (ucast (addr + offset) :: u64)" "\<not> entry_bad m x (len - offset)"
  from entry_advance [OF this(1,3)] show
    "((addr, len, offset + (entry_size m x + 4), use_entry x m), addr, len, offset, m)
      \<in> measure (\<lambda>(addr, len, offset, m). unat len - unat offset)"
    by simp
qed simp

declare scan_usable.simps [simp del]

definition reserve_entry :: "u64 \<Rightarrow> memory \<Rightarrow> memory" where
  "reserve_entry entry m =
     (if entry_type m entry \<noteq> 1 \<or> entry_length m entry = 0
      then mark_reserved_range (entry_base m entry) (entry_length m entry) m else m)"

text \<open>The second loop has no guards: it relies on the first one having accepted every entry. The
  fuel bounds the number of entries; running out is None.\<close>

fun scan_reserved :: "nat \<Rightarrow> u32 \<Rightarrow> u32 \<Rightarrow> u32 \<Rightarrow> memory \<Rightarrow> memory option" where
  "scan_reserved 0 mmap_addr mmap_length offset m =
     (if offset < mmap_length then None else Some m)"
| "scan_reserved (Suc fuel) mmap_addr mmap_length offset m =
     (if offset < mmap_length
      then let entry = ucast (mmap_addr + offset)
           in scan_reserved fuel mmap_addr mmap_length (offset + (entry_size m entry + 4)) (reserve_entry entry m)
      else Some m)"

section \<open>The page allocator\<close>

definition page_alloc_contiguous :: "u64 \<Rightarrow> u64 op" where
  "page_alloc_contiguous page_count = do {
     ready \<leftarrow> gets (\<lambda>k. allocator_ready (mem k));
     current \<leftarrow> event_current;
     if \<not> ready \<or> page_count = 0 \<or> page_count > 262144 then do {
       event_record ''memory'' ''page_allocator'' ''allocate'' EVENT_DENIED current ''deny:invalid-request'';
       return 0
     }
     else do {
       found \<leftarrow> gets (\<lambda>k. alloc_scan (mem k) (unat page_count) 256);
       case found of
         Some page \<Rightarrow> do {
           on_mem (claim_pages page (unat page_count));
           event_record ''memory'' ''page_allocator'' ''allocate'' EVENT_OK current ''allow:page-owner'';
           return (word_of_nat page * PAGE_SIZE)
         }
       | None \<Rightarrow> do {
           event_record ''memory'' ''page_allocator'' ''allocate'' EVENT_DENIED current ''deny:out-of-pages'';
           return 0
         }
     }
   }"

definition page_alloc :: "u64 op" where
  "page_alloc = page_alloc_contiguous 1"

definition freeable :: "memory \<Rightarrow> u64 \<Rightarrow> bool" where
  "freeable m physical_address \<longleftrightarrow>
     \<not> (physical_address AND (PAGE_SIZE - 1) \<noteq> 0 \<or> physical_address < PAGE_ALLOCATOR_START \<or>
        physical_address \<ge> IDENTITY_MAP_LIMIT \<or>
        (physical_address \<ge> heap_base m \<and> physical_address < heap_limit m) \<or>
        \<not> usable_bitmap_is_set (unat physical_address div 4096) m)"

definition page_free :: "u64 \<Rightarrow> unit op" where
  "page_free physical_address = do {
     ok \<leftarrow> gets (\<lambda>k. freeable (mem k) physical_address);
     current \<leftarrow> event_current;
     if \<not> ok then do {
       event_record ''memory'' ''page_allocator'' ''free'' EVENT_DENIED current ''deny:not-owned-page'';
       return ()
     }
     else do {
       on_mem (bitmap_clear (unat physical_address div 4096));
       event_record ''memory'' ''page_allocator'' ''free'' EVENT_OK current ''allow:page-owner'';
       return ()
     }
   }"

section \<open>The heap\<close>

definition heap_ready :: "memory \<Rightarrow> bool" where
  "heap_ready m \<longleftrightarrow>
     \<not> (heap_base m = 0 \<or> heap_limit m = 0 \<or> heap_ptr m < heap_base m \<or> heap_ptr m > heap_limit m)"

definition heap_round :: "u64 \<Rightarrow> u64" where
  "heap_round n = (n + 15) AND NOT 15"

definition malloc :: "u64 \<Rightarrow> u64 op" where
  "malloc n = do {
     m \<leftarrow> gets mem;
     current \<leftarrow> event_current;
     if n = 0 \<or> \<not> heap_ready m then do {
       event_record ''memory'' ''heap'' ''allocate'' EVENT_DENIED current ''deny:heap-not-ready'';
       return 0
     }
     else if n > 0xFFFFFFFFFFFFFFFF - 15 then do {
       event_record ''memory'' ''heap'' ''allocate'' EVENT_DENIED current ''deny:size-overflow'';
       return 0
     }
     else if heap_round n > heap_limit m - heap_ptr m then do {
       event_record ''memory'' ''heap'' ''allocate'' EVENT_DENIED current ''deny:heap-exhausted'';
       return 0
     }
     else do {
       on_mem (\<lambda>m. m\<lparr>heap_ptr := heap_ptr m + heap_round n\<rparr>);
       event_record ''memory'' ''heap'' ''allocate'' EVENT_OK current ''allow:heap'';
       return (heap_ptr m)
     }
   }"

definition heap_remaining :: "memory \<Rightarrow> u64" where
  "heap_remaining m = (if heap_limit m \<ge> heap_ptr m then heap_limit m - heap_ptr m else 0)"

definition heap_capacity :: "memory \<Rightarrow> u64" where
  "heap_capacity m = (if heap_limit m = 0 then 0 else HEAP_PAGE_COUNT * PAGE_SIZE)"

section \<open>Initialisation\<close>

text \<open>The assignments at the head of \<^verbatim>\<open>memory_init\<close>.\<close>

definition reset_memory :: "memory \<Rightarrow> memory" where
  "reset_memory m = m\<lparr>page_bitmap := bitmap_fill 0xFF (page_bitmap m),
     usable_bitmap := bitmap_fill 0 (usable_bitmap m), detected_entry_count := 0,
     usable_memory_bytes := 0, heap_ptr := 0, heap_base := 0, heap_limit := 0, allocator_ready := False\<rparr>"

text \<open>From the firmware's records to the two bitmaps, between the registrations and the heap. The
  second loop never runs out of fuel after the first has succeeded (\<open>scan_usable_fold\<close>).\<close>

definition load_memory_map :: "u64 \<Rightarrow> u64 \<Rightarrow> u32 \<Rightarrow> memory \<Rightarrow> memory + memory" where
  "load_memory_map text_start bss_end info m =
     (let mmap_addr = info_mmap_addr m info; mmap_length = info_mmap_length m info
      in case scan_usable mmap_addr mmap_length 0 m of
           Inl m1 \<Rightarrow> Inl m1
         | Inr m1 \<Rightarrow>
             (case scan_reserved (unat mmap_length) mmap_addr mmap_length 0 m1 of
                None \<Rightarrow> Inl m1
              | Some m2 \<Rightarrow> Inr (recount_usable_memory
                  (reserve_kernel_ranges text_start bss_end info mmap_addr mmap_length m2))))"

definition memory_init :: "u64 \<Rightarrow> u64 \<Rightarrow> u32 \<Rightarrow> bool op" where
  "memory_init text_start bss_end info = do {
     valid \<leftarrow> gets (\<lambda>k. info_valid (mem k) info);
     current \<leftarrow> event_current;
     if \<not> valid then do {
       event_record ''memory'' ''memory'' ''parse_multiboot'' EVENT_FAULT current ''deny:invalid-memory-map'';
       return False
     }
     else do {
       on_mem reset_memory;
       memory_id \<leftarrow> lookup_id ''memory'';
       register ''allocator'' ''page_allocator'' memory_id ''initializing'' current;
       register ''heap'' ''heap'' memory_id ''initializing'' current;
       loaded \<leftarrow> gets (\<lambda>k. load_memory_map text_start bss_end info (mem k));
       case loaded of
         Inl m \<Rightarrow> do {
           on_mem (\<lambda>_. m);
           event_record ''memory'' ''memory'' ''parse_multiboot'' EVENT_FAULT current ''deny:bad-memory-map-entry'';
           return False
         }
       | Inr m \<Rightarrow> do {
           on_mem (\<lambda>_. m\<lparr>allocator_ready := True\<rparr>);
           heap_start \<leftarrow> page_alloc_contiguous HEAP_PAGE_COUNT;
           if heap_start = 0 then do {
             event_record ''memory'' ''heap'' ''allocate_pages'' EVENT_FAULT current ''deny:no-pages'';
             on_mem (\<lambda>m. m\<lparr>allocator_ready := False\<rparr>);
             return False
           }
           else do {
             object_update_state ''page_allocator'' ''ready'';
             object_update_state ''heap'' ''ready'';
             event_record ''memory'' ''heap'' ''allocate_pages'' EVENT_OK current ''allow:bootstrap-heap'';
             on_mem (\<lambda>m. m\<lparr>heap_ptr := heap_start, heap_base := heap_start,
               heap_limit := heap_start + HEAP_PAGE_COUNT * PAGE_SIZE\<rparr>);
             event_record ''memory'' ''memory'' ''parse_multiboot'' EVENT_OK current ''allow:real-memory-map'';
             return True
           }
         }
     }
   }"

section \<open>Both loops visit the same records\<close>

text \<open>The offsets of the records, from \<open>offset\<close> on.\<close>

fun record_offsets :: "nat \<Rightarrow> u32 \<Rightarrow> u32 \<Rightarrow> u32 \<Rightarrow> memory \<Rightarrow> u32 list" where
  "record_offsets 0 addr len offset m = []"
| "record_offsets (Suc fuel) addr len offset m =
     (if offset < len
      then offset # record_offsets fuel addr len (offset + (entry_size m (ucast (addr + offset)) + 4)) m
      else [])"

lemma marking_ram [simp]:
  "ram (bitmap_set p m) = ram m" "ram (bitmap_clear p m) = ram m"
  "ram (usable_bitmap_set p m) = ram m" "ram (usable_bitmap_clear p m) = ram m"
  by (simp_all add: bitmap_set_def bitmap_clear_def usable_bitmap_set_def usable_bitmap_clear_def)

lemma marking_ranges_ram [simp]:
  "ram (mark_usable_range b l m) = ram m" "ram (mark_reserved_range b l m) = ram m"
  "ram (reserve_address_range s e m) = ram m"
  by (simp_all add: mark_usable_range_def mark_reserved_range_def reserve_address_range_def Let_def
      mark_usable_page_def mark_reserved_page_def fold_frame [where p = ram])

lemma entry_ram [simp]: "ram (use_entry e m) = ram m" "ram (reserve_entry e m) = ram m"
  by (simp_all add: use_entry_def reserve_entry_def Let_def)

lemma entry_fields_ram:
  assumes "ram m' = ram m"
  shows "entry_size m' e = entry_size m e" "entry_base m' e = entry_base m e"
    "entry_length m' e = entry_length m e" "entry_type m' e = entry_type m e"
    "entry_bad m' e l = entry_bad m e l"
  using assms by (simp_all add: entry_size_def entry_base_def entry_length_def entry_type_def entry_bad_def)

lemma record_offsets_ram:
  assumes "ram m' = ram m"
  shows "record_offsets fuel addr len offset m' = record_offsets fuel addr len offset m"
  by (induction fuel arbitrary: offset) (simp_all add: entry_fields_ram [OF assms])

lemma scan_reserved_fold:
  "scan_reserved fuel addr len offset m = Some m' \<Longrightarrow>
   m' = fold (\<lambda>o'. reserve_entry (ucast (addr + o'))) (record_offsets fuel addr len offset m) m"
proof (induction fuel addr len offset m rule: scan_reserved.induct)
  case (2 fuel addr len offset m)
  then show ?case
    by (auto simp: Let_def record_offsets_ram [OF entry_ram(2)] split: if_splits)
qed (simp split: if_splits)

text \<open>Whatever the first loop accepts, the second one finishes within its fuel, and both visit
  the records at the same offsets.\<close>

lemma scan_usable_fold:
  assumes "scan_usable addr len offset m = Inr m'" and "unat len - unat offset \<le> fuel"
  shows "m' = fold (\<lambda>o'. use_entry (ucast (addr + o'))) (record_offsets fuel addr len offset m) m"
    and "ram m'' = ram m \<Longrightarrow> \<exists>m3. scan_reserved fuel addr len offset m'' = Some m3"
  using assms
proof (induction addr len offset m arbitrary: fuel m'' rule: scan_usable.induct)
  case (1 addr len offset m)
  let ?e = "ucast (addr + offset) :: u64"
  let ?next = "offset + (entry_size m ?e + 4)"
  {
    case 1
    show ?case
    proof (cases "offset < len")
      case False
      then show ?thesis
        using 1 by (cases fuel) (simp_all add: scan_usable.simps [of addr len offset])
    next
      case True
      then have good: "\<not> entry_bad m ?e (len - offset)"
        and rest: "scan_usable addr len ?next (use_entry ?e m) = Inr m'"
        using 1 by (auto simp: scan_usable.simps [of addr len offset] Let_def split: if_splits)
      obtain fuel' where fuel: "fuel = Suc fuel'"
        using 1(2) True by (cases fuel) (auto simp: word_less_nat_alt)
      have "unat len - unat ?next \<le> fuel'"
        using entry_advance [OF True good] 1(2) fuel by linarith
      from "1.IH"(1) [OF True refl good rest this] show ?thesis
        using True by (simp add: fuel record_offsets_ram [OF entry_ram(1)])
    qed
  next
    case 2
    show ?case
    proof (cases "offset < len")
      case False
      then show ?thesis by (cases fuel) simp_all
    next
      case True
      then have good: "\<not> entry_bad m ?e (len - offset)"
        and rest: "scan_usable addr len ?next (use_entry ?e m) = Inr m'"
        using 2 by (auto simp: scan_usable.simps [of addr len offset] Let_def split: if_splits)
      obtain fuel' where fuel: "fuel = Suc fuel'"
        using 2(3) True by (cases fuel) (auto simp: word_less_nat_alt)
      have "unat len - unat ?next \<le> fuel'"
        using entry_advance [OF True good] 2(3) fuel by linarith
      from "1.IH"(2) [OF True refl good _ rest this, of "reserve_entry ?e m''"] show ?thesis
        using True 2(1) by (simp add: fuel Let_def entry_fields_ram [OF 2(1)])
    qed
  }
qed

section \<open>Which pages become allocable\<close>

definition usable_record :: "memory \<Rightarrow> u64 \<Rightarrow> bool" where
  "usable_record m e \<longleftrightarrow> entry_type m e = 1 \<and> entry_length m e \<noteq> 0"

definition record_addresses :: "memory \<Rightarrow> u32 \<Rightarrow> u64 set" where
  "record_addresses m info =
     (\<lambda>o'. ucast (info_mmap_addr m info + o')) `
       set (record_offsets (unat (info_mmap_length m info)) (info_mmap_addr m info) (info_mmap_length m info) 0 m)"

definition offered_pages :: "memory \<Rightarrow> u64 set \<Rightarrow> nat set" where
  "offered_pages m E = (\<Union>e \<in> {e \<in> E. usable_record m e}. pages_inside (entry_base m e) (entry_length m e))"

definition withheld_pages :: "memory \<Rightarrow> u64 set \<Rightarrow> nat set" where
  "withheld_pages m E = (\<Union>e \<in> {e \<in> E. \<not> usable_record m e}. pages_touching (entry_base m e) (entry_length m e))"

definition range_pages :: "u64 \<Rightarrow> u64 \<Rightarrow> nat set" where
  "range_pages start end = (if start < end then pages_touching start (end - start) else {})"

definition kernel_pages :: "u64 \<Rightarrow> u64 \<Rightarrow> u32 \<Rightarrow> u32 \<Rightarrow> u32 \<Rightarrow> nat set" where
  "kernel_pages text_start bss_end info addr len =
     range_pages 0x100000 0x200000 \<union> range_pages text_start bss_end \<union> range_pages 0x2F0000 0x300000 \<union>
     range_pages (ucast info) (ucast (info + 52)) \<union> range_pages (ucast addr) (ucast (addr + len))"

lemma counter_bitmaps [simp]:
  "bitmap_is_set q (m\<lparr>detected_entry_count := c\<rparr>) = bitmap_is_set q m"
  "usable_bitmap_is_set q (m\<lparr>detected_entry_count := c\<rparr>) = usable_bitmap_is_set q m"
  by (simp_all add: bitmap_is_set_def usable_bitmap_is_set_def)

lemma use_entry_iff:
  "usable_bitmap_is_set q (use_entry e m) \<longleftrightarrow>
     (usable_record m e \<and> q \<in> pages_inside (entry_base m e) (entry_length m e)) \<or> usable_bitmap_is_set q m"
  "bitmap_is_set q (use_entry e m) \<longleftrightarrow>
     \<not> (usable_record m e \<and> q \<in> pages_inside (entry_base m e) (entry_length m e)) \<and> bitmap_is_set q m"
  by (auto simp: use_entry_def usable_record_def Let_def mark_usable_range_iff)

lemma reserve_entry_iff:
  "usable_bitmap_is_set q (reserve_entry e m) \<longleftrightarrow>
     \<not> (\<not> usable_record m e \<and> q \<in> pages_touching (entry_base m e) (entry_length m e)) \<and> usable_bitmap_is_set q m"
  "bitmap_is_set q (reserve_entry e m) \<longleftrightarrow>
     (\<not> usable_record m e \<and> q \<in> pages_touching (entry_base m e) (entry_length m e)) \<or> bitmap_is_set q m"
  by (auto simp: reserve_entry_def usable_record_def mark_reserved_range_iff)

lemma record_sets_ram:
  assumes "ram m' = ram m"
  shows "usable_record m' e = usable_record m e" "offered_pages m' E = offered_pages m E"
    "withheld_pages m' E = withheld_pages m E"
  using assms by (simp_all add: usable_record_def offered_pages_def withheld_pages_def entry_fields_ram [OF assms])

lemma use_entries_iff:
  "usable_bitmap_is_set q (fold (\<lambda>o'. use_entry (g o')) os m) \<longleftrightarrow>
     q \<in> offered_pages m (g ` set os) \<or> usable_bitmap_is_set q m"
  "bitmap_is_set q (fold (\<lambda>o'. use_entry (g o')) os m) \<longleftrightarrow>
     q \<notin> offered_pages m (g ` set os) \<and> bitmap_is_set q m"
proof (induction os arbitrary: m)
  case (Cons o' os)
  {
    case 1
    show ?case
      by (simp add: Cons.IH record_sets_ram [OF entry_ram(1) [of "g o'" m]] use_entry_iff) (auto simp: offered_pages_def)
  next
    case 2
    show ?case
      by (simp add: Cons.IH record_sets_ram [OF entry_ram(1) [of "g o'" m]] use_entry_iff) (auto simp: offered_pages_def)
  }
qed (simp_all add: offered_pages_def)

lemma reserve_entries_iff:
  "usable_bitmap_is_set q (fold (\<lambda>o'. reserve_entry (g o')) os m) \<longleftrightarrow>
     q \<notin> withheld_pages m (g ` set os) \<and> usable_bitmap_is_set q m"
  "bitmap_is_set q (fold (\<lambda>o'. reserve_entry (g o')) os m) \<longleftrightarrow>
     q \<in> withheld_pages m (g ` set os) \<or> bitmap_is_set q m"
proof (induction os arbitrary: m)
  case (Cons o' os)
  {
    case 1
    show ?case
      by (simp add: Cons.IH record_sets_ram [OF entry_ram(2) [of "g o'" m]] reserve_entry_iff) (auto simp: withheld_pages_def)
  next
    case 2
    show ?case
      by (simp add: Cons.IH record_sets_ram [OF entry_ram(2) [of "g o'" m]] reserve_entry_iff) (auto simp: withheld_pages_def)
  }
qed (simp_all add: withheld_pages_def)

lemma reserve_kernel_iff:
  "usable_bitmap_is_set q (reserve_kernel_ranges ts be info addr len m) \<longleftrightarrow>
     q \<notin> kernel_pages ts be info addr len \<and> usable_bitmap_is_set q m"
  "bitmap_is_set q (reserve_kernel_ranges ts be info addr len m) \<longleftrightarrow>
     q \<in> kernel_pages ts be info addr len \<or> bitmap_is_set q m"
  by (auto simp: reserve_kernel_ranges_def Let_def reserve_address_range_iff kernel_pages_def
      range_pages_def split: if_splits)

lemma recount_bitmaps:
  "bitmap_is_set q (recount_usable_memory m) = bitmap_is_set q m"
  "usable_bitmap_is_set q (recount_usable_memory m) = usable_bitmap_is_set q m"
proof -
  have "page_bitmap (recount_usable_memory m) = page_bitmap m"
    "usable_bitmap (recount_usable_memory m) = usable_bitmap m"
    by (simp_all add: recount_usable_memory_def fold_frame [where p = page_bitmap]
        fold_frame [where p = usable_bitmap])
  then show "bitmap_is_set q (recount_usable_memory m) = bitmap_is_set q m"
    "usable_bitmap_is_set q (recount_usable_memory m) = usable_bitmap_is_set q m"
    by (simp_all add: bitmap_is_set_def usable_bitmap_is_set_def)
qed

lemma reset_bitmaps:
  assumes "q < PAGE_COUNT"
  shows "\<not> usable_bitmap_is_set q (reset_memory m)" and "bitmap_is_set q (reset_memory m)"
proof -
  have full: "bit (0xFF :: u8) n" if "n < 8" for n
  proof -
    have "(0xFF :: u8) = mask 8" by (simp add: mask_eq_exp_minus_1)
    then show ?thesis using that by (simp only: bit_mask_iff) simp
  qed
  have "q div 8 < 32768" using assms by (simp add: div_less_iff_less_mult)
  moreover have "bit (0xFF :: u8) (q mod 8)" by (rule full) simp
  ultimately show "\<not> usable_bitmap_is_set q (reset_memory m)" and "bitmap_is_set q (reset_memory m)"
    by (simp_all add: reset_memory_def bitmap_is_set_bit bitmap_fill_def)
qed

lemma load_memory_map_pages:
  assumes load: "load_memory_map ts be info (reset_memory m) = Inr m'" and q: "q < PAGE_COUNT"
  shows "usable_bitmap_is_set q m' \<longleftrightarrow>
      q \<in> offered_pages m (record_addresses m info) \<and> q \<notin> withheld_pages m (record_addresses m info) \<and>
      q \<notin> kernel_pages ts be info (info_mmap_addr m info) (info_mmap_length m info)"
    and "bitmap_is_set q m' \<longleftrightarrow> \<not> usable_bitmap_is_set q m'"
proof -
  let ?m = "reset_memory m"
  let ?addr = "info_mmap_addr ?m info" and ?len = "info_mmap_length ?m info"
  let ?g = "\<lambda>o'. ucast (?addr + o') :: u64"
  let ?os = "record_offsets (unat ?len) ?addr ?len 0 ?m"
  have ram: "ram ?m = ram m" by (simp add: reset_memory_def)
  have info: "info_mmap_addr m info = ?addr" "info_mmap_length m info = ?len"
    by (simp_all add: info_mmap_addr_def info_mmap_length_def ram)
  obtain m1 where m1: "scan_usable ?addr ?len 0 ?m = Inr m1"
    using load by (auto simp: load_memory_map_def Let_def split: sum.splits)
  note first = scan_usable_fold(1) [OF m1, where fuel = "unat ?len"]
    and second = scan_usable_fold(2) [OF m1, where fuel = "unat ?len" and m'' = m1]
  have ram1: "ram m1 = ram ?m" using first by (simp add: fold_frame [where p = ram])
  then obtain m2 where m2: "scan_reserved (unat ?len) ?addr ?len 0 m1 = Some m2"
    using second by auto
  have offs: "record_offsets (unat ?len) ?addr ?len 0 m1 = ?os"
    by (rule record_offsets_ram [OF ram1])
  have m': "m' = recount_usable_memory (reserve_kernel_ranges ts be info ?addr ?len m2)"
    using load m1 m2 by (simp add: load_memory_map_def Let_def)
  have recs: "record_addresses m info = ?g ` set ?os"
    by (simp add: record_addresses_def info record_offsets_ram [OF ram])
  have u1: "usable_bitmap_is_set q m1 \<longleftrightarrow> q \<in> offered_pages m (record_addresses m info)"
    and t1: "bitmap_is_set q m1 \<longleftrightarrow> q \<notin> offered_pages m (record_addresses m info)"
    using first reset_bitmaps [OF q] by (simp_all add: use_entries_iff record_sets_ram [OF ram] recs)
  have u2: "usable_bitmap_is_set q m2 \<longleftrightarrow> q \<notin> withheld_pages m (record_addresses m info) \<and> usable_bitmap_is_set q m1"
    and t2: "bitmap_is_set q m2 \<longleftrightarrow> q \<in> withheld_pages m (record_addresses m info) \<or> bitmap_is_set q m1"
    using scan_reserved_fold [OF m2]
    by (simp_all add: offs reserve_entries_iff record_sets_ram [OF ram1] record_sets_ram [OF ram] recs)
  show "usable_bitmap_is_set q m' \<longleftrightarrow>
      q \<in> offered_pages m (record_addresses m info) \<and> q \<notin> withheld_pages m (record_addresses m info) \<and>
      q \<notin> kernel_pages ts be info (info_mmap_addr m info) (info_mmap_length m info)"
    and "bitmap_is_set q m' \<longleftrightarrow> \<not> usable_bitmap_is_set q m'"
    by (auto simp: m' recount_bitmaps reserve_kernel_iff u2 t2 u1 t1 info)
qed

end
