(* ===== verification/Page_Allocator.thy ===== *)
theory Page_Allocator
  imports Memory
begin

text \<open>
  What the page allocator and the heap of \<^verbatim>\<open>kernel/memory.c\<close> do to the state: the effect of an
  allocation and of a release on the bitmaps, what they leave alone, and the interface of a page
  provider that the users of \<^verbatim>\<open>page_alloc\<close> rely on.
\<close>

section \<open>What memory operations leave alone\<close>

text \<open>Everything but memory, processes, console, registry and journal.\<close>

definition settings ::
  "kernel \<Rightarrow> policy_table \<times> config_entry list \<times> keyboard \<times> descriptors \<times> bool \<times> u64" where
  "settings k = (in_force (pol k), cfg k, kbd k, dsc k, halted k, ticks k)"

lemma frame_settings: "frame core m \<Longrightarrow> frame settings m"
  by (auto simp: frame_def settings_def dest: core_eqD)

lemma frame_settings_on [frame_intro]:
  "frame settings (on_mem f)" "frame settings (on_usr g)"
  by (simp_all add: frame_def settings_def)

lemma frame_settings_core [frame_intro]:
  "frame settings (on_con c)" "frame settings (kprintf format args)" "frame settings (kserial s)"
  "frame settings (event_record_kind a t op r p po kd)" "frame settings (event_record a t op r p po)"
  "frame settings (lookup_id q)" "frame settings event_current" "frame settings (set_current n0)"
  "frame settings (set_transaction n0)" "frame settings (register ty n q0 st e)"
  "frame settings (object_update_state n st)" "frame settings (transaction_begin a t p)"
  "frame settings (transaction_commit i)" "frame settings (transaction_abort i why)"
  "frame settings (policy_check a t op)" "frame settings policy_revision"
  by (rule frame_settings; rule frame_output frame_record frame_objects frame_transactions frame_policy_reports)+

lemma frame_usr_core [frame_intro]:
  "frame usr (on_con c)" "frame usr (kprintf format args)" "frame usr (kserial s)"
  "frame usr (event_record_kind a t op r p po kd)" "frame usr (event_record a t op r p po)"
  "frame usr (lookup_id q)" "frame usr event_current" "frame usr (set_current n0)"
  "frame usr (set_transaction n0)" "frame usr (register ty n q0 st e)"
  "frame usr (object_update_state n st)" "frame usr (transaction_begin a t p)"
  "frame usr (transaction_commit i)" "frame usr (transaction_abort i why)"
  "frame usr (policy_check a t op)" "frame usr policy_revision" "frame usr (on_mem f)"
  by (rule frame_core(4); rule frame_output frame_record frame_objects frame_transactions frame_policy_reports)+
    (simp add: frame_def)

lemma frame_mem_core [frame_intro]:
  "frame mem (on_con c)" "frame mem (kprintf format args)" "frame mem (kserial s)"
  "frame mem (event_record_kind a t op r p po kd)" "frame mem (event_record a t op r p po)"
  "frame mem (lookup_id q)" "frame mem event_current" "frame mem (set_current n0)"
  "frame mem (set_transaction n0)" "frame mem (register ty n q0 st e)"
  "frame mem (object_update_state n st)" "frame mem (transaction_begin a t p)"
  "frame mem (transaction_commit i)" "frame mem (transaction_abort i why)"
  "frame mem (policy_check a t op)" "frame mem policy_revision" "frame mem (on_usr f)"
  by (rule frame_core(3); rule frame_output frame_record frame_objects frame_transactions frame_policy_reports)+
    (simp add: frame_def)

lemma frame_memory [frame_intro]:
  "frame settings (page_alloc_contiguous n)" "frame usr (page_alloc_contiguous n)" "frame reg (page_alloc_contiguous n)"
  "frame settings (page_free a)" "frame usr (page_free a)" "frame reg (page_free a)"
  "frame settings (malloc n)" "frame usr (malloc n)" "frame reg (malloc n)"
  unfolding page_alloc_contiguous_def page_free_def malloc_def Let_def
  by (intro frame_intro; simp add: frame_def)+

lemma frame_page_alloc [frame_intro]:
  "frame settings page_alloc" "frame usr page_alloc" "frame reg page_alloc"
  unfolding page_alloc_def by (intro frame_intro)+

lemma traces_memory [trace_intro]:
  "traces E (page_alloc_contiguous n) (\<lambda>_. {})" "traces E (page_free a) (\<lambda>_. {})" "traces E (malloc n) (\<lambda>_. {})"
  unfolding page_alloc_contiguous_def page_free_def malloc_def Let_def
  by (rule trace_intro | simp; fail)+

lemma traces_page_alloc [trace_intro]: "traces E page_alloc (\<lambda>_. {})"
  unfolding page_alloc_def by (rule trace_intro)

lemma enrols_memory [enrol_intro]:
  "enrols E (page_alloc_contiguous n) (\<lambda>_. {})" "enrols E (page_free a) (\<lambda>_. {})" "enrols E (malloc n) (\<lambda>_. {})"
  "enrols E page_alloc (\<lambda>_. {})"
  by (rule enrols_quiet; simp add: frame_memory frame_page_alloc)+

section \<open>The effect of an allocation\<close>

definition alloc_choice :: "u64 \<Rightarrow> memory \<Rightarrow> nat option" where
  "alloc_choice n m =
     (if \<not> allocator_ready m \<or> n = 0 \<or> n > 262144 then None else alloc_scan m (unat n) 256)"

lemma mem_page_alloc_contiguous:
  "mem (exec (page_alloc_contiguous n) k) =
     (case alloc_choice n (mem k) of None \<Rightarrow> mem k | Some p \<Rightarrow> claim_pages p (unat n) (mem k))"
  "ret (page_alloc_contiguous n) k =
     (case alloc_choice n (mem k) of None \<Rightarrow> 0 | Some p \<Rightarrow> word_of_nat p * PAGE_SIZE)"
  by (simp_all add: page_alloc_contiguous_def alloc_choice_def event_record_def event_current_def exec_record
      split: option.split)

lemma page_address:
  assumes "p < PAGE_COUNT"
  shows "unat (word_of_nat p * 4096 :: u64) = p * 4096"
proof -
  have "p * 4096 < 2 ^ 64" using assms by simp
  then have "unat (word_of_nat (p * 4096) :: u64) = p * 4096" by (intro unat_word_of_nat_small) simp
  then show ?thesis by simp
qed

lemma alloc_choice_Some:
  assumes "alloc_choice n m = Some p"
  shows "256 \<le> p" "p + unat n \<le> PAGE_COUNT" "0 < unat n"
    "\<And>i. i < unat n \<Longrightarrow> \<not> bitmap_is_set (p + i) m"
    "\<And>q. 256 \<le> q \<Longrightarrow> q < p \<Longrightarrow> \<not> range_is_free q (unat n) m"
proof -
  have scan: "alloc_scan m (unat n) 256 = Some p" and n: "n \<noteq> 0"
    using assms by (auto simp: alloc_choice_def split: if_splits)
  from alloc_scan_Some [OF scan] show "256 \<le> p" "p + unat n \<le> PAGE_COUNT"
    "\<And>i. i < unat n \<Longrightarrow> \<not> bitmap_is_set (p + i) m"
    "\<And>q. 256 \<le> q \<Longrightarrow> q < p \<Longrightarrow> \<not> range_is_free q (unat n) m"
    by (auto simp: range_is_free_iff)
  show "0 < unat n" using n by (simp add: unat_gt_0)
qed

lemma alloc_choice_None:
  assumes "alloc_choice n m = None" and "allocator_ready m" and "n \<noteq> 0" and "unat n \<le> PAGE_COUNT" and "256 \<le> q"
  shows "\<not> range_is_free q (unat n) m"
proof -
  have "\<not> n > 262144" using assms(4) by (simp add: word_less_nat_alt)
  then have "alloc_scan m (unat n) 256 = None"
    using assms(1-3) by (simp add: alloc_choice_def)
  from alloc_scan_None [OF this assms(5,4)] show ?thesis .
qed

section \<open>A provider of pages\<close>

text \<open>The results of an operation run \<open>n\<close> times in a row.\<close>

fun results :: "('s, 'a) state \<Rightarrow> nat \<Rightarrow> 's \<Rightarrow> 'a list" where
  "results m 0 s = []"
| "results m (Suc n) s = ret m s # results m n (exec m s)"

text \<open>What a client of \<^verbatim>\<open>page_alloc\<close> relies on: a page handed out was not held by anybody, and is
  held from then on; 0 is the failure.\<close>

locale page_provider =
  fixes grab :: "('s, u64) state" and held :: "'s \<Rightarrow> u64 set"
  assumes grab_fresh: "ret grab s \<noteq> 0 \<Longrightarrow> ret grab s \<notin> held s"
    and held_grab: "held (exec grab s) = (if ret grab s = 0 then held s else insert (ret grab s) (held s))"
begin

lemma held_mono: "a \<in> held s \<Longrightarrow> a \<in> held (exec grab s)"
  by (simp add: held_grab)

lemma results_fresh: "a \<in> set (results grab n s) \<Longrightarrow> a \<noteq> 0 \<Longrightarrow> a \<notin> held s"
proof (induction n arbitrary: s)
  case (Suc n)
  then consider "a = ret grab s" | "a \<in> set (results grab n (exec grab s))" by auto
  then show ?case
    using Suc.IH [of "exec grab s"] Suc.prems(2) grab_fresh held_mono by cases blast+
qed simp

lemma results_distinct: "distinct (filter (\<lambda>a. a \<noteq> 0) (results grab n s))"
proof (induction n arbitrary: s)
  case (Suc n)
  have "ret grab s \<notin> set (results grab n (exec grab s))" if "ret grab s \<noteq> 0"
    using results_fresh [of "ret grab s" n "exec grab s"] that by (auto simp: held_grab)
  then show ?case using Suc by auto
qed simp

lemma held_results:
  "held ((exec grab ^^ n) s) = held s \<union> (set (results grab n s) - {0})"
  by (induction n arbitrary: s) (auto simp: held_grab funpow_swap1)

end

definition held_pages :: "kernel \<Rightarrow> u64 set" where
  "held_pages k = (\<lambda>p. word_of_nat p * PAGE_SIZE) ` {p. p < PAGE_COUNT \<and> bitmap_is_set p (mem k)}"

lemma page_address_inject:
  assumes "p < PAGE_COUNT" and "q < PAGE_COUNT" and "(word_of_nat p * 4096 :: u64) = word_of_nat q * 4096"
  shows "p = q"
proof -
  have "unat (word_of_nat p * 4096 :: u64) = unat (word_of_nat q * 4096 :: u64)"
    by (rule arg_cong [OF assms(3)])
  then have "p * 4096 = q * 4096"
    by (simp only: page_address [OF assms(1)] page_address [OF assms(2)])
  then show ?thesis by simp
qed

lemma held_pages_iff:
  assumes "p < PAGE_COUNT"
  shows "word_of_nat p * PAGE_SIZE \<in> held_pages k \<longleftrightarrow> bitmap_is_set p (mem k)"
proof
  assume "word_of_nat p * PAGE_SIZE \<in> held_pages k"
  then obtain q where q: "q < PAGE_COUNT" "bitmap_is_set q (mem k)" "word_of_nat p * PAGE_SIZE = word_of_nat q * PAGE_SIZE"
    unfolding held_pages_def by blast
  from page_address_inject [OF assms q(1,3)] q(2) show "bitmap_is_set p (mem k)" by simp
qed (use assms in \<open>auto simp: held_pages_def\<close>)

lemma page_alloc_effect:
  obtains (none) "ret page_alloc k = 0" "mem (exec page_alloc k) = mem k"
  | (page) p where "256 \<le> p" "p < PAGE_COUNT" "\<not> bitmap_is_set p (mem k)"
      "ret page_alloc k = word_of_nat p * PAGE_SIZE" "ret page_alloc k \<noteq> 0"
      "mem (exec page_alloc k) = claim_pages p 1 (mem k)"
proof (cases "alloc_choice 1 (mem k)")
  case None
  then show ?thesis
    using none by (simp add: page_alloc_def mem_page_alloc_contiguous)
next
  case (Some p)
  note p = alloc_choice_Some [OF Some]
  have lt: "p < PAGE_COUNT" using p(2) by simp
  have "word_of_nat p * 4096 \<noteq> (0 :: u64)"
  proof
    assume "word_of_nat p * 4096 = (0 :: u64)"
    then show False using page_address [OF lt] p(1) by (simp only: unat_0)
  qed
  then show ?thesis
    using p(1) lt p(4) [of 0] Some by (intro page [of p]) (simp_all add: page_alloc_def mem_page_alloc_contiguous)
qed

interpretation pages: page_provider page_alloc held_pages
proof
  fix k :: kernel
  show "ret page_alloc k \<notin> held_pages k" if "ret page_alloc k \<noteq> 0"
    using that by (cases rule: page_alloc_effect [of k]) (simp_all add: held_pages_iff)
  show "held_pages (exec page_alloc k) =
      (if ret page_alloc k = 0 then held_pages k else insert (ret page_alloc k) (held_pages k))"
  proof (cases rule: page_alloc_effect [of k])
    case none
    then show ?thesis by (simp add: held_pages_def)
  next
    case (page p)
    have "{q. q < PAGE_COUNT \<and> bitmap_is_set q (claim_pages p 1 (mem k))} =
        insert p {q. q < PAGE_COUNT \<and> bitmap_is_set q (mem k)}"
      using page(2) by (auto simp: claim_pages_iff)
    then show ?thesis using page(4,5,6) by (simp add: held_pages_def)
  qed
qed

lemma page_alloc_address:
  assumes "ret page_alloc k \<noteq> 0"
  shows "0x100000 \<le> unat (ret page_alloc k)" "unat (ret page_alloc k) < 0x40000000" "4096 dvd unat (ret page_alloc k)"
proof -
  obtain p where p: "256 \<le> p" "p < PAGE_COUNT" "ret page_alloc k = word_of_nat p * PAGE_SIZE"
    using assms by (cases rule: page_alloc_effect [of k]) auto
  then have "unat (ret page_alloc k) = p * 4096" using page_address by simp
  with p show "0x100000 \<le> unat (ret page_alloc k)" "unat (ret page_alloc k) < 0x40000000"
    "4096 dvd unat (ret page_alloc k)" by simp_all
qed

end
