(* ===== verification/Heap.thy ===== *)
theory Heap
  imports Page_Allocator
begin

text \<open>
  The kernel heap and the state that \<^verbatim>\<open>memory_init\<close> sets up: the invariant of the memory
  component, what every operation keeps of it, and the bounds of the blocks \<^verbatim>\<open>malloc\<close> hands out.
\<close>

lemmas mem_simps = frame_mem_core [THEN frameD]

section \<open>Rounding and allocating\<close>

lemma unat_and_not_mask: "unat ((v :: u64) AND NOT (mask n)) = unat v div 2 ^ n * 2 ^ n"
proof -
  have "v AND NOT (mask n) = push_bit n (drop_bit n v)"
    by (rule bit_eqI) (auto simp: bit_simps)
  moreover have "take_bit 64 (unat v) = unat v"
    using unsigned_less [of v, where ?'a = nat] by (simp add: take_bit_nat_eq_self)
  then have "unat (push_bit n (drop_bit n v)) = take_bit 64 (unat v div 2 ^ n * 2 ^ n)"
    unfolding unsigned_push_bit_eq unsigned_drop_bit_eq
    by (simp add: push_bit_eq_mult drop_bit_eq_div)
  moreover have "unat v div 2 ^ n * 2 ^ n < 2 ^ 64"
    using unsigned_less [of v, where ?'a = nat] by (intro le_less_trans [OF div_times_less_eq_dividend]) simp
  ultimately show ?thesis by (simp add: take_bit_nat_eq_self)
qed

lemma unat_heap_round:
  assumes "n \<le> 0xFFFFFFFFFFFFFFFF - 15"
  shows "unat (heap_round n) = (unat n + 15) div 16 * 16"
proof -
  have "unat n \<le> 2 ^ 64 - 16"
    using assms by (simp add: word_le_nat_alt)
  then have sum: "unat (n + 15) = unat n + 15"
    by (subst unat_add_lem [THEN iffD1]) simp_all
  have m: "(15 :: u64) = mask 4" by (simp add: mask_eq_exp_minus_1)
  have "unat ((n + 15) AND NOT (mask 4)) = (unat n + 15) div 16 * 16"
    unfolding unat_and_not_mask by (simp add: sum)
  then show ?thesis unfolding heap_round_def m [symmetric] .
qed

definition heap_fits :: "u64 \<Rightarrow> memory \<Rightarrow> bool" where
  "heap_fits n m \<longleftrightarrow> n \<noteq> 0 \<and> heap_ready m \<and> n \<le> 0xFFFFFFFFFFFFFFFF - 15 \<and> heap_round n \<le> heap_limit m - heap_ptr m"

lemma mem_malloc:
  "mem (exec (malloc n) k) =
     (if heap_fits n (mem k) then (mem k)\<lparr>heap_ptr := heap_ptr (mem k) + heap_round n\<rparr> else mem k)"
  "ret (malloc n) k = (if heap_fits n (mem k) then heap_ptr (mem k) else 0)"
  by (auto simp: malloc_def heap_fits_def mem_simps)

lemma heap_fits_bounds:
  assumes "heap_fits n m"
  shows "unat (heap_ptr m + heap_round n) = unat (heap_ptr m) + unat (heap_round n)"
    and "unat (heap_ptr m) + unat (heap_round n) \<le> unat (heap_limit m)"
    and "unat n \<le> unat (heap_round n)" and "16 dvd unat (heap_round n)"
    and "heap_base m \<le> heap_ptr m" and "heap_ptr m \<noteq> 0"
proof -
  have ready: "heap_base m \<noteq> 0" "heap_base m \<le> heap_ptr m" "heap_ptr m \<le> heap_limit m"
    and n: "n \<le> 0xFFFFFFFFFFFFFFFF - 15" "heap_round n \<le> heap_limit m - heap_ptr m"
    using assms by (auto simp: heap_fits_def heap_ready_def not_less)
  show le: "unat (heap_ptr m) + unat (heap_round n) \<le> unat (heap_limit m)"
    using n(2) ready(3) by (simp add: word_le_nat_alt unat_sub)
  then show "unat (heap_ptr m + heap_round n) = unat (heap_ptr m) + unat (heap_round n)"
    using unsigned_less [of "heap_limit m", where ?'a = nat] by (subst unat_add_lem [THEN iffD1]) simp_all
  show "unat n \<le> unat (heap_round n)" "16 dvd unat (heap_round n)"
    by (simp_all add: unat_heap_round [OF n(1)])
  show "heap_base m \<le> heap_ptr m" "heap_ptr m \<noteq> 0" using ready by auto
qed

section \<open>The invariant of the memory component\<close>

text \<open>Only usable pages are ever free, the pages of the heap are taken, and the heap pointer is
  aligned and within the heap.\<close>

definition heap_pages :: "memory \<Rightarrow> nat set" where
  "heap_pages m = {q. unat (heap_base m) \<le> q * 4096 \<and> q * 4096 < unat (heap_limit m)}"

definition memory_ok :: "memory \<Rightarrow> bool" where
  "memory_ok m \<longleftrightarrow> frames_ok m \<and> (\<forall>q \<in> heap_pages m. bitmap_is_set q m) \<and>
     heap_base m \<le> heap_ptr m \<and> heap_ptr m \<le> heap_limit m \<and>
     4096 dvd unat (heap_base m) \<and> 16 dvd unat (heap_ptr m)"

lemma claim_pages_heap [simp]:
  "heap_base (claim_pages p n m) = heap_base m" "heap_limit (claim_pages p n m) = heap_limit m"
  "heap_ptr (claim_pages p n m) = heap_ptr m" "allocator_ready (claim_pages p n m) = allocator_ready m"
  "ram (claim_pages p n m) = ram m" "cr3 (claim_pages p n m) = cr3 m" "kernel_cr3 (claim_pages p n m) = kernel_cr3 m"
  by (simp_all add: claim_pages_def bitmap_set_def fold_frame [where p = heap_base] fold_frame [where p = heap_limit]
      fold_frame [where p = heap_ptr] fold_frame [where p = allocator_ready] fold_frame [where p = ram]
      fold_frame [where p = cr3] fold_frame [where p = kernel_cr3])

lemma bitmap_clear_heap [simp]:
  "heap_base (bitmap_clear p m) = heap_base m" "heap_limit (bitmap_clear p m) = heap_limit m"
  "heap_ptr (bitmap_clear p m) = heap_ptr m" "allocator_ready (bitmap_clear p m) = allocator_ready m"
  by (simp_all add: bitmap_clear_def)

lemma other_fields_bitmaps [simp]:
  "bitmap_is_set q (m\<lparr>heap_ptr := v_heap_ptr\<rparr>) = bitmap_is_set q m"
  "usable_bitmap_is_set q (m\<lparr>heap_ptr := v_heap_ptr\<rparr>) = usable_bitmap_is_set q m"
  "bitmap_is_set q (m\<lparr>heap_base := v_heap_base\<rparr>) = bitmap_is_set q m"
  "usable_bitmap_is_set q (m\<lparr>heap_base := v_heap_base\<rparr>) = usable_bitmap_is_set q m"
  "bitmap_is_set q (m\<lparr>heap_limit := v_heap_limit\<rparr>) = bitmap_is_set q m"
  "usable_bitmap_is_set q (m\<lparr>heap_limit := v_heap_limit\<rparr>) = usable_bitmap_is_set q m"
  "bitmap_is_set q (m\<lparr>allocator_ready := v_allocator_ready\<rparr>) = bitmap_is_set q m"
  "usable_bitmap_is_set q (m\<lparr>allocator_ready := v_allocator_ready\<rparr>) = usable_bitmap_is_set q m"
  "bitmap_is_set q (m\<lparr>usable_memory_bytes := v_usable_memory_bytes\<rparr>) = bitmap_is_set q m"
  "usable_bitmap_is_set q (m\<lparr>usable_memory_bytes := v_usable_memory_bytes\<rparr>) = usable_bitmap_is_set q m"
  "bitmap_is_set q (m\<lparr>ram := v_ram\<rparr>) = bitmap_is_set q m"
  "usable_bitmap_is_set q (m\<lparr>ram := v_ram\<rparr>) = usable_bitmap_is_set q m"
  "bitmap_is_set q (m\<lparr>cr3 := v_cr3\<rparr>) = bitmap_is_set q m"
  "usable_bitmap_is_set q (m\<lparr>cr3 := v_cr3\<rparr>) = usable_bitmap_is_set q m"
  by (simp_all add: bitmap_is_set_def usable_bitmap_is_set_def)

lemma memory_ok_claim: "memory_ok m \<Longrightarrow> memory_ok (claim_pages p n m)"
  by (simp add: memory_ok_def heap_pages_def frames_ok_claim claim_pages_iff)

lemma aligned_iff: "(a :: u64) AND (4096 - 1) = 0 \<longleftrightarrow> 4096 dvd unat a"
proof -
  have m: "(4096 - 1 :: u64) = mask 12" by (simp add: mask_eq_exp_minus_1)
  have "a AND (4096 - 1) = 0 \<longleftrightarrow> take_bit 12 a = 0" unfolding m take_bit_eq_mask ..
  also have "\<dots> \<longleftrightarrow> take_bit 12 (unat a) = 0"
    by (metis unsigned_take_bit_eq unsigned_eq_0_iff)
  also have "\<dots> \<longleftrightarrow> 4096 dvd unat a" by (simp add: take_bit_eq_mod mod_eq_0_iff_dvd)
  finally show ?thesis .
qed

lemma freeable_iff:
  "freeable m a \<longleftrightarrow> 4096 dvd unat a \<and> PAGE_ALLOCATOR_START \<le> a \<and> a < IDENTITY_MAP_LIMIT \<and>
     \<not> (heap_base m \<le> a \<and> a < heap_limit m) \<and> usable_bitmap_is_set (unat a div 4096) m"
  unfolding freeable_def aligned_iff [symmetric] by (auto simp only: not_less not_le)

lemma mem_page_free:
  "mem (exec (page_free a) k) = (if freeable (mem k) a then bitmap_clear (unat a div 4096) (mem k) else mem k)"
  by (simp add: page_free_def event_current_def mem_simps)

lemma memory_ok_free:
  assumes "memory_ok m" and "freeable m a"
  shows "memory_ok (bitmap_clear (unat a div 4096) m)"
proof -
  let ?p = "unat a div 4096"
  have a: "?p * 4096 = unat a" "\<not> (heap_base m \<le> a \<and> a < heap_limit m)" "usable_bitmap_is_set ?p m"
    using assms(2) by (simp_all add: freeable_iff)
  then have "?p \<notin> heap_pages m"
    by (simp add: heap_pages_def word_le_nat_alt word_less_nat_alt)
  then show ?thesis
    using assms(1) a(3)
    by (auto simp: memory_ok_def heap_pages_def frames_ok_clear taken_pages.has_remove)
qed

lemma memory_ok_malloc:
  assumes "memory_ok m" and "heap_fits n m"
  shows "memory_ok (m\<lparr>heap_ptr := heap_ptr m + heap_round n\<rparr>)"
proof -
  let ?m = "m\<lparr>heap_ptr := heap_ptr m + heap_round n\<rparr>"
  note fit = heap_fits_bounds [OF assms(2)]
  have "heap_base m \<le> heap_ptr m + heap_round n" "heap_ptr m + heap_round n \<le> heap_limit m"
    using fit(1,2,5) unfolding word_le_nat_alt by linarith+
  moreover have "16 dvd unat (heap_ptr m + heap_round n)"
    using fit(1,4) assms(1) by (simp add: memory_ok_def)
  moreover have "frames_ok ?m = frames_ok m" "heap_pages ?m = heap_pages m" "bitmap_is_set q ?m = bitmap_is_set q m" for q
    by (simp_all add: heap_pages_def bitmap_is_set_def cong: frames_ok_cong)
  ultimately show ?thesis
    using assms(1) by (simp add: memory_ok_def)
qed

lemma keeps_memory_ok:
  "keeps (\<lambda>k. memory_ok (mem k)) (page_alloc_contiguous n)" "keeps (\<lambda>k. memory_ok (mem k)) (page_free a)"
  "keeps (\<lambda>k. memory_ok (mem k)) (malloc n)"
  by (auto intro!: keepsI simp: mem_page_alloc_contiguous mem_page_free mem_malloc memory_ok_claim
      memory_ok_free memory_ok_malloc split: option.split)

section \<open>Initialisation\<close>

text \<open>The state after a successful \<^verbatim>\<open>memory_init\<close>: the loaded map with the sixteen pages of the
  heap claimed.\<close>

lemma memory_init_effect:
  assumes "ret (memory_init ts be info) k"
  obtains m p where "load_memory_map ts be info (reset_memory (mem k)) = Inr m"
    "alloc_choice 16 (m\<lparr>allocator_ready := True\<rparr>) = Some p"
    "mem (exec (memory_init ts be info) k) = (claim_pages p 16 (m\<lparr>allocator_ready := True\<rparr>))
       \<lparr>heap_ptr := word_of_nat p * 4096, heap_base := word_of_nat p * 4096,
        heap_limit := word_of_nat p * 4096 + 16 * 4096\<rparr>"
proof -
  obtain m where m: "load_memory_map ts be info (reset_memory (mem k)) = Inr m"
    using assms by (auto simp: memory_init_def event_current_def mem_simps split: sum.splits if_splits)
  obtain p where p: "alloc_choice 16 (m\<lparr>allocator_ready := True\<rparr>) = Some p" "word_of_nat p * 4096 \<noteq> (0 :: u64)"
    using assms m
    by (auto simp: memory_init_def event_current_def mem_simps mem_page_alloc_contiguous
        split: if_splits option.splits)
  have "info_valid (mem k) info"
    using assms by (auto simp: memory_init_def split: if_splits)
  then have "mem (exec (memory_init ts be info) k) = (claim_pages p 16 (m\<lparr>allocator_ready := True\<rparr>))
       \<lparr>heap_ptr := word_of_nat p * 4096, heap_base := word_of_nat p * 4096,
        heap_limit := word_of_nat p * 4096 + 16 * 4096\<rparr>"
    using m p by (simp add: memory_init_def event_current_def mem_simps mem_page_alloc_contiguous)
  with m p(1) show thesis by (rule that)
qed

lemma memory_ok_init:
  assumes ok: "ret (memory_init ts be info) k"
  defines "m' \<equiv> mem (exec (memory_init ts be info) k)"
  shows "memory_ok m'" and "allocator_ready m'" and "heap_ptr m' = heap_base m'"
    and "heap_limit m' = heap_base m' + 65536"
    and "q < PAGE_COUNT \<Longrightarrow> usable_bitmap_is_set q m' \<longleftrightarrow>
      q \<in> offered_pages (mem k) (record_addresses (mem k) info) \<and>
      q \<notin> withheld_pages (mem k) (record_addresses (mem k) info) \<and>
      q \<notin> kernel_pages ts be info (info_mmap_addr (mem k) info) (info_mmap_length (mem k) info)"
    and "q < PAGE_COUNT \<Longrightarrow> bitmap_is_set q m' \<longleftrightarrow> \<not> usable_bitmap_is_set q m' \<or> q \<in> heap_pages m'"
proof -
  obtain m p where load: "load_memory_map ts be info (reset_memory (mem k)) = Inr m"
    and p: "alloc_choice 16 (m\<lparr>allocator_ready := True\<rparr>) = Some p"
    and m': "m' = (claim_pages p 16 (m\<lparr>allocator_ready := True\<rparr>))
       \<lparr>heap_ptr := word_of_nat p * 4096, heap_base := word_of_nat p * 4096,
        heap_limit := word_of_nat p * 4096 + 16 * 4096\<rparr>"
    unfolding m'_def by (rule memory_init_effect [OF ok])
  have p_range: "256 \<le> p" "p + 16 \<le> PAGE_COUNT"
    using alloc_choice_Some(1,2) [OF p] by simp_all
  have base: "unat (word_of_nat p * 4096 :: u64) = p * 4096"
    using page_address p_range by simp
  have limit: "unat (word_of_nat p * 4096 + 65536 :: u64) = p * 4096 + 65536"
    using base p_range by (subst unat_add_lem [THEN iffD1]) simp_all
  have heap: "heap_pages m' = {p..<p + 16}"
    using base limit by (auto simp: heap_pages_def m')
  have bits: "bitmap_is_set q m' \<longleftrightarrow> (p \<le> q \<and> q < p + 16) \<or> bitmap_is_set q m"
    "usable_bitmap_is_set q m' = usable_bitmap_is_set q m" for q
    by (simp_all add: m' claim_pages_iff)
  show "allocator_ready m'" "heap_ptr m' = heap_base m'" "heap_limit m' = heap_base m' + 65536"
    by (simp_all add: m')
  note pages = load_memory_map_pages [OF load]
  show "q < PAGE_COUNT \<Longrightarrow> usable_bitmap_is_set q m' \<longleftrightarrow>
      q \<in> offered_pages (mem k) (record_addresses (mem k) info) \<and>
      q \<notin> withheld_pages (mem k) (record_addresses (mem k) info) \<and>
      q \<notin> kernel_pages ts be info (info_mmap_addr (mem k) info) (info_mmap_length (mem k) info)" for q
    using pages(1) by (simp add: bits)
  show "q < PAGE_COUNT \<Longrightarrow> bitmap_is_set q m' \<longleftrightarrow> \<not> usable_bitmap_is_set q m' \<or> q \<in> heap_pages m'" for q
    using pages(2) by (auto simp: bits heap)
  have "\<not> usable_bitmap_is_set q m'" if "q < 256" for q
  proof -
    have "q \<notin> offered_pages (mem k) E" for E
      using that pages_inside_low by (fastforce simp: offered_pages_def)
    then show ?thesis using pages(1) [of q] that by (simp add: bits)
  qed
  then have "frames_ok m'"
    using pages(2) by (auto simp: frames_ok_def bits)
  moreover have "word_of_nat p * 4096 \<le> (word_of_nat p * 4096 + 65536 :: u64)"
    unfolding word_le_nat_alt base limit by simp
  moreover have "4096 dvd unat (heap_base m')" "16 dvd unat (heap_ptr m')"
    by (simp_all add: m' base)
  ultimately show "memory_ok m'"
    by (simp add: memory_ok_def heap bits) (simp add: m')
qed

text \<open>The number of usable bytes is 4096 times the number of usable pages.\<close>

lemma recount_fold:
  "usable_memory_bytes (fold (\<lambda>page m. if usable_bitmap_is_set page m
      then m\<lparr>usable_memory_bytes := usable_memory_bytes m + 4096\<rparr> else m) ps m) =
   usable_memory_bytes m + word_of_nat (4096 * length (filter (\<lambda>p. usable_bitmap_is_set p m) ps))"
proof (induction ps arbitrary: m)
  case (Cons p ps)
  then show ?case by (simp add: algebra_simps)
qed simp

lemma usable_bytes_recount:
  "unat (usable_memory_bytes (recount_usable_memory m)) =
     4096 * card {q. 256 \<le> q \<and> q < PAGE_COUNT \<and> usable_bitmap_is_set q m}"
proof -
  let ?ps = "filter (\<lambda>p. usable_bitmap_is_set p m) [256..<PAGE_COUNT]"
  have "length ?ps \<le> length [256..<PAGE_COUNT]" by (rule length_filter_le)
  then have "4096 * length ?ps < 2 ^ 64" by simp
  then have "unat (word_of_nat (4096 * length ?ps) :: u64) = 4096 * length ?ps"
    by (intro unat_word_of_nat_small) simp
  moreover have "card (set ?ps) = length ?ps" by (rule distinct_card) simp
  moreover have "set ?ps = {q. 256 \<le> q \<and> q < PAGE_COUNT \<and> usable_bitmap_is_set q m}" by auto
  moreover have "usable_memory_bytes (recount_usable_memory m) = word_of_nat (4096 * length ?ps)"
    unfolding recount_usable_memory_def recount_fold by simp
  ultimately show ?thesis by (simp only:)
qed

text \<open>A machine whose firmware reports one usable megabyte at 4 MiB.\<close>

definition one_megabyte :: "u64 \<Rightarrow> u8" where
  "one_megabyte = (\<lambda>_. 0)(0x9000 := 64, 0x902C := 24, 0x9031 := 0xA0,
     0xA000 := 20, 0xA006 := 0x40, 0xA00E := 0x10, 0xA014 := 1)"

lemma one_megabyte_info:
  assumes "ram m = one_megabyte"
  shows "info_valid m 0x9000" "info_mmap_addr m 0x9000 = 0xA000" "info_mmap_length m 0x9000 = 24"
    "entry_size m 0xA000 = 20" "entry_base m 0xA000 = 0x400000" "entry_length m 0xA000 = 0x100000"
    "entry_type m 0xA000 = 1"
  by (simp_all add: info_valid_def info_mmap_addr_def info_mmap_length_def info_flags_def entry_size_def
      entry_base_def entry_length_def entry_type_def read32_def read64_def assms one_megabyte_def)

lemma one_megabyte_loads:
  assumes "ram m = one_megabyte"
  shows "\<exists>m'. load_memory_map ts be 0x9000 m = Inr m'" and "record_addresses m 0x9000 = {0xA000}"
proof -
  have "ram (use_entry 0xA000 m) = one_megabyte" by (simp add: assms)
  note facts = one_megabyte_info [OF assms]
  have scan: "scan_usable 0xA000 24 0 m = Inr (use_entry 0xA000 m)"
    by (subst scan_usable.simps, subst scan_usable.simps) (simp add: Let_def entry_bad_def facts)
  then obtain m3 where "scan_reserved (unat (24 :: u32)) 0xA000 24 0 (use_entry 0xA000 m) = Some m3"
    using scan_usable_fold(2) [OF scan, of "unat (24 :: u32)" "use_entry 0xA000 m"] by auto
  then show "\<exists>m'. load_memory_map ts be 0x9000 m = Inr m'"
    by (simp add: load_memory_map_def facts scan)
  have fuel: "unat (24 :: u32) = Suc (Suc 22)" by simp
  have offsets: "record_offsets (Suc (Suc 22)) 0xA000 24 0 m = [0]"
    unfolding record_offsets.simps by (simp add: facts)
  show "record_addresses m 0x9000 = {0xA000}"
    unfolding record_addresses_def facts fuel offsets by simp
qed

lemma one_megabyte_pages:
  assumes "ram m = one_megabyte" and "1024 \<le> q" and "q < 1280"
  shows "q \<in> offered_pages m {0xA000}" and "q \<notin> withheld_pages m {0xA000}"
    and "q \<notin> kernel_pages 0x200000 0x280000 0x9000 0xA000 24"
proof -
  note facts = one_megabyte_info [OF assms(1)]
  have "usable_record m 0xA000" by (simp add: usable_record_def facts)
  moreover have "q \<in> pages_inside 0x400000 0x100000"
    using assms(2,3) by (simp add: pages_inside_def low_byte_def high_byte_def)
  ultimately show "q \<in> offered_pages m {0xA000}" and "q \<notin> withheld_pages m {0xA000}"
    by (auto simp: offered_pages_def withheld_pages_def facts)
  show "q \<notin> kernel_pages 0x200000 0x280000 0x9000 0xA000 24"
    using assms(2) by (auto simp: kernel_pages_def range_pages_def pages_touching_def low_byte_def high_byte_def)
qed

lemma one_megabyte_init:
  assumes "ram (mem k) = one_megabyte"
  shows "ret (memory_init 0x200000 0x280000 0x9000) k"
proof -
  let ?m = "reset_memory (mem k)"
  have ram: "ram ?m = one_megabyte" by (simp add: reset_memory_def assms)
  obtain m where m: "load_memory_map 0x200000 0x280000 0x9000 ?m = Inr m"
    using one_megabyte_loads(1) [OF ram] by blast
  have "\<not> bitmap_is_set q m" if "1024 \<le> q" "q < 1280" for q
    using load_memory_map_pages [OF m, of q] one_megabyte_pages [OF assms that] that
      one_megabyte_loads(2) [OF assms] one_megabyte_info [OF assms]
    by simp
  then have free: "range_is_free 1024 16 (m\<lparr>allocator_ready := True\<rparr>)"
    by (simp add: range_is_free_iff)
  obtain p where p: "alloc_choice 16 (m\<lparr>allocator_ready := True\<rparr>) = Some p"
    using alloc_choice_None [of 16 "m\<lparr>allocator_ready := True\<rparr>" 1024] free by (cases "alloc_choice 16 (m\<lparr>allocator_ready := True\<rparr>)") auto
  have "unat (word_of_nat p * 4096 :: u64) = p * 4096"
    using alloc_choice_Some(2) [OF p] page_address by simp
  then have "word_of_nat p * 4096 \<noteq> (0 :: u64)"
    using alloc_choice_Some(1) [OF p] by (metis mult_is_0 not_numeral_le_zero unat_0 zero_neq_numeral)
  then show ?thesis
    using one_megabyte_info(1) [OF assms] m p
    by (simp add: memory_init_def event_current_def mem_simps mem_page_alloc_contiguous)
qed

section \<open>Sequences of requests\<close>

datatype memory_request = Alloc u64 | Free u64 | Malloc u64

definition serve :: "memory_request \<Rightarrow> u64 op" where
  "serve request =
     (case request of
        Alloc n \<Rightarrow> page_alloc_contiguous n
      | Free a \<Rightarrow> do { page_free a; return 0 }
      | Malloc n \<Rightarrow> malloc n)"

lemma keeps_serve: "keeps (\<lambda>k. memory_ok (mem k)) (serve request)"
  by (cases request) (simp_all add: serve_def keeps_memory_ok keeps_bind keeps_pure)

lemma memory_ok_served: "memory_ok (mem k) \<Longrightarrow> memory_ok (mem (fold (\<lambda>r. exec (serve r)) rs k))"
  by (induction rs arbitrary: k) (simp_all add: keepsD [OF keeps_serve])

text \<open>The blocks a sequence of \<^verbatim>\<open>malloc\<close> calls hands out, with the sizes asked for.\<close>

fun blocks :: "u64 list \<Rightarrow> kernel \<Rightarrow> (u64 \<times> u64) list" where
  "blocks [] k = []"
| "blocks (n # ns) k =
     (if ret (malloc n) k = 0 then blocks ns (exec (malloc n) k)
      else (ret (malloc n) k, n) # blocks ns (exec (malloc n) k))"

definition block_within :: "u64 \<Rightarrow> u64 \<Rightarrow> u64 \<times> u64 \<Rightarrow> bool" where
  "block_within lo hi b \<longleftrightarrow> lo \<le> fst b \<and> unat (fst b) + unat (snd b) \<le> unat hi \<and> 16 dvd unat (fst b)"

lemma block_within_mono: "block_within lo hi b \<Longrightarrow> lo' \<le> lo \<Longrightarrow> block_within lo' hi b"
  by (auto simp: block_within_def)

lemma blocks_within:
  assumes "memory_ok (mem k)"
  shows "list_all (block_within (heap_ptr (mem k)) (heap_limit (mem k))) (blocks ns k)"
  using assms
proof (induction ns arbitrary: k)
  case (Cons n ns)
  let ?k = "exec (malloc n) k"
  have ok: "memory_ok (mem ?k)" by (rule keepsD [OF keeps_memory_ok(3) Cons.prems])
  show ?case
  proof (cases "heap_fits n (mem k)")
    case False
    then show ?thesis using Cons.IH [OF ok] by (simp add: mem_malloc)
  next
    case True
    note fit = heap_fits_bounds [OF True]
    have mono: "heap_ptr (mem k) \<le> heap_ptr (mem ?k)"
      using True fit(1) by (simp add: mem_malloc word_le_nat_alt)
    have "heap_limit (mem ?k) = heap_limit (mem k)" using True by (simp add: mem_malloc)
    then have "list_all (block_within (heap_ptr (mem k)) (heap_limit (mem k))) (blocks ns ?k)"
      using Cons.IH [OF ok] mono by (auto simp: list_all_iff intro: block_within_mono)
    moreover have "block_within (heap_ptr (mem k)) (heap_limit (mem k)) (heap_ptr (mem k), n)"
      using fit(2,3) Cons.prems by (simp add: block_within_def memory_ok_def)
    ultimately show ?thesis using True fit(6) by (simp add: mem_malloc)
  qed
qed simp

lemma blocks_disjoint:
  assumes "memory_ok (mem k)"
  shows "sorted_wrt (\<lambda>b c. unat (fst b) + unat (snd b) \<le> unat (fst c)) (blocks ns k)"
  using assms
proof (induction ns arbitrary: k)
  case (Cons n ns)
  let ?k = "exec (malloc n) k"
  have ok: "memory_ok (mem ?k)" by (rule keepsD [OF keeps_memory_ok(3) Cons.prems])
  show ?case
  proof (cases "heap_fits n (mem k)")
    case True
    note fit = heap_fits_bounds [OF True]
    have "unat (heap_ptr (mem k)) + unat n \<le> unat (fst c)" if "c \<in> set (blocks ns ?k)" for c
      using blocks_within [OF ok, of ns] that fit(1,3) True
      by (fastforce simp: list_all_iff block_within_def mem_malloc word_le_nat_alt)
    then show ?thesis using Cons.IH [OF ok] True by (simp add: mem_malloc)
  qed (use Cons.IH [OF ok] in \<open>simp add: mem_malloc\<close>)
qed simp

text \<open>The machine with one usable megabyte, after its memory has been initialised.\<close>

definition one_megabyte_kernel :: kernel where
  "one_megabyte_kernel = exec (memory_init 0x200000 0x280000 0x9000) (first_kernel\<lparr>mem := zero_memory one_megabyte\<rparr>)"

lemma one_megabyte_kernel: "memory_ok (mem one_megabyte_kernel)" "ret page_alloc one_megabyte_kernel \<noteq> 0"
proof -
  let ?k = "first_kernel\<lparr>mem := zero_memory one_megabyte\<rparr>" and ?m = "mem one_megabyte_kernel"
  have ram: "ram (mem ?k) = one_megabyte" by (simp add: zero_memory_def)
  note init = memory_ok_init [OF one_megabyte_init [OF ram], folded one_megabyte_kernel_def]
  show "memory_ok ?m" by (rule init(1))
  have taken: "bitmap_is_set q ?m \<longleftrightarrow> q \<in> heap_pages ?m" if "1024 \<le> q" "q < 1280" for q
    using init(5,6) [of q] that one_megabyte_pages [OF ram that] one_megabyte_loads(2) [OF ram]
      one_megabyte_info [OF ram] by simp
  have "unat (heap_limit ?m) \<le> unat (heap_base ?m) + 65536"
    unfolding init(4) unat_word_ariths(1) by (rule order_trans [OF mod_less_eq_dividend]) simp
  then have "1024 \<notin> heap_pages ?m \<or> 1279 \<notin> heap_pages ?m"
    by (auto simp: heap_pages_def)
  then have "\<not> bitmap_is_set 1024 ?m \<or> \<not> bitmap_is_set 1279 ?m"
    using taken [of 1024] taken [of 1279] by simp
  then obtain q where "\<not> bitmap_is_set q ?m" "1024 \<le> q" "q < 1280" by force
  then have "256 \<le> q" "range_is_free q (unat (1 :: u64)) ?m"
    by (simp_all add: range_is_free_iff)
  then obtain p where "alloc_choice 1 ?m = Some p"
    using alloc_choice_None [of 1 ?m q] init(2) by (cases "alloc_choice 1 ?m") auto
  then have "ret page_alloc one_megabyte_kernel = word_of_nat p * 4096" "256 \<le> p" "p < PAGE_COUNT"
    using alloc_choice_Some(1,2) [of 1 ?m p] by (simp_all add: page_alloc_def mem_page_alloc_contiguous)
  then show "ret page_alloc one_megabyte_kernel \<noteq> 0"
    using page_address [of p] by (metis mult_is_0 not_numeral_le_zero unat_0 zero_neq_numeral)
qed

section \<open>Properties\<close>

text \<open>C9: A successful \<^verbatim>\<open>memory_init\<close> makes allocable exactly the pages that lie entirely inside a
  non-empty usable record of the firmware's map, touch no other record, and belong neither to the
  loader, the kernel image, the boot stack nor the map itself: device memory and the kernel can
  never be handed out. Of these, exactly the sixteen pages of the heap are taken at the start.\<close>

theorem memory_init_exact:
  assumes "ret (memory_init text_start bss_end info) k" and "q < 262144"
  shows "let m = mem k; m' = mem (exec (memory_init text_start bss_end info) k); E = record_addresses m info in
    usable_bitmap_is_set q m' =
      (q \<in> offered_pages m E \<and> q \<notin> withheld_pages m E \<and>
       q \<notin> kernel_pages text_start bss_end info (info_mmap_addr m info) (info_mmap_length m info)) \<and>
    bitmap_is_set q m' = (usable_bitmap_is_set q m' = False \<or> q \<in> heap_pages m') \<and>
    heap_limit m' = heap_base m' + 16 * 4096 \<and> heap_ptr m' = heap_base m'"
  using memory_ok_init(3-6) [OF assms(1)] assms(2) by (auto simp: Let_def)

theorem memory_init_exact_witness:
  "usable_bitmap_is_set 1100 (mem (exec (memory_init 0x200000 0x280000 0x9000) (power_on one_megabyte)))"
proof -
  have ram: "ram (mem (power_on one_megabyte)) = one_megabyte" by (simp add: power_on_def zero_memory_def)
  have q: "1024 \<le> (1100 :: nat)" "1100 < (1280 :: nat)" by simp_all
  from memory_init_exact [OF one_megabyte_init [OF ram], of 1100]
  show ?thesis
    using one_megabyte_pages [OF ram q] one_megabyte_loads(2) [OF ram] one_megabyte_info [OF ram]
    by (simp add: Let_def)
qed

text \<open>C10: Whatever sequence of page allocations, releases and heap allocations follows a successful
  initialisation, only usable pages are free, every page of the heap stays taken, and the heap
  pointer stays 16-aligned inside the heap.\<close>

theorem memory_stays_sound:
  assumes "ret (memory_init text_start bss_end info) k"
  shows "memory_ok (mem (fold (\<lambda>r. exec (serve r)) requests (exec (memory_init text_start bss_end info) k)))"
  by (rule memory_ok_served [OF memory_ok_init(1) [OF assms]])

theorem memory_stays_sound_witness:
  "memory_ok (mem (fold (\<lambda>r. exec (serve r)) [Alloc 3, Malloc 100, Free 0x400000, Malloc 70000]
     (exec (memory_init 0x200000 0x280000 0x9000) (power_on one_megabyte))))"
proof -
  have "ram (mem (power_on one_megabyte)) = one_megabyte" by (simp add: power_on_def zero_memory_def)
  from memory_stays_sound [OF one_megabyte_init [OF this]] show ?thesis .
qed

text \<open>C11: The blocks that any sequence of \<^verbatim>\<open>malloc\<close> calls hands out are 16-aligned, lie inside the
  heap with their whole size, and are pairwise disjoint, in increasing order; no request, however
  large, wraps around.\<close>

theorem heap_blocks_disjoint:
  assumes "memory_ok (mem k)"
  shows "sorted_wrt (\<lambda>b c. unat (fst b) + unat (snd b) \<le> unat (fst c)) (blocks sizes k) \<and>
    list_all (\<lambda>b. heap_base (mem k) \<le> fst b \<and> unat (fst b) + unat (snd b) \<le> unat (heap_limit (mem k)) \<and>
      16 dvd unat (fst b)) (blocks sizes k)"
proof
  show "sorted_wrt (\<lambda>b c. unat (fst b) + unat (snd b) \<le> unat (fst c)) (blocks sizes k)"
    by (rule blocks_disjoint [OF assms])
  have "heap_base (mem k) \<le> heap_ptr (mem k)" using assms by (simp add: memory_ok_def)
  then show "list_all (\<lambda>b. heap_base (mem k) \<le> fst b \<and> unat (fst b) + unat (snd b) \<le> unat (heap_limit (mem k)) \<and>
      16 dvd unat (fst b)) (blocks sizes k)"
    using blocks_within [OF assms, of sizes] by (auto simp: list_all_iff block_within_def)
qed

theorem heap_blocks_disjoint_witness:
  "sorted_wrt (\<lambda>b c. unat (fst b) + unat (snd b) \<le> unat (fst c)) (blocks [100, 0, 5000, 2] one_megabyte_kernel)"
  using heap_blocks_disjoint [OF one_megabyte_kernel(1), of "[100, 0, 5000, 2]"] by simp

text \<open>C12: Releasing a page that was just allocated restores the bitmap: the address \<^verbatim>\<open>page_alloc\<close>
  returns is always one \<^verbatim>\<open>page_free\<close> accepts, and no other page is affected.\<close>

theorem free_undoes_alloc:
  assumes "memory_ok (mem k)" and "ret page_alloc k \<noteq> 0"
  shows "bitmap_is_set q (mem (exec (page_free (ret page_alloc k)) (exec page_alloc k))) = bitmap_is_set q (mem k)"
proof -
  obtain p where p: "256 \<le> p" "p < PAGE_COUNT" "\<not> bitmap_is_set p (mem k)"
    "ret page_alloc k = word_of_nat p * PAGE_SIZE" "mem (exec page_alloc k) = claim_pages p 1 (mem k)"
    using assms(2) by (cases rule: page_alloc_effect [of k]) auto
  have a: "unat (ret page_alloc k) = p * 4096" using p(2,4) page_address by simp
  have "usable_bitmap_is_set p (mem k)" "p \<notin> heap_pages (mem k)"
    using assms(1) p(2,3) by (auto simp: memory_ok_def frames_ok_def)
  then have "freeable (mem (exec page_alloc k)) (ret page_alloc k)"
    using a p(1,2) by (simp add: p(5) freeable_iff heap_pages_def word_le_nat_alt word_less_nat_alt)
  then show ?thesis
    using p(3) a by (auto simp: mem_page_free taken_pages.has_remove p(5) claim_pages_iff)
qed

theorem free_undoes_alloc_witness:
  "bitmap_is_set 1100 (mem (exec (page_free (ret page_alloc one_megabyte_kernel)) (exec page_alloc one_megabyte_kernel))) =
     bitmap_is_set 1100 (mem one_megabyte_kernel)"
  by (rule free_undoes_alloc [OF one_megabyte_kernel])

text \<open>C13: A successful request for \<open>n\<close> pages gets the first run of \<open>n\<close> free pages from the first
  megabyte on; exactly these pages change from free to taken; and, when every free page is one the
  memory map offers, they are usable memory below 1 GiB.\<close>

theorem allocation_first_fit:
  assumes "ret (page_alloc_contiguous n) k \<noteq> 0"
  shows "\<exists>p. ret (page_alloc_contiguous n) k = word_of_nat p * 4096 \<and> 256 \<le> p \<and> p + unat n \<le> 262144 \<and>
    (\<forall>q. p \<le> q \<and> q < p + unat n \<longrightarrow> \<not> bitmap_is_set q (mem k) \<and> (frames_ok (mem k) \<longrightarrow> usable_bitmap_is_set q (mem k))) \<and>
    (\<forall>q. bitmap_is_set q (mem (exec (page_alloc_contiguous n) k)) \<longleftrightarrow>
      (p \<le> q \<and> q < p + unat n) \<or> bitmap_is_set q (mem k)) \<and>
    (\<forall>q. 256 \<le> q \<and> q < p \<longrightarrow> (\<exists>i < unat n. bitmap_is_set (q + i) (mem k)))"
proof -
  obtain p where p: "alloc_choice n (mem k) = Some p"
    using assms by (auto simp: mem_page_alloc_contiguous split: option.splits)
  note fits = alloc_choice_Some [OF p]
  have "\<not> bitmap_is_set q (mem k) \<and> (frames_ok (mem k) \<longrightarrow> usable_bitmap_is_set q (mem k))"
    if "p \<le> q" "q < p + unat n" for q
    using fits(4) [of "q - p"] fits(2) that by (auto simp: frames_ok_def)
  moreover have "\<exists>i < unat n. bitmap_is_set (q + i) (mem k)" if "256 \<le> q" "q < p" for q
    using fits(5) [OF that] fits(2) that by (auto simp: range_is_free_iff)
  ultimately show ?thesis
    using p fits(1,2) by (intro exI [of _ p]) (simp add: mem_page_alloc_contiguous claim_pages_iff)
qed

theorem allocation_first_fit_witness:
  "\<exists>p. ret page_alloc one_megabyte_kernel = word_of_nat p * 4096 \<and> \<not> bitmap_is_set p (mem one_megabyte_kernel)"
  using allocation_first_fit [of 1 one_megabyte_kernel] one_megabyte_kernel(2)
  unfolding page_alloc_def by auto

end
