(* ===== verification/Paging.thy ===== *)
theory Paging
  imports Heap
begin

text \<open>
  Address spaces (\<^verbatim>\<open>kernel/memory.c\<close>): the page tables a process gets, mapping a page into
  them, and switching the page-table base. Page tables live in physical memory, which the kernel
  reaches through the identity mapping; entries are 64-bit little-endian words in \<open>ram\<close>.
\<close>

section \<open>Words in physical memory\<close>

definition write64 :: "u64 \<Rightarrow> u64 \<Rightarrow> memory \<Rightarrow> memory" where
  "write64 address v m = m\<lparr>ram := (\<lambda>x. if x - address < 8 then ucast (drop_bit (8 * unat (x - address)) v) else ram m x)\<rparr>"

definition load64 :: "memory \<Rightarrow> u64 \<Rightarrow> u64" where
  "load64 m address = read64 (ram m) address"

definition write8 :: "u64 \<Rightarrow> u8 \<Rightarrow> memory \<Rightarrow> memory" where
  "write8 address v m = m\<lparr>ram := (ram m)(address := v)\<rparr>"

abbreviation (input) PTE_PRESENT :: u64 where "PTE_PRESENT \<equiv> 0x001"
abbreviation (input) PTE_WRITABLE :: u64 where "PTE_WRITABLE \<equiv> 0x002"
abbreviation (input) PTE_USER :: u64 where "PTE_USER \<equiv> 0x004"
abbreviation (input) PTE_NX :: u64 where "PTE_NX \<equiv> 0x8000000000000000"
abbreviation (input) TABLE_MASK :: u64 where "TABLE_MASK \<equiv> 0x000FFFFFFFFFF000"
abbreviation (input) BOOTSTRAP_PT0 :: u64 where "BOOTSTRAP_PT0 \<equiv> 0x4000"
abbreviation (input) BOOTSTRAP_PT1 :: u64 where "BOOTSTRAP_PT1 \<equiv> 0x5000"

definition zero_page :: "u64 \<Rightarrow> memory \<Rightarrow> memory" where
  "zero_page physical_address m = fold (\<lambda>i. write8 (physical_address + word_of_nat i) 0) [0..<4096] m"

definition copy_page :: "u64 \<Rightarrow> u64 \<Rightarrow> memory \<Rightarrow> memory" where
  "copy_page destination source m =
     fold (\<lambda>i m. write64 (destination + 8 * word_of_nat i) (load64 m (source + 8 * word_of_nat i)) m) [0..<512] m"

section \<open>Address spaces\<close>

definition memory_kernel_address_space :: "memory \<Rightarrow> u64" where
  "memory_kernel_address_space m = kernel_cr3 m"

definition memory_current_address_space :: "memory \<Rightarrow> u64" where
  "memory_current_address_space m = cr3 m"

definition memory_switch_address_space :: "u64 \<Rightarrow> string \<Rightarrow> string \<Rightarrow> string \<Rightarrow> unit op" where
  "memory_switch_address_space root actor target policy = do {
     current \<leftarrow> event_current;
     if root = 0 then do {
       event_record actor target ''switch_cr3'' EVENT_DENIED current ''deny:invalid-address-space'';
       return ()
     }
     else do {
       on_mem (\<lambda>m. m\<lparr>cr3 := root\<rparr>);
       event_record actor target ''switch_cr3'' EVENT_OK current policy;
       return ()
     }
   }"

text \<open>The tables of a new space: two page tables copied from the kernel's, the directories above
  them new.\<close>

definition build_tables :: "u64 \<Rightarrow> u64 \<Rightarrow> u64 \<Rightarrow> u64 \<Rightarrow> u64 \<Rightarrow> memory \<Rightarrow> memory" where
  "build_tables pml4 pdpt pd pt0 pt1 m =
     (let m = zero_page pd (zero_page pdpt (zero_page pml4 m));
          m = copy_page pt1 BOOTSTRAP_PT1 (copy_page pt0 BOOTSTRAP_PT0 m);
          m = write64 pml4 (pdpt OR PTE_PRESENT OR PTE_WRITABLE OR PTE_USER) m;
          m = write64 pdpt (pd OR PTE_PRESENT OR PTE_WRITABLE OR PTE_USER) m;
          m = write64 pd (pt0 OR PTE_PRESENT OR PTE_WRITABLE) m
      in write64 (pd + 8) (pt1 OR PTE_PRESENT OR PTE_WRITABLE) m)"

definition memory_create_address_space :: "string \<Rightarrow> u64 op" where
  "memory_create_address_space owner = do {
     pml4 \<leftarrow> page_alloc;
     pdpt \<leftarrow> page_alloc;
     pd \<leftarrow> page_alloc;
     pt0 \<leftarrow> page_alloc;
     pt1 \<leftarrow> page_alloc;
     current \<leftarrow> event_current;
     if pml4 = 0 \<or> pdpt = 0 \<or> pd = 0 \<or> pt0 = 0 \<or> pt1 = 0 then do {
       event_record ''memory'' owner ''address_space_create'' EVENT_DENIED current ''deny:address-space-pages'';
       return 0
     }
     else do {
       on_mem (build_tables pml4 pdpt pd pt0 pt1);
       event_record ''memory'' owner ''address_space_create'' EVENT_OK current ''allow:address-space'';
       return pml4
     }
   }"

text \<open>The tables on the way to a page, and the two indices, as the code computes them.\<close>

definition pdpt_of :: "memory \<Rightarrow> u64 \<Rightarrow> u64" where
  "pdpt_of m root = load64 m root AND TABLE_MASK"

definition pd_of :: "memory \<Rightarrow> u64 \<Rightarrow> u64" where
  "pd_of m root = load64 m (pdpt_of m root) AND TABLE_MASK"

definition pd_index :: "u64 \<Rightarrow> u64" where
  "pd_index virtual_address = drop_bit 21 virtual_address AND 0x1FF"

definition pt_index :: "u64 \<Rightarrow> u64" where
  "pt_index virtual_address = drop_bit 12 virtual_address AND 0x1FF"

definition page_flags :: "bool \<Rightarrow> bool \<Rightarrow> bool \<Rightarrow> u64" where
  "page_flags user writable executable =
     PTE_PRESENT OR (if writable then PTE_WRITABLE else 0) OR (if user then PTE_USER else 0) OR
     (if executable then 0 else PTE_NX)"

text \<open>Setting the user bit on the way down.\<close>

definition grant_user :: "u64 \<Rightarrow> u64 \<Rightarrow> u64 \<Rightarrow> memory \<Rightarrow> memory" where
  "grant_user root pdpt pd_entry m =
     (let m = write64 root (load64 m root OR PTE_USER) m;
          m = write64 pdpt (load64 m pdpt OR PTE_USER) m
      in write64 pd_entry (load64 m pd_entry OR PTE_USER) m)"

definition memory_map_process_page ::
  "u64 \<Rightarrow> u64 \<Rightarrow> u64 \<Rightarrow> bool \<Rightarrow> bool \<Rightarrow> bool \<Rightarrow> string \<Rightarrow> bool op" where
  "memory_map_process_page root virtual_address physical_address user writable executable policy = do {
     current \<leftarrow> event_current;
     if root = 0 \<or> virtual_address AND (PAGE_SIZE - 1) \<noteq> 0 \<or> physical_address AND (PAGE_SIZE - 1) \<noteq> 0 \<or>
        virtual_address \<ge> 0x40000000
     then do {
       event_record ''memory'' ''page_tables'' ''map_virtual'' EVENT_DENIED current ''deny:invalid-virtual-page'';
       return False
     }
     else do {
       pdpt \<leftarrow> gets (\<lambda>k. pdpt_of (mem k) root);
       pd \<leftarrow> gets (\<lambda>k. pd_of (mem k) root);
       let pd_entry = pd + 8 * pd_index virtual_address;
       present \<leftarrow> gets (\<lambda>k. load64 (mem k) pd_entry AND PTE_PRESENT \<noteq> 0);
       pt_address \<leftarrow> (if present then return 1 else page_alloc);
       if pt_address = 0 then do {
         event_record ''memory'' ''page_tables'' ''map_virtual'' EVENT_DENIED current ''deny:no-page-table'';
         return False
       }
       else do {
         cwhen (\<not> present) (on_mem (\<lambda>m. write64 pd_entry
           (pt_address OR PTE_PRESENT OR PTE_WRITABLE OR (if user then PTE_USER else 0)) (zero_page pt_address m)));
         cwhen user (on_mem (grant_user root pdpt pd_entry));
         pt \<leftarrow> gets (\<lambda>k. load64 (mem k) pd_entry AND TABLE_MASK);
         on_mem (write64 (pt + 8 * pt_index virtual_address)
           (physical_address OR page_flags user writable executable));
         event_record ''memory'' ''page_tables'' ''map_virtual'' EVENT_OK current policy;
         return True
       }
     }
   }"

text \<open>Mapping into the bootstrap tables.\<close>

definition memory_map_user_page :: "u64 \<Rightarrow> bool \<Rightarrow> bool op" where
  "memory_map_user_page physical_address executable = do {
     current \<leftarrow> event_current;
     if physical_address AND (PAGE_SIZE - 1) \<noteq> 0 \<or> physical_address \<ge> 0x400000 then do {
       event_record ''memory'' ''page_tables'' ''map_user'' EVENT_DENIED current
         ''deny:user-page-out-of-bootstrap-range'';
       return False
     }
     else do {
       on_mem (grant_user 0x1000 0x2000 (0x3000 + 8 * drop_bit 21 physical_address));
       on_mem (write64 ((if physical_address < 0x200000 then 0x4000 else 0x5000) + 8 * pt_index physical_address)
         (physical_address OR (if executable then 0x7 else 0x7 OR 0x8000000000000000)));
       event_record ''memory'' ''page_tables'' ''map_user'' EVENT_OK current
         (if executable then ''allow:user-code-page'' else ''allow:user-stack-page'');
       return True
     }
   }"

section \<open>What the processor translates\<close>

text \<open>The page walk of the architecture: four levels of 512 entries, a large page where the
  directory entry says so. A translation carries the rights, which every level can only restrict.\<close>

record translation =
  tr_address :: u64
  tr_user :: bool
  tr_writable :: bool
  tr_no_execute :: bool

definition entry_present :: "u64 \<Rightarrow> bool" where
  "entry_present e \<longleftrightarrow> bit e 0"

definition walk :: "memory \<Rightarrow> u64 \<Rightarrow> u64 \<Rightarrow> translation option" where
  "walk m root va =
     (let e4 = load64 m ((root AND TABLE_MASK) + 8 * (drop_bit 39 va AND 0x1FF)) in
      if \<not> entry_present e4 then None else
      let e3 = load64 m ((e4 AND TABLE_MASK) + 8 * (drop_bit 30 va AND 0x1FF)) in
      if \<not> entry_present e3 then None else
      let e2 = load64 m ((e3 AND TABLE_MASK) + 8 * (drop_bit 21 va AND 0x1FF)) in
      if \<not> entry_present e2 then None else
      if bit e2 7 then
        Some \<lparr>tr_address = (e2 AND 0x000FFFFFFFE00000) OR (va AND 0x1FFFFF),
          tr_user = (bit e4 2 \<and> bit e3 2 \<and> bit e2 2), tr_writable = (bit e4 1 \<and> bit e3 1 \<and> bit e2 1),
          tr_no_execute = (bit e4 63 \<or> bit e3 63 \<or> bit e2 63)\<rparr>
      else
      let e1 = load64 m ((e2 AND TABLE_MASK) + 8 * (drop_bit 12 va AND 0x1FF)) in
      if \<not> entry_present e1 then None else
        Some \<lparr>tr_address = (e1 AND TABLE_MASK) OR (va AND 0xFFF),
          tr_user = (bit e4 2 \<and> bit e3 2 \<and> bit e2 2 \<and> bit e1 2),
          tr_writable = (bit e4 1 \<and> bit e3 1 \<and> bit e2 1 \<and> bit e1 1),
          tr_no_execute = (bit e4 63 \<or> bit e3 63 \<or> bit e2 63 \<or> bit e1 63)\<rparr>)"

text \<open>A byte as the kernel reads it through the current tables; None is a page fault.\<close>

definition read_virtual :: "memory \<Rightarrow> u64 \<Rightarrow> u8 option" where
  "read_virtual m va = map_option (\<lambda>t. ram m (tr_address t)) (walk m (cr3 m) va)"

section \<open>Frames, events, registrations\<close>

lemma frame_paging [frame_intro]:
  "frame settings (memory_switch_address_space r a t p)" "frame usr (memory_switch_address_space r a t p)"
  "frame reg (memory_switch_address_space r a t p)"
  "frame settings (memory_create_address_space ow)" "frame usr (memory_create_address_space ow)"
  "frame reg (memory_create_address_space ow)"
  "frame settings (memory_map_process_page r v ph us w x p)" "frame usr (memory_map_process_page r v ph us w x p)"
  "frame reg (memory_map_process_page r v ph us w x p)"
  "frame settings (memory_map_user_page ph x)" "frame usr (memory_map_user_page ph x)"
  "frame reg (memory_map_user_page ph x)"
  unfolding memory_switch_address_space_def memory_create_address_space_def memory_map_process_page_def
    memory_map_user_page_def Let_def
  by (intro frame_intro; simp add: frame_def)+

lemma traces_paging [trace_intro]:
  "traces E (memory_switch_address_space r a t p) (\<lambda>_. {})" "traces E (memory_create_address_space ow) (\<lambda>_. {})"
  "traces E (memory_map_process_page r v ph us w x p) (\<lambda>_. {})" "traces E (memory_map_user_page ph x) (\<lambda>_. {})"
  unfolding memory_switch_address_space_def memory_create_address_space_def memory_map_process_page_def
    memory_map_user_page_def Let_def
  by (rule trace_intro | simp; fail)+

lemma enrols_paging [enrol_intro]:
  "enrols E (memory_switch_address_space r a t p) (\<lambda>_. {})" "enrols E (memory_create_address_space ow) (\<lambda>_. {})"
  "enrols E (memory_map_process_page r v ph us w x p) (\<lambda>_. {})" "enrols E (memory_map_user_page ph x) (\<lambda>_. {})"
  by (rule enrols_quiet; simp add: frame_paging)+

end
