(* ===== verification/Ramfs.thy ===== *)
theory Ramfs
  imports Policy
begin

text \<open>
  The read-only file system of \<^verbatim>\<open>kernel/ramfs.c\<close>: a static table of four files, lookup by
  path, and bounded reads.
\<close>

section \<open>The files\<close>

datatype ramfs_file_type = RAMFS_FILE_TEXT | RAMFS_FILE_MODULE | RAMFS_FILE_EXECUTABLE

text \<open>\<^verbatim>\<open>struct ramfs_file\<close>; \<^verbatim>\<open>data\<close> points to an array whose content is \<open>file_data\<close>, and
  \<^verbatim>\<open>size\<close> is its length.\<close>

record ramfs_file =
  path :: string
  file_data :: "u8 list"
  file_type :: ramfs_file_type

definition file_size :: "ramfs_file \<Rightarrow> u64" where
  "file_size f = word_of_nat (length (file_data f))"

definition text_bytes :: "string \<Rightarrow> u8 list" where
  "text_bytes s = map of_char s"

definition readme :: "u8 list" where
  "readme = text_bytes (''Glass RAM filesystem'' @ newline @
     ''Use ls to list files, cat <path> to read text, and run <path> to load a module.'' @ newline)"

definition about_module :: "u8 list" where
  "about_module = text_bytes (''# RAMFS shell module'' @ newline @
     ''print Module loaded through the filesystem interface.'' @ newline)"

definition memory_module :: "u8 list" where
  "memory_module = text_bytes (''# Report allocator state'' @ newline @ ''meminfo'' @ newline)"

definition hello_program :: "u8 list" where
  "hello_program =
    [0xB8, 0x01, 0x00, 0x00, 0x00,
     0xBF, 0x40, 0x00, 0x40, 0x00,
     0xCD, 0x80,
     0xB8, 0x02, 0x00, 0x00, 0x00,
     0xCD, 0x80,
     0xB8, 0x03, 0x00, 0x00, 0x00,
     0xBF, 0x48, 0x00, 0x40, 0x00,
     0xCD, 0x80,
     0xB8, 0x04, 0x00, 0x00, 0x00,
     0xBF, 0x48, 0x00, 0x40, 0x00,
     0xCD, 0x80,
     0x48, 0xA1, 0x00, 0x00, 0x60, 0x00,
     0x00, 0x00, 0x00, 0x00,
     0x90, 0x90, 0x90, 0x90, 0x90,
     0x90, 0x90, 0x90, 0x90, 0x90,
     0x90] @
    text_bytes ''system'' @ [0x00, 0x00] @ text_bytes ''/config/theme'' @ [0x00]"

definition files :: "ramfs_file list" where
  "files =
    [\<lparr>path = ''/README.TXT'', file_data = readme, file_type = RAMFS_FILE_TEXT\<rparr>,
     \<lparr>path = ''/modules/ABOUT.MOD'', file_data = about_module, file_type = RAMFS_FILE_MODULE\<rparr>,
     \<lparr>path = ''/modules/MEMORY.MOD'', file_data = memory_module, file_type = RAMFS_FILE_MODULE\<rparr>,
     \<lparr>path = ''/bin/hello'', file_data = hello_program, file_type = RAMFS_FILE_EXECUTABLE\<rparr>]"

section \<open>Operations\<close>

text \<open>The boot loop: an empty file stops it with a fault. The paths and the data of the static
  table are never null, so of the three guards only the size is left.\<close>

fun register_files :: "u32 \<Rightarrow> ramfs_file list \<Rightarrow> bool op" where
  "register_files parent [] = do {
     current \<leftarrow> event_current;
     event_record ''ramfs'' ''ramfs'' ''initialize'' EVENT_OK current ''allow:boot-filesystem'';
     return True
   }"
| "register_files parent (f # fs) = do {
     current \<leftarrow> event_current;
     if file_size f = 0 then do {
       event_record ''ramfs'' ''ramfs'' ''initialize'' EVENT_FAULT current ''deny:invalid-file'';
       return False
     }
     else do {
       register (if file_type f = RAMFS_FILE_MODULE then ''module''
                 else if file_type f = RAMFS_FILE_EXECUTABLE then ''executable'' else ''file'')
         (path f) parent ''read-only'' current;
       register_files parent fs
     }
   }"

definition ramfs_init :: "bool op" where
  "ramfs_init = do {
     parent \<leftarrow> lookup_id ''ramfs'';
     register_files parent files
   }"

definition ramfs_file_count :: nat where
  "ramfs_file_count = length files"

definition ramfs_file_at :: "nat \<Rightarrow> ramfs_file option" where
  "ramfs_file_at index = (if index < ramfs_file_count then Some (files ! index) else None)"

definition ramfs_lookup :: "string \<Rightarrow> ramfs_file option op" where
  "ramfs_lookup query =
     (case find_index (\<lambda>f. text_equal (path f) query) files of
        Some i \<Rightarrow> do {
          current \<leftarrow> event_current;
          event_record_kind ''ramfs'' query ''lookup'' EVENT_OK current ''allow:filesystem:lookup'' ''state'';
          return (Some (files ! i))
        }
      | None \<Rightarrow> do {
          current \<leftarrow> event_current;
          event_record_kind ''ramfs'' query ''lookup'' EVENT_DENIED current ''deny:not-found'' ''state'';
          return None
        })"

text \<open>The bytes that the loop stores into the buffer; their number is the return value.
  \<open>buffer_given\<close> says that the buffer pointer is not null.\<close>

definition ramfs_read :: "ramfs_file option \<Rightarrow> u64 \<Rightarrow> bool \<Rightarrow> u64 \<Rightarrow> u8 list" where
  "ramfs_read file offset buffer_given buffer_size =
     (case file of
        None \<Rightarrow> []
      | Some f \<Rightarrow>
          if \<not> buffer_given \<or> offset \<ge> file_size f then []
          else let available = file_size f - offset;
                   bytes = (if buffer_size < available then buffer_size else available)
               in map (\<lambda>i. file_data f ! (unat offset + i)) [0..<unat bytes])"

section \<open>Reads are slices\<close>

lemma ramfs_read_eq:
  assumes "length (file_data f) < 2 ^ 64"
  shows "ramfs_read (Some f) offset True want = take (unat want) (drop (unat offset) (file_data f))"
proof (cases "offset \<ge> file_size f")
  case True
  then show ?thesis
    using assms by (simp add: ramfs_read_def file_size_def word_le_nat_alt unat_word_of_nat_small)
next
  case False
  let ?n = "length (file_data f)"
  have n: "unat (file_size f) = ?n"
    using assms by (simp add: file_size_def unat_word_of_nat_small)
  have lt: "unat offset < ?n" using False n by (simp add: not_le word_less_nat_alt)
  have av: "unat (file_size f - offset) = ?n - unat offset"
    using False n by (subst unat_sub) (simp_all add: not_le less_imp_le)
  have "map (\<lambda>i. file_data f ! (unat offset + i)) [0..<m] = take m (drop (unat offset) (file_data f))"
    if "m \<le> ?n - unat offset" for m
    using that lt by (intro nth_equalityI) auto
  moreover have "unat (if want < file_size f - offset then want else file_size f - offset) =
      min (unat want) (?n - unat offset)"
    using av by (simp add: word_less_nat_alt)
  ultimately show ?thesis
    using False by (simp add: ramfs_read_def Let_def min_def take_all_iff)
qed

section \<open>Frames, events, registrations\<close>

lemma frame_ramfs [frame_intro]:
  "frame core (ramfs_lookup q)" "frame reg (ramfs_lookup q)"
  unfolding ramfs_lookup_def by (intro frame_intro)+

lemma frame_register_files: "frame core (register_files p fs)"
  by (induction fs) (auto intro!: frame_intro)

lemma frame_ramfs_init [frame_intro]: "frame core ramfs_init"
  unfolding ramfs_init_def by (intro frame_intro frame_register_files)

lemma traces_lookup [trace_intro]: "traces E (ramfs_lookup q) (\<lambda>_. {})"
  unfolding ramfs_lookup_def by (rule trace_intro | simp; fail)+

lemma traces_register_files: "traces E (register_files p fs) (\<lambda>_. {})"
proof (induction fs arbitrary: E)
  case Nil
  show ?case by (simp only: register_files.simps) (rule trace_intro | simp; fail)+
next
  case (Cons f fs)
  show ?case by (simp only: register_files.simps) (rule trace_intro Cons.IH | simp; fail)+
qed

lemma traces_ramfs_init [trace_intro]: "traces E ramfs_init (\<lambda>_. {})"
  unfolding ramfs_init_def by (rule trace_intro traces_register_files)+

lemma enrols_ramfs_lookup [enrol_intro]: "enrols E (ramfs_lookup q) (\<lambda>_. {})"
  by (rule enrols_quiet; simp add: frame_ramfs)

lemma enrols_register_files:
  "p \<in> E \<Longrightarrow> \<forall>f \<in> set fs. length (path f) < 48 \<Longrightarrow> enrols E (register_files p fs) (\<lambda>_. {})"
proof (induction fs arbitrary: E)
  case Nil
  show ?case by (simp only: register_files.simps) (rule enrol_intro)+
next
  case (Cons f fs)
  from Cons.prems show ?case
    by (simp only: register_files.simps) (rule enrol_intro Cons.IH | simp; fail)+
qed

lemma enrols_ramfs_init [enrol_intro]: "enrols E ramfs_init (\<lambda>_. {})"
  unfolding ramfs_init_def
  by (rule enrol_intro enrols_register_files | simp add: files_def; fail)+

section \<open>Properties\<close>

text \<open>C33: Reading a file gives exactly the bytes from the offset on, at most as many as asked for and
  at most as many as there are: no byte outside the file is ever returned, and an offset at or past
  the end reads nothing.\<close>

theorem read_is_slice:
  assumes "f \<in> set files"
  shows "ramfs_read (Some f) offset True want = take (unat want) (drop (unat offset) (file_data f))"
proof (rule ramfs_read_eq)
  show "length (file_data f) < 2 ^ 64"
    using assms by (auto simp: files_def readme_def about_module_def memory_module_def hello_program_def text_bytes_def)
qed

theorem read_is_slice_witness:
  "ramfs_read (Some (files ! 2)) 25 True 511 = text_bytes (''meminfo'' @ newline)"
proof -
  have "files ! 2 \<in> set files" by (rule nth_mem) (simp add: files_def)
  from read_is_slice [OF this, of 25 511] show ?thesis
    by (simp add: files_def memory_module_def text_bytes_def)
qed

end
