(* ===== verification/Config.thy ===== *)
theory Config
  imports Policy
begin

text \<open>
  The configuration store of \<^verbatim>\<open>kernel/config.c\<close>: a fixed set of keys, each with a value of
  at most 47 characters, registered as objects whose state is the value.
\<close>

abbreviation (input) CONFIG_VALUE_SIZE :: nat where "CONFIG_VALUE_SIZE \<equiv> 48"

definition find_entry :: "config_entry list \<Rightarrow> string \<Rightarrow> nat option" where
  "find_entry es key = find_index (\<lambda>e. text_equal (config_key e) key) es"

definition config_init :: "bool op" where
  "config_init = do {
     system \<leftarrow> lookup_id ''system'';
     current \<leftarrow> event_current;
     parent \<leftarrow> register ''directory'' ''/config'' system ''ready'' current;
     es \<leftarrow> gets cfg;
     for_each es (\<lambda>e. do {
       current \<leftarrow> event_current;
       register ''config_key'' (config_key e) parent (config_value e) current;
       return ()
     });
     current \<leftarrow> event_current;
     event_record ''config'' ''/config'' ''initialize'' EVENT_OK current ''allow:boot-config'';
     return True
   }"

definition config_get :: "string \<Rightarrow> string option op" where
  "config_get key =
     gets (\<lambda>k. case find_entry (cfg k) key of None \<Rightarrow> None | Some i \<Rightarrow> Some (config_value (cfg k ! i)))"

definition config_set :: "string \<Rightarrow> string \<Rightarrow> bool op" where
  "config_set key value = do {
     found \<leftarrow> gets (\<lambda>k. find_entry (cfg k) key);
     case found of
       None \<Rightarrow> do {
         current \<leftarrow> event_current;
         event_record_kind ''config'' key ''set'' EVENT_DENIED current ''deny:unknown-config-key'' ''state'';
         return False
       }
     | Some i \<Rightarrow> do {
         on_cfg (\<lambda>es. es[i := (es ! i)\<lparr>config_value := copy_value CONFIG_VALUE_SIZE value\<rparr>]);
         object_update_state key (copy_value CONFIG_VALUE_SIZE value);
         return True
       }
   }"

section \<open>The store as a map\<close>

text \<open>What the clients of the store rely on: the keys are fixed, a write to a key is what the
  next read of it returns, cut to what fits, and a write to one key touches no other.\<close>

locale value_store =
  fixes get :: "'s \<Rightarrow> 'k \<Rightarrow> 'v option"
    and put :: "'k \<Rightarrow> 'v \<Rightarrow> 's \<Rightarrow> 's"
    and trim :: "'v \<Rightarrow> 'v"
  assumes get_put: "get (put k v s) k' = (if k' = k \<and> get s k \<noteq> None then Some (trim v) else get s k')"
    and trim_trim: "trim (trim v) = trim v"
begin

lemma keys_fixed: "get (put k v s) k' = None \<longleftrightarrow> get s k' = None"
  by (simp add: get_put)

lemma put_put: "get (put k w (put k v s)) k' = get (put k w s) k'"
  by (simp add: get_put)

lemma put_commute: "k \<noteq> l \<Longrightarrow> get (put k v (put l w s)) k' = get (put l w (put k v s)) k'"
  by (simp add: get_put)

lemma put_back: "get s k = Some (trim v) \<Longrightarrow> get (put k v s) k' = get s k'"
  by (simp add: get_put)

lemma last_write:
  assumes "get s k \<noteq> None"
  shows "get (fold (\<lambda>(k, v). put k v) (ws @ [(k, v)]) s) k = Some (trim v)"
proof -
  have "get (fold (\<lambda>(k, v). put k v) ws s) k = None \<longleftrightarrow> get s k = None"
  proof (induction ws arbitrary: s)
    case (Cons w ws)
    then show ?case by (cases w) (simp add: keys_fixed)
  qed simp
  then show ?thesis using assms by (simp add: get_put)
qed

end

definition config_value_of :: "kernel \<Rightarrow> string \<Rightarrow> string option" where
  "config_value_of k key = ret (config_get key) k"

definition config_write :: "string \<Rightarrow> string \<Rightarrow> kernel \<Rightarrow> kernel" where
  "config_write key value k = exec (config_set key value) k"

lemma cfg_quiet:
  "cfg (exec (object_update_state n st) k) = cfg k"
  "cfg (exec (event_record_kind a t op r p po kd) k) = cfg k"
  by (rule frameD [OF frame_core(2) [OF frame_objects(2)]], rule frameD [OF frame_core(2) [OF frame_record(1)]])

lemma cfg_config_set:
  "cfg (exec (config_set key value) k) =
     (case find_entry (cfg k) key of
        None \<Rightarrow> cfg k
      | Some i \<Rightarrow> (cfg k)[i := (cfg k ! i)\<lparr>config_value := take 47 value\<rparr>])"
  "ret (config_set key value) k = (find_entry (cfg k) key \<noteq> None)"
  by (simp_all add: config_set_def event_current_def cfg_quiet split: option.split)

lemma find_entry_put:
  assumes "find_entry es key = Some i"
  shows "find_entry (es[i := (es ! i)\<lparr>config_value := v\<rparr>]) key' = find_entry es key'"
proof -
  have "i < length es" using assms by (auto simp: find_entry_def dest: find_index_SomeD)
  then show ?thesis
    unfolding find_entry_def by (rule find_index_update) simp
qed

lemma find_entry_key: "find_entry es key = Some i \<Longrightarrow> i < length es \<and> config_key (es ! i) = key"
  by (auto simp: find_entry_def dest: find_index_SomeD)

definition entry_value :: "config_entry list \<Rightarrow> string \<Rightarrow> string option" where
  "entry_value es key = map_option (\<lambda>i. config_value (es ! i)) (find_entry es key)"

lemma entry_value_put:
  assumes i: "find_entry es key = Some i"
  shows "entry_value (es[i := (es ! i)\<lparr>config_value := v\<rparr>]) key' =
    (if key' = key then Some v else entry_value es key')"
proof (cases "find_entry es key'")
  case None
  then show ?thesis using i by (auto simp: entry_value_def find_entry_put [OF i])
next
  case (Some i')
  have "i' = i \<Longrightarrow> key' = key" and "key' = key \<Longrightarrow> i' = i" and lt: "i < length es"
    using find_entry_key [OF i] find_entry_key [OF Some] i Some by simp_all
  then have same: "i = i' \<longleftrightarrow> key' = key" by blast
  show ?thesis
    unfolding entry_value_def find_entry_put [OF i] Some
    using lt same by (simp add: nth_list_update)
qed

lemma config_value_of_entry: "config_value_of k key = entry_value (cfg k) key"
  by (simp add: config_value_of_def config_get_def entry_value_def split: option.split)

interpretation config_store: value_store config_value_of config_write "take 47"
proof
  fix k :: kernel and key key' v :: string
  show "config_value_of (config_write key v k) key' =
      (if key' = key \<and> config_value_of k key \<noteq> None then Some (take 47 v) else config_value_of k key')"
  proof (cases "find_entry (cfg k) key")
    case None
    then have "config_value_of k key = None" by (simp add: config_value_of_entry entry_value_def)
    with None show ?thesis by (simp add: config_value_of_entry config_write_def cfg_config_set)
  next
    case (Some i)
    then have "config_value_of k key \<noteq> None" by (simp add: config_value_of_entry entry_value_def)
    with Some show ?thesis
      by (simp add: config_value_of_entry config_write_def cfg_config_set entry_value_put)
  qed
qed simp

section \<open>Frames, events, registrations\<close>

lemma frame_config [frame_intro]:
  "frame core config_init" "frame core (config_get key)" "frame reg (config_get key)"
  "frame jnl (config_get key)"
  unfolding config_init_def config_get_def by (intro frame_intro)+

lemma traces_config [trace_intro]:
  "traces E config_init (\<lambda>_. {})" "traces E (config_get key) (\<lambda>_. {})" "traces E (config_set key value) (\<lambda>_. {})"
  unfolding config_init_def config_get_def config_set_def by (rule trace_intro | simp; fail)+

lemma enrols_config [enrol_intro]:
  "enrols E (config_get key) (\<lambda>_. {})" "enrols E (config_set key value) (\<lambda>_. {})"
  unfolding config_get_def config_set_def by (rule enrol_intro | simp; fail)+

section \<open>Properties\<close>

text \<open>C31: The configuration is a store of the two initial keys: setting a key makes exactly its value
  the first 47 characters of what was written, whatever the registry and the journal hold, leaves
  every other key alone, and an unknown key is refused without effect on the store.\<close>

theorem config_set_get:
  "config_value_of (exec (config_set key v) k) key' =
     (if key' = key \<and> config_value_of k key \<noteq> None then Some (take 47 v) else config_value_of k key') \<and>
   ret (config_set key v) k = (config_value_of k key \<noteq> None)"
  using config_store.get_put [of key v k key'] cfg_config_set(2) [of key v k]
  by (simp add: config_write_def config_value_of_entry entry_value_def)



end
