(* ===== verification/Reports.thy ===== *)
theory Reports
  imports Policy
begin

text \<open>
  The operations that print: the events, causes and transactions of \<^verbatim>\<open>kernel/event.c\<close> and
  the object views of \<^verbatim>\<open>kernel/object.c\<close>. They change the console only (and load the
  policy if nothing has been loaded yet).
\<close>

section \<open>Events\<close>

definition event_print :: "system_event option \<Rightarrow> unit op" where
  "event_print event =
     (case event of
        None \<Rightarrow> kprintf (''Event not found.'' @ newline) []
      | Some e \<Rightarrow> do {
          kprintf (''#%d tx=%d kind=%s tick=%d parent=%d target_rev=%d'' @ newline)
            [int_arg (ev_sequence e), int_arg (ev_transaction_id e), FStr (ev_kind e),
             int_arg (ev_timestamp e), int_arg (ev_parent_event e), int_arg (ev_target_revision e)];
          kprintf (''  #%d %s -> #%d %s %s %s policy=%s'' @ newline)
            [FInt (ev_actor_object_id e), FStr (ev_actor e), FInt (ev_target_object_id e),
             FStr (ev_target e), FStr (ev_operation e), FStr (result_name (ev_result e)),
             FStr (ev_policy_decision e)]
        })"

text \<open>What \<^verbatim>\<open>event_print_chain\<close> prints, in order: it calls itself for the parent first. The
  journal does not change meanwhile, so the calls form a list; a recursion without end is None.\<close>

datatype chain_item = Missing u64 | Link system_event

partial_function (option) event_chain :: "journal \<Rightarrow> u64 \<Rightarrow> chain_item list option" where
  "event_chain j sequence =
     (case event_find j sequence of
        None \<Rightarrow> Some [Missing sequence]
      | Some event \<Rightarrow>
          (if ev_parent_event event \<noteq> 0
           then Option.bind (event_chain j (ev_parent_event event)) (\<lambda>chain. Some (chain @ [Link event]))
           else Some [Link event]))"

definition print_chain_item :: "chain_item \<Rightarrow> unit op" where
  "print_chain_item item =
     (case item of
        Missing sequence \<Rightarrow> kprintf (''Event not found: %d'' @ newline) [int_arg sequence]
      | Link event \<Rightarrow> event_print (Some event))"

definition event_print_chain :: "u64 \<Rightarrow> unit op" where
  "event_print_chain sequence = do {
     j \<leftarrow> gets jnl;
     for_each (case event_chain j sequence of None \<Rightarrow> [] | Some chain \<Rightarrow> chain) print_chain_item
   }"

definition event_concerns :: "registry \<Rightarrow> string \<Rightarrow> system_event \<Rightarrow> bool" where
  "event_concerns r target event \<longleftrightarrow>
     (let target_id = object_id r target
      in text_equal (ev_target event) target \<or> text_equal (ev_actor event) target \<or>
         (target_id \<noteq> 0 \<and>
          (ev_target_object_id event = target_id \<or> ev_actor_object_id event = target_id)))"

definition event_print_history :: "string \<Rightarrow> unit op" where
  "event_print_history target = do {
     shown \<leftarrow> gets (\<lambda>k. filter (event_concerns (reg k) target)
                (map (\<lambda>i. the (event_at (jnl k) i)) [0..<count (jnl k)]));
     for_each shown (\<lambda>event. event_print (Some event));
     cwhen (shown = []) (kprintf (''No events for: %s'' @ newline) [FStr target])
   }"

definition event_print_transaction :: "u64 \<Rightarrow> unit op" where
  "event_print_transaction transaction_id = do {
     found \<leftarrow> gets (\<lambda>k. transaction_find (jnl k) transaction_id);
     case found of
       None \<Rightarrow> kprintf (''Transaction not found: %d'' @ newline) [int_arg transaction_id]
     | Some i \<Rightarrow> do {
         t \<leftarrow> gets (\<lambda>k. transactions (jnl k) ! i);
         kprintf (''transaction/%d actor=%s target=%s status=%s'' @ newline)
           [int_arg (tx_id t), FStr (tx_actor t), FStr (tx_target t), FStr (tx_status t)];
         kprintf (''parent=%d started_revision=%d committed_revision=%d begin=%d end=%d'' @ newline)
           [int_arg (tx_parent_event t), int_arg (tx_started_revision t),
            int_arg (tx_committed_revision t), int_arg (tx_begin_event t), int_arg (tx_end_event t)];
         kprintf (''events:'' @ newline) [];
         shown \<leftarrow> gets (\<lambda>k. filter (\<lambda>event. ev_transaction_id event = transaction_id)
                    (map (\<lambda>i. the (event_at (jnl k) i)) [0..<count (jnl k)]));
         for_each shown (\<lambda>event. event_print (Some event))
       }
   }"

text \<open>The loop over \<^verbatim>\<open>"transaction/"\<close>: the query left after the common prefix, or the query
  after the first character that differs. At the end of the query the C code has compared the
  terminating NUL and moved past it; what it then prints is outside the string, here nothing.\<close>

fun strip_prefix :: "string \<Rightarrow> string \<Rightarrow> string + string" where
  "strip_prefix [] query = Inr query"
| "strip_prefix (p # wanted) [] = Inl []"
| "strip_prefix (p # wanted) (q # query) = (if q \<noteq> p then Inl query else strip_prefix wanted query)"

definition event_print_transaction_name :: "string \<Rightarrow> unit op" where
  "event_print_transaction_name query =
     (case strip_prefix ''transaction/'' query of
        Inl rest \<Rightarrow> kprintf (''Transaction not found: %s'' @ newline) [FStr rest]
      | Inr rest \<Rightarrow> event_print_transaction (parse_decimal64 rest))"

section \<open>Objects\<close>

definition object_inspect :: "string \<Rightarrow> unit op" where
  "object_inspect query = do {
     found \<leftarrow> gets (\<lambda>k. object_find (reg k) query);
     case found of
       None \<Rightarrow> kprintf (''Object not found: %s'' @ newline) [FStr query]
     | Some i \<Rightarrow> do {
         ob \<leftarrow> gets (\<lambda>k. objects (reg k) ! i);
         kprintf (''object #%d %s %s'' @ newline) [FInt (obj_id ob), FStr (obj_type ob), FStr (obj_name ob)];
         kprintf (''state=%s revision=%d parent=%d created_event=%d last_event=%d'' @ newline)
           [FStr (obj_state ob), int_arg (obj_revision ob), FInt (obj_parent_id ob),
            int_arg (obj_created_event ob), int_arg (obj_last_event ob)];
         if text_equal (obj_type ob) ''policy'' then policy_print_capabilities_for_object (obj_name ob)
         else if text_equal (obj_type ob) ''transaction'' then event_print_transaction_name (obj_name ob)
         else return ()
       }
   }"

definition print_object_summary :: "kernel_object \<Rightarrow> unit op" where
  "print_object_summary ob =
     kprintf (''  #%d %s %s state=%s revision=%d'' @ newline)
       [FInt (obj_id ob), FStr (obj_type ob), FStr (obj_name ob), FStr (obj_state ob),
        int_arg (obj_revision ob)]"

definition first_with_id :: "u32 \<Rightarrow> kernel_object list \<Rightarrow> kernel_object option" where
  "first_with_id i obs = find (\<lambda>ob. obj_id ob = i) obs"

definition children_of :: "u32 \<Rightarrow> kernel_object list \<Rightarrow> kernel_object list" where
  "children_of i obs = filter (\<lambda>ob. obj_parent_id ob = i) obs"

definition print_parent_expansion :: "kernel_object \<Rightarrow> unit op" where
  "print_parent_expansion ob =
     (if obj_parent_id ob = 0 then return ()
      else do {
        parent \<leftarrow> gets (\<lambda>k. first_with_id (obj_parent_id ob) (objects (reg k)));
        case parent of
          None \<Rightarrow> return ()
        | Some p \<Rightarrow> kprintf (''  parent -> expand %s requires policy expand'' @ newline) [FStr (obj_name p)]
      })"

definition print_next_expansions :: "kernel_object \<Rightarrow> unit op" where
  "print_next_expansions ob = do {
     kprintf (''available next expansions:'' @ newline) [];
     kprintf (''  self -> inspect %s requires policy inspect'' @ newline) [FStr (obj_name ob)];
     print_parent_expansion ob;
     children \<leftarrow> gets (\<lambda>k. children_of (obj_id ob) (objects (reg k)));
     for_each children (\<lambda>c.
       kprintf (''  child -> expand %s requires policy expand'' @ newline) [FStr (obj_name c)]);
     cwhen (children = []) (kprintf (''  children -> none'' @ newline) []);
     kprintf (''  history -> history %s requires policy history'' @ newline) [FStr (obj_name ob)];
     kprintf (''  cause -> why %d requires policy why'' @ newline) [int_arg (obj_last_event ob)];
     kprintf (''  policy -> inspect policy/base.policy requires policy inspect'' @ newline) []
   }"

definition print_available_mutations :: "kernel_object \<Rightarrow> unit op" where
  "print_available_mutations ob = do {
     kprintf (''available mutations:'' @ newline) [];
     (if text_equal (obj_type ob) ''file''
     then kprintf (''  cat %s requires policy filesystem:read'' @ newline) [FStr (obj_name ob)]
     else if text_equal (obj_type ob) ''module''
     then kprintf (''  run %s requires policy module:load'' @ newline) [FStr (obj_name ob)]
     else if text_equal (obj_name ob) ''ramfs''
     then kprintf (''  ls requires policy filesystem:list'' @ newline) []
     else if text_equal (obj_name ob) ''memory''
     then kprintf (''  meminfo requires policy memory:inspect'' @ newline) []
     else if text_equal (obj_type ob) ''config_key''
     then do {
       kprintf (''  get %s requires policy config:get'' @ newline) [FStr (obj_name ob)];
       kprintf (''  set %s <value> requires policy config:set'' @ newline) [FStr (obj_name ob)]
     }
     else kprintf (''  none'' @ newline) []);
     revision \<leftarrow> policy_revision;
     kprintf (''policy revision=%d'' @ newline) [FInt revision]
   }"

definition object_history :: "string \<Rightarrow> unit op" where
  "object_history query = do {
     found \<leftarrow> gets (\<lambda>k. object_find (reg k) query);
     case found of
       None \<Rightarrow> event_print_history query
     | Some i \<Rightarrow> do {
         name \<leftarrow> gets (\<lambda>k. obj_name (objects (reg k) ! i));
         event_print_history name
       }
   }"

definition expand_object :: "string \<Rightarrow> kernel_object \<Rightarrow> unit op" where
  "expand_object query ob = do {
     object_inspect query;
     cwhen (obj_parent_id ob \<noteq> 0) (do {
       kprintf (''parent:'' @ newline) [];
       parent \<leftarrow> gets (\<lambda>k. first_with_id (obj_parent_id ob) (objects (reg k)));
       case parent of None \<Rightarrow> return () | Some p \<Rightarrow> print_object_summary p
     });
     kprintf (''children:'' @ newline) [];
     children \<leftarrow> gets (\<lambda>k. children_of (obj_id ob) (objects (reg k)));
     for_each children print_object_summary;
     cwhen (children = []) (kprintf (''  none'' @ newline) []);
     print_next_expansions ob;
     print_available_mutations ob;
     policy_print_capabilities_for_object (obj_name ob);
     kprintf (''causal history:'' @ newline) [];
     object_history (obj_name ob);
     for_each children (\<lambda>c. do {
       kprintf (''child history %s:'' @ newline) [FStr (obj_name c)];
       event_print_history (obj_name c)
     })
   }"

definition object_expand :: "string \<Rightarrow> unit op" where
  "object_expand query = do {
     found \<leftarrow> gets (\<lambda>k. object_find (reg k) query);
     case found of
       None \<Rightarrow> kprintf (''Object not found: %s'' @ newline) [FStr query]
     | Some i \<Rightarrow> do {
         ob \<leftarrow> gets (\<lambda>k. objects (reg k) ! i);
         expand_object query ob
       }
   }"

section \<open>Reports change nothing but the console\<close>

lemma frame_event_reports [frame_intro]:
  "frame core (event_print e)" "frame reg (event_print e)" "frame jnl (event_print e)"
  by (auto simp: event_print_def split: option.split intro!: frame_intro)

lemma frame_chain [frame_intro]:
  "frame core (event_print_chain s)" "frame reg (event_print_chain s)" "frame jnl (event_print_chain s)"
  unfolding event_print_chain_def
  by (intro frame_intro; simp add: print_chain_item_def frame_event_reports frame_output frame_print
      split: chain_item.split)+

lemma frame_histories [frame_intro]:
  "frame core (event_print_history t)" "frame reg (event_print_history t)" "frame jnl (event_print_history t)"
  "frame core (event_print_transaction i)" "frame reg (event_print_transaction i)"
  "frame jnl (event_print_transaction i)"
  unfolding event_print_history_def event_print_transaction_def by (intro frame_intro)+

lemma frame_transaction_name [frame_intro]:
  "frame core (event_print_transaction_name q)" "frame reg (event_print_transaction_name q)"
  "frame jnl (event_print_transaction_name q)"
  by (auto simp: event_print_transaction_name_def split: sum.split intro!: frame_intro)

lemma frame_object_reports [frame_intro]:
  "frame core (object_inspect q)" "frame reg (object_inspect q)" "frame jnl (object_inspect q)"
  "frame core (object_history q)" "frame reg (object_history q)" "frame jnl (object_history q)"
  unfolding object_inspect_def object_history_def by (intro frame_intro)+

lemma frame_object_expand [frame_intro]:
  "frame core (object_expand q)" "frame reg (object_expand q)" "frame jnl (object_expand q)"
  unfolding object_expand_def expand_object_def print_next_expansions_def print_parent_expansion_def
    print_available_mutations_def print_object_summary_def
  by (intro frame_intro)+

lemma speaks_event_reports [speak_intro]:
  "speaks (event_print e)" "speaks (print_chain_item it)" "speaks (event_print_chain s)"
  "speaks (event_print_history t)" "speaks (event_print_transaction i)"
  unfolding event_print_def print_chain_item_def event_print_chain_def event_print_history_def
    event_print_transaction_def
  by (rule speak_intro | (split chain_item.split, safe))+

lemma speaks_transaction_name [speak_intro]: "speaks (event_print_transaction_name q)"
  by (auto simp: event_print_transaction_name_def split: sum.split intro!: speak_intro)

lemma speaks_object_reports [speak_intro]:
  "speaks (object_inspect q)" "speaks (object_history q)" "speaks (object_expand q)"
  unfolding object_inspect_def object_history_def object_expand_def expand_object_def
    print_next_expansions_def print_parent_expansion_def print_available_mutations_def print_object_summary_def
  by (rule speak_intro)+

lemma traces_reports [trace_intro]:
  "traces E (event_print_chain s) (\<lambda>_. {})" "traces E (event_print_history t) (\<lambda>_. {})"
  "traces E (event_print_transaction i) (\<lambda>_. {})" "traces E (object_inspect q) (\<lambda>_. {})"
  "traces E (object_history q) (\<lambda>_. {})" "traces E (object_expand q) (\<lambda>_. {})"
  by (rule traces_quiet; simp add: frame_chain frame_histories frame_object_reports frame_object_expand
      speaks_event_reports speaks_object_reports)+

lemma enrols_reports [enrol_intro]:
  "enrols E (event_print_chain s) (\<lambda>_. {})" "enrols E (event_print_history t) (\<lambda>_. {})"
  "enrols E (event_print_transaction i) (\<lambda>_. {})" "enrols E (object_inspect q) (\<lambda>_. {})"
  "enrols E (object_history q) (\<lambda>_. {})" "enrols E (object_expand q) (\<lambda>_. {})"
  by (rule enrols_quiet; simp add: frame_chain frame_histories frame_object_reports frame_object_expand)+

section \<open>Chains of causes end\<close>

lemma event_find_sequence: "event_find j s = Some e \<Longrightarrow> ev_sequence e = s \<and> e \<in> set (events j)"
proof -
  have "event_find_from j s is = Some e \<Longrightarrow> ev_sequence e = s \<and> e \<in> set (events j)" for "is"
    by (induction "is") (auto simp: event_at_events split: option.splits if_splits)
  then show "event_find j s = Some e \<Longrightarrow> ev_sequence e = s \<and> e \<in> set (events j)"
    by (simp add: event_find_def)
qed

fun item_sequence :: "chain_item \<Rightarrow> u64" where
  "item_sequence (Missing s) = s"
| "item_sequence (Link e) = ev_sequence e"

text \<open>Each event of the chain is the parent of the next one, the last is the one asked for, and the
  chain starts at an event without a parent or at one that the ring no longer holds.\<close>

definition cause_chain :: "u64 \<Rightarrow> chain_item list \<Rightarrow> bool" where
  "cause_chain s chain \<longleftrightarrow>
     chain \<noteq> [] \<and> item_sequence (last chain) = s \<and>
     successively (\<lambda>a b. \<exists>e. b = Link e \<and> ev_parent_event e = item_sequence a \<and>
       item_sequence a < ev_sequence e) chain \<and>
     (\<forall>e. hd chain = Link e \<longrightarrow> ev_parent_event e = 0)"

lemma cause_chain_snoc:
  assumes "cause_chain (ev_parent_event e) chain" and "ev_parent_event e < ev_sequence e"
  shows "cause_chain (ev_sequence e) (chain @ [Link e])"
  using assms by (auto simp: cause_chain_def successively_append_iff)

definition retained_upto :: "journal \<Rightarrow> u64 \<Rightarrow> system_event set" where
  "retained_upto j s = {e \<in> set (events j). ev_sequence e \<le> s}"

lemma card_retained_upto:
  assumes "e \<in> set (events j)" and "ev_parent_event e < ev_sequence e"
  shows "Suc (card (retained_upto j (ev_parent_event e))) \<le> card (retained_upto j (ev_sequence e))"
proof -
  have "retained_upto j (ev_parent_event e) \<subset> retained_upto j (ev_sequence e)"
  proof (rule psubsetI)
    show "retained_upto j (ev_parent_event e) \<subseteq> retained_upto j (ev_sequence e)"
      using assms(2) by (auto simp: retained_upto_def)
    show "retained_upto j (ev_parent_event e) \<noteq> retained_upto j (ev_sequence e)"
      using assms by (metis (no_types, lifting) leD mem_Collect_eq order_refl retained_upto_def)
  qed
  then show ?thesis
    by (intro Suc_leI psubset_card_mono) (simp add: retained_upto_def)
qed

lemma event_chain_total:
  assumes "causal_journal j"
  shows "\<exists>chain. event_chain j s = Some chain \<and> length chain \<le> Suc (card (retained_upto j s)) \<and> cause_chain s chain"
proof (induction "unat s" arbitrary: s rule: less_induct)
  case less
  show ?case
  proof (cases "event_find j s")
    case None
    then show ?thesis by (subst event_chain.simps) (simp add: cause_chain_def)
  next
    case (Some e)
    then have e: "ev_sequence e = s" "e \<in> set (events j)"
      using event_find_sequence by auto
    show ?thesis
    proof (cases "ev_parent_event e = 0")
      case True
      then show ?thesis using Some e by (subst event_chain.simps) (simp add: cause_chain_def)
    next
      case False
      have lt: "ev_parent_event e < ev_sequence e"
        using assms e by (auto simp: causal_journal_def)
      then have "unat (ev_parent_event e) < unat s" by (simp add: word_less_nat_alt e)
      from less [OF this] obtain chain where chain: "event_chain j (ev_parent_event e) = Some chain"
        "length chain \<le> Suc (card (retained_upto j (ev_parent_event e)))" "cause_chain (ev_parent_event e) chain"
        by blast
      have "event_chain j s = Some (chain @ [Link e])"
        using Some False chain(1) by (subst event_chain.simps) simp
      moreover have "length (chain @ [Link e]) \<le> Suc (card (retained_upto j s))"
        using chain(2) card_retained_upto [OF e(2) lt] by (simp add: e)
      ultimately show ?thesis
        using cause_chain_snoc [OF chain(3) lt] by (simp add: e)
    qed
  qed
qed

section \<open>Properties\<close>

text \<open>C5: \<^verbatim>\<open>event_print_chain\<close> returns on every journal the kernel builds: the recursion through the
  parents ends after at most one step more than there are events retained (so at most 129), and what
  it prints is the causal history, from an event without a parent, or from the number of one no
  longer retained, to the event asked for, each the parent of the next.\<close>

theorem why_ends_with_history:
  assumes "causal_journal j"
  shows "\<exists>chain. event_chain j s = Some chain \<and> length chain \<le> count j + 1 \<and> count j \<le> 128 \<and>
    cause_chain s chain"
proof -
  from event_chain_total [OF assms] obtain chain where chain: "event_chain j s = Some chain"
    "length chain \<le> Suc (card (retained_upto j s))" "cause_chain s chain" by blast
  have "card (retained_upto j s) \<le> card (set (events j))"
    by (intro card_mono) (auto simp: retained_upto_def)
  also have "\<dots> \<le> count j" using card_length [of "events j"] by simp
  finally show ?thesis
    using chain assms by (auto simp: causal_journal_def ring_ok_def)
qed

theorem why_ends_with_history_witness:
  "\<exists>chain. event_chain (jnl first_kernel) 7 = Some chain \<and> cause_chain 7 chain"
proof -
  have "causal_journal (jnl first_kernel)" using first_kernel_causal(1) by (simp add: causal_def)
  from why_ends_with_history [OF this, of 7] show ?thesis by blast
qed

end
