(* ===== verification/Faults.thy ===== *)
theory Faults
  imports Paging Ramfs Config Reports
begin

text \<open>
  Exceptions: \<^verbatim>\<open>user_handle_fault\<close> (\<^verbatim>\<open>kernel/user.c\<close>), which contains the page faults
  of a process, and \<^verbatim>\<open>exception_handler\<close> (\<^verbatim>\<open>kernel/idt.c\<close>), which stops the machine for
  all others. The interrupt frame is given by the two fields that are read, the faulting address
  (\<^verbatim>\<open>cr2\<close>) is an argument. The handler returns whether execution goes back to the kernel.
\<close>

definition user_handle_fault :: "u64 \<Rightarrow> u64 \<Rightarrow> u64 \<Rightarrow> u64 \<Rightarrow> u64 \<Rightarrow> bool op" where
  "user_handle_fault vector error_code rip cs fault_address = do {
     active \<leftarrow> gets (\<lambda>k. active_user_process (usr k));
     case active of
       None \<Rightarrow> return False
     | Some i \<Rightarrow>
         if vector \<noteq> 14 \<or> cs AND 3 \<noteq> 3 then return False
         else do {
           process \<leftarrow> gets (\<lambda>k. process_at (usr k) i);
           kernel_space \<leftarrow> gets (\<lambda>k. memory_kernel_address_space (mem k));
           memory_switch_address_space kernel_space (thread_name process) ''kernel'' ''allow:fault-kernel-cr3'';
           on_usr (\<lambda>u. u\<lparr>user_fault_contained := True\<rparr>);
           let isolation = (fault_address = peer_probe_address process \<and> peer_process_name process \<noteq> []);
           let target = (if isolation then peer_process_name process else ''kernel'');
           let policy = (if isolation then ''deny:address-space-isolation'' else ''deny:user-page-fault'');
           let operation = (if isolation then ''isolation_fault'' else ''page_fault'');
           current \<leftarrow> event_current;
           event_record_kind (thread_name process) target operation EVENT_FAULT current policy ''fault'';
           kprintf (''User page fault contained: rip=%x address=%x error=%x policy=%s'' @ newline)
             [FHex rip, FHex fault_address, FHex error_code, FStr policy];
           return True
         }
   }"

definition exception_names :: "string list" where
  "exception_names =
    [''Divide error'', ''Debug'', ''Non-maskable interrupt'', ''Breakpoint'',
     ''Overflow'', ''Bound range exceeded'', ''Invalid opcode'', ''Device not available'',
     ''Double fault'', ''Coprocessor segment overrun'', ''Invalid TSS'', ''Segment not present'',
     ''Stack-segment fault'', ''General protection fault'', ''Page fault'', ''Reserved'',
     ''x87 floating-point exception'', ''Alignment check'', ''Machine check'', ''SIMD floating-point exception'',
     ''Virtualization exception'', ''Control protection exception'', ''Reserved'', ''Reserved'',
     ''Reserved'', ''Reserved'', ''Reserved'', ''Reserved'', ''Hypervisor injection exception'',
     ''VMM communication exception'', ''Security exception'', ''Reserved'']"

text \<open>The entry stubs pass vectors below 32 only.\<close>

definition exception_handler :: "u64 \<Rightarrow> u64 \<Rightarrow> u64 \<Rightarrow> u64 \<Rightarrow> u64 \<Rightarrow> bool op" where
  "exception_handler vector error_code rip cs fault_address = do {
     contained \<leftarrow> user_handle_fault vector error_code rip cs fault_address;
     if contained then return True
     else do {
       event_record ''cpu'' ''kernel'' ''exception'' EVENT_FAULT 0 ''deny:fault'';
       kserial ''EXCEPTION vector='';
       on_con (serial_write_decimal vector);
       kserial '' error='';
       on_con (serial_write_hex error_code);
       kserial [CHR 0x0D, CHR 0x0A];
       on_con (vga_set_color 0x0C);
       on_con clear_screen;
       kprintf (''CPU EXCEPTION'' @ newline @ ''%s'' @ newline @ ''vector: %d  error: %x'' @ newline @
           ''System halted.'' @ newline)
         [FStr (exception_names ! unat vector), int_arg vector, FHex error_code];
       modify (\<lambda>k. k\<lparr>halted := True\<rparr>);
       return False
     }
   }"

section \<open>Frames, events, registrations\<close>

text \<open>The configuration and the policy: what no process can change.\<close>

definition rules_and_config :: "kernel \<Rightarrow> policy_table \<times> config_entry list" where
  "rules_and_config k = (in_force (pol k), cfg k)"

lemma frame_rules: "frame settings m \<Longrightarrow> frame rules_and_config m"
  by (simp add: frame_def settings_def rules_and_config_def)

lemma frame_fault [frame_intro]:
  "frame settings (user_handle_fault v e r c a)" "frame reg (user_handle_fault v e r c a)"
  unfolding user_handle_fault_def Let_def
  by (intro frame_intro; simp add: frame_def)+

lemma frame_halt: "frame rules_and_config (modify (\<lambda>k. k\<lparr>halted := True\<rparr>))"
  by (simp add: frame_def rules_and_config_def)

lemma frame_exception [frame_intro]: "frame rules_and_config (exception_handler v e r c a)"
  unfolding exception_handler_def
  by (intro frame_intro frame_halt frame_rules)

lemma frame_reg_exception [frame_intro]: "frame reg (exception_handler v e r c a)"
  unfolding exception_handler_def by (intro frame_intro; simp add: frame_def)

lemma traces_fault [trace_intro]: "traces E (user_handle_fault v e r c a) (\<lambda>_. {})"
  unfolding user_handle_fault_def Let_def by (rule trace_intro | simp; fail)+

lemma traces_halt [trace_intro]: "traces E (modify (\<lambda>k. k\<lparr>halted := True\<rparr>)) (\<lambda>_. {})"
  by (rule traces_quiet) (simp_all add: frame_def speaks_iff growing.evo_refl)

text \<open>The event of a fatal exception has no cause: its parent is 0, which is earlier than every
  event.\<close>

lemma traces_record_root [trace_intro]: "traces E (event_record a t op r 0 po) (\<lambda>e. {e})"
  unfolding tracked_def
proof (rule allI)
  fix k
  have root: "traces {0} (event_record a t op r 0 po) (\<lambda>e. {e})" by (rule traces_record) simp
  have "has_event k 0" if "causal k"
    using that by (auto simp: has_event_def causal_def causal_journal_def word_gt_0 intro: order_le_less_trans)
  with root show "\<exists>n. later k (exec (event_record a t op r 0 po) k) n \<and>
      (numbers_left k n \<and> causal k \<and> (\<forall>e \<in> E. has_event k e) \<longrightarrow>
        causal (exec (event_record a t op r 0 po) k) \<and>
        (\<forall>e \<in> {ret (event_record a t op r 0 po) k}. has_event (exec (event_record a t op r 0 po) k) e))"
    unfolding tracked_def by (metis empty_iff insertE)
qed

lemma traces_exception [trace_intro]: "traces E (exception_handler v e r c a) (\<lambda>_. {})"
  unfolding exception_handler_def by (rule trace_intro | simp; fail)+

lemma enrols_fault [enrol_intro]:
  "enrols E (user_handle_fault v e r c a) (\<lambda>_. {})" "enrols E (exception_handler v e r c a) (\<lambda>_. {})"
  by (rule enrols_quiet; simp add: frame_fault frame_reg_exception)+

end
