(* ===== verification/Processes.thy ===== *)
theory Processes
  imports Faults
begin

text \<open>
  Creating and loading processes (\<^verbatim>\<open>kernel/user.c\<close>). A process is an index into the table; a
  process that cannot be completed keeps its slot, as in the code.
\<close>

section \<open>Operations\<close>

definition user_init :: "unit op" where
  "user_init = do {
     on_usr (\<lambda>u. u\<lparr>processes := [], scheduler_index := 0\<rparr>);
     current \<leftarrow> event_current;
     system \<leftarrow> lookup_id ''system'';
     register ''scheduler'' ''scheduler'' system ''cooperative'' current;
     scheduler \<leftarrow> lookup_id ''scheduler'';
     register ''user_transition'' ''user_transition'' scheduler ''scaffold-ready'' current;
     event_record_kind ''scheduler'' ''scheduler'' ''initialize'' EVENT_OK current ''allow:boot-user'' ''state'';
     return ()
   }"

definition create_process :: "nat option op" where
  "create_process = do {
     count \<leftarrow> gets (\<lambda>k. length (processes (usr k)));
     current \<leftarrow> event_current;
     if count \<ge> USER_PROCESS_CAPACITY then do {
       event_record_kind ''scheduler'' ''scheduler'' ''process_create'' EVENT_DENIED current
         ''deny:process-table-full'' ''state'';
       return None
     }
     else do {
       let process = new_process count;
       on_usr (\<lambda>u. u\<lparr>processes := processes u @ [process]\<rparr>);
       scheduler \<leftarrow> lookup_id ''scheduler'';
       process_object \<leftarrow> register ''process'' (process_name process) scheduler ''created'' current;
       register ''thread'' (thread_name process) process_object ''runnable'' current;
       register ''address_space'' (address_space_name process) process_object ''created'' current;
       event_record_kind ''scheduler'' (process_name process) ''process_create'' EVENT_OK current
         ''allow:user-process'' ''state'';
       event_record_kind ''scheduler'' (thread_name process) ''thread_create'' EVENT_OK current
         ''allow:user-thread'' ''state'';
       root \<leftarrow> memory_create_address_space (address_space_name process);
       on_usr (update_process count (\<lambda>p. p\<lparr>process_cr3 := root\<rparr>));
       if root = 0 then do {
         event_record_kind ''scheduler'' (address_space_name process) ''address_space_create'' EVENT_DENIED
           current ''deny:address-space'' ''state'';
         return None
       }
       else do {
         event_record_kind ''scheduler'' (address_space_name process) ''address_space_create'' EVENT_OK
           current ''allow:user-address-space'' ''state'';
         kprintf (''Created %s with %s'' @ newline) [FStr (process_name process), FStr (thread_name process)];
         return (Some count)
       }
     }
   }"

definition transition_scaffold :: "user_process \<Rightarrow> unit op" where
  "transition_scaffold process = do {
     current \<leftarrow> event_current;
     event_record_kind ''scheduler'' (thread_name process) ''user_transition_scaffold'' EVENT_OK current
       ''allow:user-transition'' ''state'';
     kprintf (''User transition scaffold ready for %s'' @ newline) [FStr (thread_name process)]
   }"

definition clear_page :: "u64 \<Rightarrow> memory \<Rightarrow> memory" where
  "clear_page destination m = fold (\<lambda>i. write8 (destination + word_of_nat i) 0x90) [0..<4096] m"

text \<open>The bytes that \<^verbatim>\<open>ramfs_read\<close> stores at its buffer.\<close>

fun store_bytes :: "u64 \<Rightarrow> u8 list \<Rightarrow> memory \<Rightarrow> memory" where
  "store_bytes address [] m = m"
| "store_bytes address (b # bs) m = store_bytes (address + 1) bs (write8 address b m)"

definition is_executable :: "ramfs_file \<Rightarrow> bool" where
  "is_executable file \<longleftrightarrow> file_type file = RAMFS_FILE_EXECUTABLE \<and> \<not> file_size file > PAGE_SIZE"

text \<open>From a file that can be executed to the two mapped pages.\<close>

definition load_image :: "nat \<Rightarrow> string \<Rightarrow> ramfs_file \<Rightarrow> policy_decision \<Rightarrow> bool op" where
  "load_image i file_path file policy = do {
     code \<leftarrow> page_alloc;
     on_usr (update_process i (\<lambda>p. p\<lparr>code_page := code\<rparr>));
     stack \<leftarrow> page_alloc;
     on_usr (update_process i (\<lambda>p. p\<lparr>stack_page := stack\<rparr>));
     process \<leftarrow> gets (\<lambda>k. process_at (usr k) i);
     if code = 0 \<or> stack = 0 then do {
       event_record_kind ''scheduler'' (process_name process) ''load_executable'' EVENT_DENIED
         (decision_event policy) ''deny:user-pages'' ''state'';
       return False
     }
     else do {
       on_mem (clear_page code);
       on_mem (store_bytes code (ramfs_read (Some file) 0 True (file_size file)));
       code_mapped \<leftarrow> memory_map_process_page (process_cr3 process) USER_CODE_VA code True False True
         ''allow:user-code-page'';
       stack_mapped \<leftarrow> (if code_mapped
         then memory_map_process_page (process_cr3 process) (USER_STACK_TOP - PAGE_SIZE) stack True True False
           ''allow:user-stack-page''
         else return False);
       if \<not> code_mapped \<or> \<not> stack_mapped then return False
       else do {
         on_usr (update_process i (\<lambda>p. p\<lparr>image_path := copy_name USER_NAME_SIZE (Some file_path)\<rparr>));
         event_record_kind ''ramfs'' file_path ''read'' EVENT_OK (decision_event policy) (reason policy) ''state'';
         event_record_kind ''scheduler'' (process_name process) ''load_executable'' EVENT_OK
           (decision_event policy) ''allow:user-image'' ''state'';
         kprintf (''Loaded %s into %s at va=%x'' @ newline)
           [FStr file_path, FStr (process_name process), FHex USER_CODE_VA];
         return True
       }
     }
   }"

definition load_executable :: "nat \<Rightarrow> string \<Rightarrow> bool op" where
  "load_executable i file_path = do {
     policy \<leftarrow> policy_check ''shell'' file_path ''process:load'';
     if \<not> allowed policy then do {
       kprintf (''Denied: %s'' @ newline) [FStr (reason policy)];
       return False
     }
     else do {
       command_event \<leftarrow> event_current;
       set_current (decision_event policy);
       found \<leftarrow> ramfs_lookup file_path;
       set_current command_event;
       if (case found of None \<Rightarrow> True | Some file \<Rightarrow> \<not> is_executable file) then do {
         event_record_kind ''ramfs'' file_path ''load'' EVENT_DENIED (decision_event policy)
           ''deny:not-executable'' ''policy'';
         kprintf (''Executable not found: %s'' @ newline) [FStr file_path];
         return False
       }
       else load_image i file_path (the found) policy
     }
   }"

definition map_private_probe_page :: "nat \<Rightarrow> bool op" where
  "map_private_probe_page i = do {
     private_page \<leftarrow> page_alloc;
     if private_page = 0 then return False
     else do {
       owner \<leftarrow> gets (\<lambda>k. process_at (usr k) i);
       on_mem (fold (\<lambda>j. write64 (private_page + 8 * word_of_nat j) (0xBEEFBEEF00000000 OR ucast (pid owner))) [0..<512]);
       mapped \<leftarrow> memory_map_process_page (process_cr3 owner) USER_PEER_PROBE_VA private_page True True False
         ''allow:user-private-page'';
       if \<not> mapped then return False
       else do {
         current \<leftarrow> event_current;
         event_record_kind ''scheduler'' (process_name owner) ''map_private_page'' EVENT_OK current
           ''allow:user-private-page'' ''state'';
         return True
       }
     }
   }"

section \<open>Frames, events, registrations\<close>

lemma frame_settings_lookup [frame_intro]: "frame settings (ramfs_lookup q)"
  by (rule frame_settings) (rule frame_ramfs)

lemma frame_processes [frame_intro]:
  "frame settings user_init" "frame settings create_process" "frame settings (transition_scaffold p)"
  "frame settings (load_image i f fl po)" "frame settings (load_executable i f)" "frame settings (map_private_probe_page i)"
  unfolding user_init_def create_process_def transition_scaffold_def load_executable_def load_image_def
    map_private_probe_page_def Let_def
  by (intro frame_intro)+

lemma traces_load_image [trace_intro]:
  "decision_event po \<in> E \<Longrightarrow> traces E (load_image i f fl po) (\<lambda>_. {})"
  unfolding load_image_def by (rule trace_intro | simp; fail)+

lemma traces_processes [trace_intro]:
  "traces E user_init (\<lambda>_. {})" "traces E create_process (\<lambda>_. {})" "traces E (transition_scaffold p) (\<lambda>_. {})"
  "traces E (load_executable i f) (\<lambda>_. {})" "traces E (map_private_probe_page i) (\<lambda>_. {})"
  unfolding user_init_def create_process_def transition_scaffold_def load_executable_def
    map_private_probe_page_def Let_def
  by (rule trace_intro | simp; fail)+

lemma new_process_names:
  "length (process_name (new_process n)) < 48" "length (thread_name (new_process n)) < 48"
  "length (address_space_name (new_process n)) < 48"
  by (simp_all add: new_process_def Let_def build_name_def append_decimal32_eq length_append_text)

lemma enrols_load_image [enrol_intro]: "enrols E (load_image i f fl po) (\<lambda>_. {})"
  unfolding load_image_def by (rule enrol_intro)+

lemma enrols_processes [enrol_intro]:
  "enrols E user_init (\<lambda>_. {})" "enrols E create_process (\<lambda>_. {})" "enrols E (transition_scaffold p) (\<lambda>_. {})"
  "enrols E (load_executable i f) (\<lambda>_. {})" "enrols E (map_private_probe_page i) (\<lambda>_. {})"
  unfolding user_init_def create_process_def transition_scaffold_def load_executable_def
    map_private_probe_page_def Let_def
  by (rule enrol_intro | simp add: new_process_names; fail)+

end
