(* ===== verification/Syscalls.thy ===== *)
theory Syscalls
  imports Processes
begin

text \<open>
  System calls (\<^verbatim>\<open>kernel/user.c\<close>): each runs in a transaction of the calling thread and asks
  the policy first. The calls only read the process's thread name.
\<close>

section \<open>Operations\<close>

definition syscall_begin :: "user_process \<Rightarrow> string \<Rightarrow> u64 op" where
  "syscall_begin process target = do {
     parent \<leftarrow> event_current;
     transaction \<leftarrow> transaction_begin (thread_name process) target parent;
     set_transaction transaction;
     set_current (if transaction = 0 then parent else transaction);
     return transaction
   }"

definition syscall_finish :: "u64 \<Rightarrow> bool \<Rightarrow> unit op" where
  "syscall_finish transaction ok = do {
     cwhen (transaction \<noteq> 0)
       (if ok then do { transaction_commit transaction; return () }
        else do { transaction_abort transaction ''deny:syscall''; return () });
     set_transaction 0
   }"

definition refuse_syscall :: "u64 \<Rightarrow> policy_decision \<Rightarrow> bool op" where
  "refuse_syscall transaction policy = do {
     kprintf (''User syscall denied: %s'' @ newline) [FStr (reason policy)];
     syscall_finish transaction False;
     return False
   }"

definition user_syscall_inspect :: "user_process \<Rightarrow> string \<Rightarrow> bool op" where
  "user_syscall_inspect process target = do {
     transaction \<leftarrow> syscall_begin process target;
     policy \<leftarrow> policy_check (thread_name process) target ''syscall:inspect'';
     if \<not> allowed policy then refuse_syscall transaction policy
     else do {
       event_record_kind (thread_name process) target ''inspect'' EVENT_OK (decision_event policy)
         (reason policy) ''syscall'';
       object_inspect target;
       syscall_finish transaction True;
       return True
     }
   }"

definition user_syscall_yield :: "user_process \<Rightarrow> bool op" where
  "user_syscall_yield process = do {
     transaction \<leftarrow> syscall_begin process (thread_name process);
     policy \<leftarrow> policy_check (thread_name process) (thread_name process) ''syscall:yield'';
     if \<not> allowed policy then refuse_syscall transaction policy
     else do {
       on_usr (\<lambda>u. u\<lparr>scheduler_index :=
         (if processes u = [] then 0 else (scheduler_index u + 1) mod length (processes u))\<rparr>);
       event_record_kind (thread_name process) ''scheduler'' ''yield'' EVENT_OK (decision_event policy)
         (reason policy) ''syscall'';
       event_record_kind ''scheduler'' (thread_name process) ''schedule'' EVENT_OK (decision_event policy)
         (reason policy) ''state'';
       kprintf (''%s yielded cooperatively'' @ newline) [FStr (thread_name process)];
       syscall_finish transaction True;
       return True
     }
   }"

definition user_syscall_config_get :: "user_process \<Rightarrow> string \<Rightarrow> bool op" where
  "user_syscall_config_get process key = do {
     transaction \<leftarrow> syscall_begin process key;
     policy \<leftarrow> policy_check (thread_name process) key ''syscall:config_get'';
     if \<not> allowed policy then refuse_syscall transaction policy
     else do {
       v \<leftarrow> config_get key;
       case v of
         None \<Rightarrow> do {
           event_record_kind (thread_name process) key ''config_get'' EVENT_DENIED (decision_event policy)
             ''deny:unknown-config-key'' ''syscall'';
           syscall_finish transaction False;
           return False
         }
       | Some v \<Rightarrow> do {
           event_record_kind (thread_name process) key ''config_get'' EVENT_OK (decision_event policy)
             (reason policy) ''syscall'';
           kprintf (''user syscall config_get %s=%s'' @ newline) [FStr key, FStr v];
           syscall_finish transaction True;
           return True
         }
     }
   }"

definition user_syscall_config_set_denied :: "user_process \<Rightarrow> string \<Rightarrow> bool op" where
  "user_syscall_config_set_denied process key = do {
     transaction \<leftarrow> syscall_begin process key;
     policy \<leftarrow> policy_check (thread_name process) key ''syscall:config_set'';
     if \<not> allowed policy then refuse_syscall transaction policy
     else do {
       event_record_kind (thread_name process) key ''config_set'' EVENT_OK (decision_event policy)
         (reason policy) ''syscall'';
       syscall_finish transaction True;
       return True
     }
   }"

definition unknown_syscall :: "user_process \<Rightarrow> bool op" where
  "unknown_syscall process = do {
     transaction \<leftarrow> syscall_begin process ''kernel'';
     current \<leftarrow> event_current;
     event_record_kind (thread_name process) ''kernel'' ''unknown_syscall'' EVENT_DENIED current
       ''deny:unknown-syscall'' ''syscall'';
     syscall_finish transaction False;
     return False
   }"

text \<open>Reading a string of the process through the current tables: the text and whether its end was
  found within the buffer and the code page; None is a page fault of the kernel.\<close>

fun copy_user_bytes :: "memory \<Rightarrow> u64 \<Rightarrow> nat \<Rightarrow> nat \<Rightarrow> string \<Rightarrow> (bool \<times> string) option" where
  "copy_user_bytes m user_address 0 i buf = Some (False, buf)"
| "copy_user_bytes m user_address (Suc room) i buf =
     (if user_address + word_of_nat i < USER_CODE_VA + PAGE_SIZE
      then (case read_virtual m (user_address + word_of_nat i) of
              None \<Rightarrow> None
            | Some b \<Rightarrow> if b = 0 then Some (True, buf)
                        else copy_user_bytes m user_address room (Suc i) (buf @ [char_of (unat b)]))
      else Some (False, buf))"

definition copy_user_string :: "memory \<Rightarrow> u64 \<Rightarrow> nat \<Rightarrow> (bool \<times> string) option" where
  "copy_user_string m user_address capacity =
     (if capacity = 0 \<or> user_address < USER_CODE_VA \<or> user_address \<ge> USER_CODE_VA + PAGE_SIZE
      then Some (False, [])
      else copy_user_bytes m user_address (capacity - 1) 0 [])"

text \<open>The target named by the call's first argument.\<close>

definition syscall_target :: "memory \<Rightarrow> u64 \<Rightarrow> u64 \<Rightarrow> string option" where
  "syscall_target m number arg0 =
     (if number = 1 \<or> number = 3 \<or> number = 4
      then (case copy_user_string m arg0 USER_NAME_SIZE of
              None \<Rightarrow> None
            | Some (found, buf) \<Rightarrow> Some (if found then buf else copy_name USER_NAME_SIZE (Some ''kernel'')))
      else Some (copy_name USER_NAME_SIZE (Some ''kernel'')))"

definition dispatch_syscall :: "u64 \<Rightarrow> user_process \<Rightarrow> string \<Rightarrow> bool op" where
  "dispatch_syscall number process target =
     (if number = 1 then user_syscall_inspect process target
      else if number = 2 then user_syscall_yield process
      else if number = 3 then user_syscall_config_get process target
      else if number = 4 then user_syscall_config_set_denied process target
      else unknown_syscall process)"

definition user_syscall_trap :: "u64 \<Rightarrow> u64 \<Rightarrow> u64 \<Rightarrow> unit op" where
  "user_syscall_trap number user_cs arg0 = do {
     active \<leftarrow> gets (\<lambda>k. active_user_process (usr k));
     current \<leftarrow> event_current;
     case active of
       None \<Rightarrow> do {
         event_record_kind ''cpu'' ''syscall'' ''trap'' EVENT_DENIED current ''deny:no-active-user'' ''syscall'';
         return ()
       }
     | Some i \<Rightarrow> do {
         process \<leftarrow> gets (\<lambda>k. process_at (usr k) i);
         event_record_kind (thread_name process) ''kernel'' ''cpl3_trap''
           (if user_cs AND 3 = 3 then EVENT_OK else EVENT_DENIED) current
           (if user_cs AND 3 = 3 then ''allow:cpl3'' else ''deny:not-cpl3'') ''syscall'';
         target \<leftarrow> gets (\<lambda>k. syscall_target (mem k) number arg0);
         case target of
           None \<Rightarrow> do { exception_handler 14 0 0 0x08 arg0; return () }
         | Some target \<Rightarrow> do {
             kernel_space \<leftarrow> gets (\<lambda>k. memory_kernel_address_space (mem k));
             memory_switch_address_space kernel_space (thread_name process) ''kernel'' ''allow:syscall-kernel-cr3'';
             dispatch_syscall number process target;
             memory_switch_address_space (process_cr3 process) (thread_name process)
               (address_space_name process) ''allow:syscall-user-cr3''
           }
       }
   }"

section \<open>Frames, events, registrations\<close>

lemma frame_settings_reports [frame_intro]: "frame settings (object_inspect q)" "frame settings (config_get key)"
  by (rule frame_settings; rule frame_object_reports frame_config)+

lemma frame_syscall_parts [frame_intro]:
  "frame settings (syscall_begin p t)" "frame settings (syscall_finish i ok)" "frame settings (refuse_syscall i po)"
  unfolding refuse_syscall_def syscall_finish_def syscall_begin_def
  by (intro frame_intro)+

lemma frame_syscalls [frame_intro]:
  "frame settings (user_syscall_inspect p t)" "frame settings (user_syscall_yield p)"
  "frame settings (user_syscall_config_get p t)" "frame settings (user_syscall_config_set_denied p t)"
  "frame settings (unknown_syscall p)"
  unfolding user_syscall_inspect_def user_syscall_yield_def user_syscall_config_get_def
    user_syscall_config_set_denied_def unknown_syscall_def
  by (intro frame_intro)+

lemma frame_dispatch [frame_intro]: "frame settings (dispatch_syscall n p t)"
  unfolding dispatch_syscall_def by (intro frame_intro)

lemma frame_trap [frame_intro]: "frame rules_and_config (user_syscall_trap n cs a)"
  unfolding user_syscall_trap_def
  by (intro frame_intro; (rule frame_rules, rule frame_intro)?)

lemma traces_syscall_begin [trace_intro]: "traces E (syscall_begin p t) (\<lambda>_. {})"
  unfolding syscall_begin_def by (rule trace_intro | simp; fail)+

lemma traces_syscall_parts [trace_intro]:
  "traces E (syscall_finish i ok) (\<lambda>_. {})" "traces E (refuse_syscall i po) (\<lambda>_. {})"
  unfolding refuse_syscall_def syscall_finish_def by (rule trace_intro | simp; fail)+

lemma traces_syscalls [trace_intro]:
  "traces E (user_syscall_inspect p t) (\<lambda>_. {})" "traces E (user_syscall_yield p) (\<lambda>_. {})"
  "traces E (user_syscall_config_get p t) (\<lambda>_. {})" "traces E (user_syscall_config_set_denied p t) (\<lambda>_. {})"
  "traces E (unknown_syscall p) (\<lambda>_. {})"
  unfolding user_syscall_inspect_def user_syscall_yield_def user_syscall_config_get_def
    user_syscall_config_set_denied_def unknown_syscall_def
  by (rule trace_intro | simp; fail)+

lemma traces_trap [trace_intro]:
  "traces E (dispatch_syscall n p t) (\<lambda>_. {})" "traces E (user_syscall_trap n cs a) (\<lambda>_. {})"
  unfolding dispatch_syscall_def user_syscall_trap_def by (rule trace_intro | simp; fail)+

lemma enrols_syscall_parts [enrol_intro]:
  "enrols E (syscall_begin p t) (\<lambda>_. {})" "enrols E (syscall_finish i ok) (\<lambda>_. {})"
  "enrols E (refuse_syscall i po) (\<lambda>_. {})"
  unfolding refuse_syscall_def syscall_finish_def syscall_begin_def by (rule enrol_intro)+

lemma enrols_syscalls [enrol_intro]:
  "enrols E (user_syscall_inspect p t) (\<lambda>_. {})" "enrols E (user_syscall_yield p) (\<lambda>_. {})"
  "enrols E (user_syscall_config_get p t) (\<lambda>_. {})" "enrols E (user_syscall_config_set_denied p t) (\<lambda>_. {})"
  "enrols E (unknown_syscall p) (\<lambda>_. {})"
  unfolding user_syscall_inspect_def user_syscall_yield_def user_syscall_config_get_def
    user_syscall_config_set_denied_def unknown_syscall_def
  by (rule enrol_intro)+

lemma enrols_trap [enrol_intro]:
  "enrols E (dispatch_syscall n p t) (\<lambda>_. {})" "enrols E (user_syscall_trap n cs a) (\<lambda>_. {})"
  unfolding dispatch_syscall_def user_syscall_trap_def by (rule enrol_intro)+

end
