(* ===== verification/User_Mode.thy ===== *)
theory User_Mode
  imports Syscalls
begin

text \<open>
  Running a process (\<^verbatim>\<open>user_run_demo\<close> in \<^verbatim>\<open>kernel/user.c\<close>). The program that runs in ring 3
  is a parameter: the list of what it makes the processor do. The kernel regains control through a
  contained page fault only, so a program without one never gives it back.
\<close>

section \<open>What a program can do\<close>

text \<open>A system call with its number and first argument, a read or a write of one byte (with the
  address of the instruction), another exception, and the interrupts that arrive meanwhile.\<close>

datatype user_action =
    Trap u64 u64
  | Load u64 u64
  | Store u64 u64 u8
  | Fault u64 u64 u64 u64
  | Tick
  | Key u8

text \<open>The code selector of ring 3 that the processor pushes.\<close>

abbreviation (input) USER_CS :: u64 where "USER_CS \<equiv> 0x23"

text \<open>A memory access of the process goes through its tables: it needs the user right, a store the
  write right too, and is a page fault otherwise, with the architecture's error code.\<close>

definition may_access :: "memory \<Rightarrow> u64 \<Rightarrow> bool \<Rightarrow> bool" where
  "may_access m va store \<longleftrightarrow>
     (case walk m (cr3 m) va of None \<Rightarrow> False | Some t \<Rightarrow> tr_user t \<and> (store \<longrightarrow> tr_writable t))"

definition fault_code :: "memory \<Rightarrow> u64 \<Rightarrow> bool \<Rightarrow> u64" where
  "fault_code m va store =
     4 + (if store then 2 else 0) + (if walk m (cr3 m) va = None then 0 else 1)"

definition user_store :: "u64 \<Rightarrow> u8 \<Rightarrow> memory \<Rightarrow> memory" where
  "user_store va b m =
     (case walk m (cr3 m) va of None \<Rightarrow> m | Some t \<Rightarrow> write8 (tr_address t) b m)"

definition user_access :: "u64 \<Rightarrow> u64 \<Rightarrow> u8 option \<Rightarrow> bool op" where
  "user_access rip va stored = do {
     ok \<leftarrow> gets (\<lambda>k. may_access (mem k) va (stored \<noteq> None));
     if ok then do {
       on_mem (case stored of None \<Rightarrow> (\<lambda>m. m) | Some b \<Rightarrow> user_store va b);
       return False
     }
     else do {
       code \<leftarrow> gets (\<lambda>k. fault_code (mem k) va (stored \<noteq> None));
       exception_handler 14 code rip USER_CS va
     }
   }"

text \<open>One action; the result says whether the processor is back in the kernel, in
  \<^verbatim>\<open>user_run_demo\<close>.\<close>

definition user_act :: "user_action \<Rightarrow> bool op" where
  "user_act action =
     (case action of
        Trap number arg0 \<Rightarrow> do { user_syscall_trap number USER_CS arg0; return False }
      | Load rip va \<Rightarrow> user_access rip va None
      | Store rip va b \<Rightarrow> user_access rip va (Some b)
      | Fault vector error_code rip va \<Rightarrow> exception_handler vector error_code rip USER_CS va
      | Tick \<Rightarrow> do { timer_handler; return False }
      | Key scancode \<Rightarrow> do { keyboard_interrupt scancode; return False })"

text \<open>From \<^verbatim>\<open>user_enter_ring3\<close> until control returns; False when it does not: the program
  runs on, or the machine has stopped.\<close>

fun user_enter_ring3 :: "user_action list \<Rightarrow> bool op" where
  "user_enter_ring3 [] = return False"
| "user_enter_ring3 (a # as) = do {
     returned \<leftarrow> user_act a;
     stopped \<leftarrow> gets halted;
     if returned then return True
     else if stopped then return False
     else user_enter_ring3 as
   }"

section \<open>The demonstration\<close>

definition prepare_demo :: "(nat \<times> nat) option op" where
  "prepare_demo = do {
     process \<leftarrow> create_process;
     case process of
       None \<Rightarrow> return None
     | Some i \<Rightarrow> do {
         peer \<leftarrow> create_process;
         case peer of
           None \<Rightarrow> return None
         | Some j \<Rightarrow> do {
             p \<leftarrow> gets (\<lambda>k. process_at (usr k) i);
             transition_scaffold p;
             loaded \<leftarrow> load_executable i ''/bin/hello'';
             mapped \<leftarrow> (if loaded then map_private_probe_page j else return False);
             if \<not> loaded \<or> \<not> mapped then do {
               kprintf (''User demo failed: process load'' @ newline) [];
               return None
             }
             else return (Some (i, j))
           }
       }
   }"

definition enter_demo :: "nat \<Rightarrow> nat \<Rightarrow> user_action list \<Rightarrow> bool option op" where
  "enter_demo i j program = do {
     peer_name \<leftarrow> gets (\<lambda>k. process_name (process_at (usr k) j));
     on_usr (update_process i (\<lambda>p. p\<lparr>peer_probe_address := USER_PEER_PROBE_VA,
       peer_process_name := copy_name USER_NAME_SIZE (Some peer_name)\<rparr>));
     on_usr (\<lambda>u. u\<lparr>active_user_process := Some i, user_fault_contained := False\<rparr>);
     p \<leftarrow> gets (\<lambda>k. process_at (usr k) i);
     current \<leftarrow> event_current;
     event_record_kind ''scheduler'' (thread_name p) ''enter_cpl3'' EVENT_OK current ''allow:user-enter'' ''state'';
     memory_switch_address_space (process_cr3 p) ''scheduler'' (address_space_name p) ''allow:process-cr3'';
     returned \<leftarrow> user_enter_ring3 program;
     if \<not> returned then return None
     else do {
       kernel_space \<leftarrow> gets (\<lambda>k. memory_kernel_address_space (mem k));
       memory_switch_address_space kernel_space ''scheduler'' ''kernel'' ''allow:kernel-cr3'';
       on_usr (\<lambda>u. u\<lparr>active_user_process := None\<rparr>);
       contained \<leftarrow> gets (\<lambda>k. user_fault_contained (usr k));
       kprintf (''User demo complete: cpl3=yes syscall_return=yes fault_contained=%s image=/bin/hello address_space=yes''
           @ newline) [FStr (if contained then ''yes'' else ''no'')];
       return (Some contained)
     }
   }"

text \<open>None: control has not come back.\<close>

definition user_run_demo :: "user_action list \<Rightarrow> bool option op" where
  "user_run_demo program = do {
     prepared \<leftarrow> prepare_demo;
     case prepared of
       None \<Rightarrow> return (Some False)
     | Some ij \<Rightarrow> enter_demo (fst ij) (snd ij) program
   }"

section \<open>Frames, events, registrations\<close>

lemma frame_interrupts [frame_intro]:
  "frame rules_and_config timer_handler" "frame rules_and_config (keyboard_interrupt c)"
  "frame reg timer_handler" "frame reg (keyboard_interrupt c)"
  "frame jnl timer_handler" "frame jnl (keyboard_interrupt c)"
  by (simp_all add: frame_def timer_handler_def keyboard_interrupt_def rules_and_config_def Let_def)

lemma frame_user_act [frame_intro]: "frame rules_and_config (user_act a)"
  unfolding user_act_def user_access_def
  by (cases a; simp only: user_action.case) (intro frame_intro; (rule frame_rules, rule frame_intro)?)+

lemma frame_ring3 [frame_intro]: "frame rules_and_config (user_enter_ring3 program)"
  by (induction program) (auto intro!: frame_intro)

lemma frame_prepare [frame_intro]: "frame settings prepare_demo"
  unfolding prepare_demo_def by (intro frame_intro)

lemma frame_demo [frame_intro]: "frame rules_and_config (user_run_demo program)"
  unfolding user_run_demo_def enter_demo_def
  by (intro frame_intro; (rule frame_rules, rule frame_intro)?)

lemma speaks_interrupts: "speaks timer_handler" "speaks (keyboard_interrupt c)"
proof -
  show "speaks timer_handler"
    using sends_console(6) by (simp add: speaks_iff timer_handler_def sends_def)
  have "console_grows (con k) (display (keyboard_handler c ((kbd k)\<lparr>display := con k\<rparr>)))" for k :: kernel
    using handler_grows [of "(kbd k)\<lparr>display := con k\<rparr>" c] by simp
  then show "speaks (keyboard_interrupt c)"
    by (simp add: speaks_iff keyboard_interrupt_def Let_def)
qed

lemma traces_interrupts [trace_intro]:
  "traces E timer_handler (\<lambda>_. {})" "traces E (keyboard_interrupt c) (\<lambda>_. {})"
  by (rule traces_quiet; simp add: frame_interrupts speaks_interrupts)+

lemma traces_user_act [trace_intro]: "traces E (user_act a) (\<lambda>_. {})"
  unfolding user_act_def user_access_def
  by (cases a; simp only: user_action.case) (rule trace_intro | simp; fail)+

lemma traces_ring3 [trace_intro]: "traces E (user_enter_ring3 program) (\<lambda>_. {})"
proof (induction program arbitrary: E)
  case Nil
  show ?case by (simp only: user_enter_ring3.simps) (rule trace_intro | simp; fail)+
next
  case (Cons a as)
  show ?case by (simp only: user_enter_ring3.simps) (rule trace_intro Cons.IH | simp; fail)+
qed

lemma traces_demo [trace_intro]: "traces E (user_run_demo program) (\<lambda>_. {})"
  unfolding user_run_demo_def prepare_demo_def enter_demo_def
  by (rule trace_intro | simp; fail)+

lemma enrols_interrupts [enrol_intro]:
  "enrols E timer_handler (\<lambda>_. {})" "enrols E (keyboard_interrupt c) (\<lambda>_. {})"
  by (rule enrols_quiet; simp add: frame_interrupts)+

lemma enrols_user_act [enrol_intro]: "enrols E (user_act a) (\<lambda>_. {})"
  unfolding user_act_def user_access_def
  by (cases a; simp only: user_action.case) (rule enrol_intro)+

lemma enrols_ring3 [enrol_intro]: "enrols E (user_enter_ring3 program) (\<lambda>_. {})"
proof (induction program arbitrary: E)
  case Nil
  show ?case by (simp only: user_enter_ring3.simps) (rule enrol_intro)+
next
  case (Cons a as)
  show ?case by (simp only: user_enter_ring3.simps) (rule enrol_intro Cons.IH)+
qed

lemma enrols_demo [enrol_intro]: "enrols E (user_run_demo program) (\<lambda>_. {})"
  unfolding user_run_demo_def prepare_demo_def enter_demo_def
  by (rule enrol_intro)+

end
