(* ===== verification/Shell.thy ===== *)
theory Shell
  imports User_Mode
begin

text \<open>
  The shell (\<^verbatim>\<open>kernel/main.c\<close>): splitting a line, the commands, and the transaction every
  command runs in. The build options \<^verbatim>\<open>GLASS_TEST_FAULT_INJECTION\<close> and
  \<^verbatim>\<open>GLASS_TEST_POLICY_DENY\<close>, which add commands for the tests, are off.
\<close>

section \<open>Text\<close>

fun strcmp :: "string \<Rightarrow> string \<Rightarrow> int" where
  "strcmp [] [] = 0"
| "strcmp [] (d # t) = - of_char d"
| "strcmp (c # s) [] = of_char c"
| "strcmp (c # s) (d # t) = (if c = d then strcmp s t else of_char c - of_char d)"

text \<open>The first word, and what follows the spaces after it, if anything does.\<close>

fun drop_blanks :: "string \<Rightarrow> string" where
  "drop_blanks [] = []"
| "drop_blanks (c # s) = (if c = CHR '' '' then drop_blanks s else c # s)"

fun split_command :: "string \<Rightarrow> string \<times> string option" where
  "split_command [] = ([], None)"
| "split_command (c # s) =
     (if c = CHR '' '' then ([], let rest = drop_blanks s in if rest = [] then None else Some rest)
      else (case split_command s of (w, rest) \<Rightarrow> (c # w, rest)))"

fun copy_first_token :: "nat \<Rightarrow> string \<Rightarrow> string" where
  "copy_first_token 0 source = []"
| "copy_first_token (Suc n) [] = []"
| "copy_first_token (Suc n) (c # source) =
     (if n = 0 \<or> c = CHR '' '' then [] else c # copy_first_token n source)"

definition build_transaction_target :: "nat \<Rightarrow> u64 \<Rightarrow> string" where
  "build_transaction_target capacity transaction =
     append_decimal64 capacity (append_text capacity [] ''transaction/'') transaction"

section \<open>Commands\<close>

definition print_denied :: "policy_decision \<Rightarrow> unit op" where
  "print_denied policy = kprintf (''Denied: %s'' @ newline) [FStr (reason policy)]"

definition show_meminfo :: "unit op" where
  "show_meminfo = do {
     policy \<leftarrow> policy_check ''shell'' ''memory'' ''memory:inspect'';
     if \<not> allowed policy then print_denied policy
     else do {
       event_record_kind ''memory'' ''memory'' ''inspect'' EVENT_OK (decision_event policy) (reason policy) ''state'';
       m \<leftarrow> gets mem;
       kprintf (''E820 entries: %d, usable: %x KiB'' @ newline)
         [FInt (detected_entry_count m), FHex (usable_memory_bytes m div 1024)];
       kprintf (''Mapped: %x MiB, pages free: %d'' @ newline)
         [FHex (IDENTITY_MAP_LIMIT div (1024 * 1024)), FInt (word_of_nat (page_allocator_free_pages m))];
       kprintf (''Heap: %x/%x bytes'' @ newline)
         [FHex (heap_capacity m - heap_remaining m), FHex (heap_capacity m)]
     }
   }"

definition show_time :: "unit op" where
  "show_time = do {
     t \<leftarrow> gets ticks;
     kprintf (''System active for: %d seconds (%x ticks)'' @ newline) [FInt (ucast (t div 100)), FHex t]
   }"

definition list_files :: "unit op" where
  "list_files = do {
     policy \<leftarrow> policy_check ''shell'' ''ramfs'' ''filesystem:list'';
     if \<not> allowed policy then print_denied policy
     else do {
       event_record_kind ''ramfs'' ''ramfs'' ''list'' EVENT_OK (decision_event policy) (reason policy) ''state'';
       for_each files (\<lambda>file.
         kprintf (''%s%s'' @ newline)
           [FStr (if file_type file = RAMFS_FILE_MODULE then ''[module] ''
                  else if file_type file = RAMFS_FILE_EXECUTABLE then ''[bin] '' else ''[file] ''),
            FStr (path file)])
     }
   }"

definition show_config :: "string \<Rightarrow> bool op" where
  "show_config key = do {
     policy \<leftarrow> policy_check ''shell'' key ''config:get'';
     if \<not> allowed policy then do { print_denied policy; return False }
     else do {
       v \<leftarrow> config_get key;
       case v of
         None \<Rightarrow> do {
           event_record_kind ''config'' key ''get'' EVENT_DENIED (decision_event policy)
             ''deny:unknown-config-key'' ''state'';
           kprintf (''Config key not found: %s'' @ newline) [FStr key];
           return False
         }
       | Some v \<Rightarrow> do {
           event_record_kind ''config'' key ''get'' EVENT_OK (decision_event policy) (reason policy) ''state'';
           kprintf (''%s=%s'' @ newline) [FStr key, FStr v];
           return True
         }
     }
   }"

definition set_config_to :: "string \<Rightarrow> string \<Rightarrow> bool op" where
  "set_config_to key v = do {
     policy \<leftarrow> policy_check ''shell'' key ''config:set'';
     if \<not> allowed policy then do { print_denied policy; return False }
     else do {
       before \<leftarrow> gets (\<lambda>k. object_revision (reg k) key);
       previous_event \<leftarrow> event_current;
       set_current (decision_event policy);
       changed \<leftarrow> config_set key v;
       set_current previous_event;
       if \<not> changed then do {
         kprintf (''Config key not found: %s'' @ newline) [FStr key];
         return False
       }
       else do {
         after \<leftarrow> gets (\<lambda>k. object_revision (reg k) key);
         event_record_kind ''config'' key ''set'' EVENT_OK (decision_event policy) (reason policy) ''state'';
         kprintf (''%s=%s revision %d->%d'' @ newline) [FStr key, FStr v, int_arg before, int_arg after];
         return True
       }
     }
   }"

definition set_config :: "string \<Rightarrow> bool op" where
  "set_config argument =
     (case split_command argument of
        (key, None) \<Rightarrow> do { kprintf (''Usage: set <key> <value>'' @ newline) []; return False }
      | (key, Some v) \<Rightarrow> set_config_to key v)"

definition show_policy :: "bool op" where
  "show_policy = do {
     policy \<leftarrow> policy_check ''shell'' ''policy/base.policy'' ''policy:show'';
     if \<not> allowed policy then do { print_denied policy; return False }
     else do {
       event_record_kind ''shell'' ''policy/base.policy'' ''policy_show'' EVENT_OK (decision_event policy)
         (reason policy) ''query'';
       policy_show;
       return True
     }
   }"

definition change_policy :: "bool \<Rightarrow> string \<Rightarrow> string \<Rightarrow> string \<Rightarrow> bool op" where
  "change_policy allow subject operation object = do {
     policy \<leftarrow> policy_check ''shell'' ''policy/base.policy'' ''policy:change'';
     if \<not> allowed policy then do { print_denied policy; return False }
     else do {
       previous_event \<leftarrow> event_current;
       set_current (decision_event policy);
       changed \<leftarrow> policy_change_rule allow subject operation object;
       set_current previous_event;
       return changed
     }
   }"

text \<open>The three words after \<^verbatim>\<open>allow\<close> or \<^verbatim>\<open>deny\<close>; the last one keeps its spaces.\<close>

definition rule_words :: "string option \<Rightarrow> (string \<times> string \<times> string) option" where
  "rule_words rest =
     (case rest of None \<Rightarrow> None
      | Some rest \<Rightarrow>
          (case split_command rest of
             (subject, None) \<Rightarrow> None
           | (subject, Some rest) \<Rightarrow>
               (case split_command rest of
                  (operation, None) \<Rightarrow> None
                | (operation, Some object) \<Rightarrow> Some (subject, operation, object))))"

definition run_policy_command :: "string option \<Rightarrow> bool op" where
  "run_policy_command argument =
     (case argument of
        None \<Rightarrow> do {
          kprintf (''Usage: policy show | policy allow <subject> <operation> <object> | policy deny <subject> <operation> <object>'' @ newline) [];
          return False
        }
      | Some argument \<Rightarrow>
          (case split_command argument of (word, rest) \<Rightarrow>
             if strcmp word ''show'' = 0 then show_policy
             else if strcmp word ''allow'' \<noteq> 0 \<and> strcmp word ''deny'' \<noteq> 0 then do {
               kprintf (''Unknown policy command: %s'' @ newline) [FStr word];
               return False
             }
             else
               (case rule_words rest of
                  None \<Rightarrow> do {
                    kprintf (''Usage: policy %s <subject> <operation> <object>'' @ newline) [FStr word];
                    return False
                  }
                | Some (subject, operation, object) \<Rightarrow>
                    change_policy (strcmp word ''allow'' = 0) subject operation object)))"

definition print_file :: "string \<Rightarrow> unit op" where
  "print_file file_path = do {
     policy \<leftarrow> policy_check ''shell'' file_path ''filesystem:read'';
     if \<not> allowed policy then print_denied policy
     else do {
       command_event \<leftarrow> event_current;
       set_current (decision_event policy);
       found \<leftarrow> ramfs_lookup file_path;
       set_current command_event;
       case found of
         None \<Rightarrow> kprintf (''File not found: %s'' @ newline) [FStr file_path]
       | Some file \<Rightarrow> do {
           event_record_kind ''ramfs'' file_path ''read'' EVENT_OK (decision_event policy) (reason policy) ''state'';
           for_each (file_data file) (\<lambda>b. on_con (print_char (char_of (unat b))));
           cwhen (file_data file = [] \<or> last (file_data file) \<noteq> 0x0A) (on_con (print_char (CHR 0x0A)))
         }
     }
   }"

definition execute_module_line :: "string \<Rightarrow> unit op" where
  "execute_module_line line =
     (if line = [] \<or> hd line = CHR ''#'' then return ()
      else if starts_with line ''print '' then kprintf (''%s'' @ newline) [FStr (drop 6 line)]
      else if strcmp line ''meminfo'' = 0 then show_meminfo
      else if strcmp line ''time'' = 0 then show_time
      else if strcmp line ''clear'' = 0 then on_con vga_clear_window_content
      else if strcmp line ''window'' = 0 then on_con vga_draw_window
      else kprintf (''Module directive not supported: %s'' @ newline) [FStr line])"

text \<open>The lines of the buffer up to its terminator.\<close>

function module_lines :: "string \<Rightarrow> string list" where
  "module_lines text =
     (if text = [] then [] else takeWhile (\<lambda>c. c \<noteq> CHR 0x0A) text # module_lines (next_line text))"
  by pat_completeness auto
termination
  by (relation "measure length") (simp_all add: length_next_line)

declare module_lines.simps [simp del]

definition buffer_text :: "u8 list \<Rightarrow> string" where
  "buffer_text bytes = map (\<lambda>b. char_of (unat b)) (takeWhile (\<lambda>b. b \<noteq> 0) bytes)"

definition run_module :: "string \<Rightarrow> unit op" where
  "run_module file_path = do {
     policy \<leftarrow> policy_check ''shell'' file_path ''module:load'';
     if \<not> allowed policy then print_denied policy
     else do {
       command_event \<leftarrow> event_current;
       set_current (decision_event policy);
       found \<leftarrow> ramfs_lookup file_path;
       set_current command_event;
       case found of
         None \<Rightarrow> kprintf (''Module not found: %s'' @ newline) [FStr file_path]
       | Some file \<Rightarrow>
           if file_type file \<noteq> RAMFS_FILE_MODULE then do {
             event_record_kind ''ramfs'' file_path ''type_check'' EVENT_DENIED (decision_event policy)
               ''deny:not-module'' ''policy'';
             kprintf (''Not a module: %s'' @ newline) [FStr file_path]
           }
           else if file_size file \<ge> 512 then do {
             event_record_kind ''ramfs'' file_path ''size_check'' EVENT_DENIED (decision_event policy)
               ''deny:too-large'' ''policy'';
             kprintf (''Module too large: %s'' @ newline) [FStr file_path]
           }
           else do {
             event_record_kind ''ramfs'' file_path ''read'' EVENT_OK (decision_event policy) (reason policy) ''state'';
             kprintf (''Loading %s'' @ newline) [FStr file_path];
             for_each (module_lines (buffer_text (ramfs_read (Some file) 0 True 511))) execute_module_line
           }
     }
   }"

end
