(* ===== verification/Commands.thy ===== *)
theory Commands
  imports Shell
begin

text \<open>
  The commands of the shell loop in \<^verbatim>\<open>kernel_main\<close> (\<^verbatim>\<open>kernel/main.c\<close>) and the
  transaction around them. A command returns whether its transaction is to be committed; None when
  the demonstration program never gave the processor back. What the programs of ring 3 do while
  a command runs is an argument.
\<close>

section \<open>One command\<close>

definition clear_command :: "bool op" where
  "clear_command = do {
     policy \<leftarrow> policy_check ''shell'' ''window'' ''ui:clear'';
     if allowed policy then do {
       on_con vga_clear_window_content;
       event_record_kind ''shell'' ''window'' ''clear'' EVENT_OK (decision_event policy) (reason policy) ''state'';
       return True
     }
     else do { print_denied policy; return False }
   }"

definition window_command :: "bool op" where
  "window_command = do {
     policy \<leftarrow> policy_check ''shell'' ''window'' ''ui:redraw'';
     if allowed policy then do {
       on_con vga_draw_window;
       event_record_kind ''shell'' ''window'' ''redraw'' EVENT_OK (decision_event policy) (reason policy) ''state'';
       kprintf (''Window restored. All shell functionality is available.'' @ newline) [];
       return True
     }
     else do { print_denied policy; return False }
   }"

text \<open>What \<^verbatim>\<open>inspect\<close>, \<^verbatim>\<open>expand\<close>, \<^verbatim>\<open>why\<close> and \<^verbatim>\<open>history\<close> share: the check, the
  event, the report.\<close>

definition truth_command :: "string \<Rightarrow> string \<Rightarrow> unit op \<Rightarrow> bool op" where
  "truth_command operation target report = do {
     policy \<leftarrow> policy_check ''shell'' target operation;
     if allowed policy then do {
       event_record_kind ''shell'' target operation EVENT_OK (decision_event policy) (reason policy) ''query'';
       report;
       return True
     }
     else do { print_denied policy; return False }
   }"

definition why_report :: "string \<Rightarrow> unit op" where
  "why_report argument =
     (if starts_with argument ''tx '' then event_print_transaction (parse_sequence (drop 3 argument))
      else if parse_sequence argument = 0 then object_history argument
      else event_print_chain (parse_sequence argument))"

definition show_help :: "unit op" where
  "show_help = do {
     kprintf (''Commands: help, clear, window, meminfo, time, ls, cat <path>, run <module>, get <key>, set <key> <value>, policy <op>, userdemo, events'' @ newline) [];
     kprintf (''Truth: inspect <object>, expand <object>, why <event>, history <object>'' @ newline) []
   }"

definition unknown_command :: "u64 \<Rightarrow> string \<Rightarrow> bool op" where
  "unknown_command command_event word = do {
     event_record ''shell'' word ''command'' EVENT_DENIED command_event ''deny:unknown-command'';
     kprintf (''Unknown command: %s'' @ newline) [FStr word];
     return False
   }"

text \<open>A command whose failure does not abort its transaction.\<close>

definition succeed :: "unit op \<Rightarrow> bool op" where
  "succeed m = do { m; return True }"

text \<open>The commands that need an argument.\<close>

definition run_argument_command :: "u64 \<Rightarrow> string \<Rightarrow> string \<Rightarrow> string \<Rightarrow> bool op" where
  "run_argument_command command_event target word argument =
     (if strcmp word ''cat'' = 0 then succeed (print_file argument)
      else if strcmp word ''run'' = 0 then succeed (run_module argument)
      else if strcmp word ''get'' = 0 then show_config argument
      else if strcmp word ''set'' = 0 then set_config argument
      else if strcmp word ''inspect'' = 0 then truth_command ''inspect'' argument (object_inspect argument)
      else if strcmp word ''expand'' = 0 then truth_command ''expand'' argument (object_expand argument)
      else if strcmp word ''why'' = 0
        then truth_command ''why'' (if starts_with argument ''tx '' then target else argument) (why_report argument)
      else if strcmp word ''history'' = 0 then truth_command ''history'' argument (object_history argument)
      else unknown_command command_event word)"

definition show_events :: "unit op" where
  "show_events = do {
     n \<leftarrow> gets (\<lambda>k. event_count (jnl k));
     kprintf (''Event buffer: %d retained'' @ newline) [FInt (word_of_nat n)]
   }"

definition run_command ::
  "u64 \<Rightarrow> string \<Rightarrow> string \<Rightarrow> string option \<Rightarrow> user_action list \<Rightarrow> bool option op" where
  "run_command command_event target word argument program =
     (if strcmp word ''userdemo'' = 0 then user_run_demo program
      else do {
        ok \<leftarrow> (if strcmp word ''help'' = 0 then succeed show_help
               else if strcmp word ''clear'' = 0 then clear_command
               else if strcmp word ''window'' = 0 then window_command
               else if strcmp word ''meminfo'' = 0 then succeed show_meminfo
               else if strcmp word ''time'' = 0 then succeed show_time
               else if strcmp word ''ls'' = 0 then succeed list_files
               else if strcmp word ''policy'' = 0 then run_policy_command argument
               else if strcmp word ''events'' = 0 then succeed show_events
               else (case argument of
                       None \<Rightarrow> unknown_command command_event word
                     | Some argument \<Rightarrow> run_argument_command command_event target word argument));
        return (Some ok)
      })"

section \<open>The transaction around a command\<close>

definition command_target :: "string \<Rightarrow> string option \<Rightarrow> string" where
  "command_target word argument =
     (if strcmp word ''policy'' = 0 then copy_text 48 (Some ''policy/base.policy'')
      else if strcmp word ''userdemo'' = 0 then copy_text 48 (Some ''scheduler'')
      else (case argument of
              None \<Rightarrow> copy_text 48 (Some word)
            | Some argument \<Rightarrow>
                if strcmp word ''set'' = 0 then copy_first_token 48 argument
                else if strcmp word ''why'' = 0 \<and> starts_with argument ''tx ''
                then build_transaction_target 48 (parse_sequence (drop 3 argument))
                else copy_text 48 (Some argument)))"

text \<open>From the entered line to the next prompt; False when control never comes back to the loop.\<close>

definition finish_command :: "u64 \<Rightarrow> u64 \<Rightarrow> bool \<Rightarrow> unit op" where
  "finish_command boot_event transaction ok = do {
     cwhen (transaction \<noteq> 0)
       (if ok then do { transaction_commit transaction; return () }
        else do { transaction_abort transaction ''deny:transaction''; return () });
     set_transaction 0;
     set_current boot_event
   }"

definition shell_command :: "u64 \<Rightarrow> string \<Rightarrow> user_action list \<Rightarrow> bool op" where
  "shell_command boot_event line program =
     (case split_command line of (word, argument) \<Rightarrow> do {
        let target = command_target word argument;
        current \<leftarrow> event_current;
        command_event \<leftarrow> event_record_kind ''shell'' target ''command'' EVENT_OK current word ''command'';
        transaction \<leftarrow> transaction_begin ''shell'' target command_event;
        set_current (if transaction = 0 then command_event else transaction);
        set_transaction transaction;
        outcome \<leftarrow> run_command command_event target word argument program;
        case outcome of
          None \<Rightarrow> return False
        | Some ok \<Rightarrow> do {
            finish_command boot_event transaction (transaction \<noteq> 0 \<and> ok);
            return True
          }
      })"

section \<open>Frames, events, registrations\<close>

lemma frame_con [frame_intro]:
  "frame rules_and_config (on_con c)" "frame rules_and_config (kprintf format args)"
  by (rule frame_rules, rule frame_intro)+

lemma frame_reports_rules:
  assumes "frame core m"
  shows "frame rules_and_config m"
  using assms by (intro frame_rules frame_settings)

lemma frame_shell [frame_intro]:
  "frame core (print_denied po)" "frame core show_meminfo" "frame core show_time" "frame core list_files"
  "frame core (show_config key)" "frame core show_policy" "frame core (print_file q)"
  "frame core (execute_module_line l)" "frame core (run_module q)"
  "frame core clear_command" "frame core window_command" "frame core show_help" "frame core show_events"
  "frame core (unknown_command e w)" "frame core (why_report q)"
  unfolding print_denied_def show_meminfo_def show_time_def list_files_def show_config_def show_policy_def
    print_file_def execute_module_line_def run_module_def clear_command_def window_command_def show_help_def
    show_events_def unknown_command_def why_report_def
  by (intro frame_intro)+

lemma frame_truth [frame_intro]: "frame core m \<Longrightarrow> frame core (truth_command a q m)"
  unfolding truth_command_def by (intro frame_intro)

lemma frame_succeed [frame_intro]: "frame p m \<Longrightarrow> frame p (succeed m)"
  unfolding succeed_def by (intro frame_intro)

lemma frame_finish [frame_intro]: "frame core (finish_command b n ok)"
  unfolding finish_command_def by (intro frame_intro)

lemma traces_print_denied [trace_intro]: "traces E (print_denied po) (\<lambda>_. {})"
  unfolding print_denied_def by (rule trace_intro)

lemma traces_shell [trace_intro]:
  "traces E show_meminfo (\<lambda>_. {})" "traces E show_time (\<lambda>_. {})" "traces E list_files (\<lambda>_. {})"
  "traces E (show_config key) (\<lambda>_. {})" "traces E (set_config_to key v) (\<lambda>_. {})"
  "traces E show_policy (\<lambda>_. {})" "traces E (change_policy al s op ob) (\<lambda>_. {})"
  "traces E (print_file q) (\<lambda>_. {})" "traces E clear_command (\<lambda>_. {})" "traces E window_command (\<lambda>_. {})"
  "traces E show_help (\<lambda>_. {})" "traces E show_events (\<lambda>_. {})" "traces E (why_report q) (\<lambda>_. {})"
  unfolding show_meminfo_def show_time_def list_files_def show_config_def set_config_to_def show_policy_def
    change_policy_def print_file_def clear_command_def window_command_def show_help_def show_events_def
    why_report_def
  by (rule trace_intro | simp; fail)+

lemma traces_arguments [trace_intro]:
  "traces E (set_config q) (\<lambda>_. {})" "traces E (run_policy_command q') (\<lambda>_. {})"
  unfolding set_config_def run_policy_command_def split_beta
  by (rule trace_intro | simp; fail)+

lemma traces_unknown [trace_intro]: "e \<in> E \<Longrightarrow> traces E (unknown_command e w) (\<lambda>_. {})"
  unfolding unknown_command_def by (rule trace_intro | simp; fail)+

lemma traces_module [trace_intro]:
  "traces E (execute_module_line l) (\<lambda>_. {})" "traces E (run_module q) (\<lambda>_. {})"
  unfolding execute_module_line_def run_module_def by (rule trace_intro | simp; fail)+

lemma traces_truth [trace_intro]:
  "(\<And>D. traces D m (\<lambda>_. {})) \<Longrightarrow> traces E (truth_command a q m) (\<lambda>_. {})"
  unfolding truth_command_def by (rule trace_intro | assumption | simp; fail)+

lemma traces_succeed [trace_intro]: "traces E m (\<lambda>_. {}) \<Longrightarrow> traces E (succeed m) (\<lambda>_. {})"
  unfolding succeed_def by (rule trace_intro | assumption)+

lemma traces_run_argument [trace_intro]:
  "e \<in> E \<Longrightarrow> traces E (run_argument_command e t w a) (\<lambda>_. {})"
  unfolding run_argument_command_def by (rule trace_intro | simp; fail)+

lemma traces_run_command [trace_intro]:
  "e \<in> E \<Longrightarrow> traces E (run_command e t w a program) (\<lambda>_. {})"
  unfolding run_command_def by (rule trace_intro | simp; fail)+

lemma traces_finish [trace_intro]: "b \<in> E \<Longrightarrow> traces E (finish_command b n ok) (\<lambda>_. {})"
  unfolding finish_command_def by (rule trace_intro | simp; fail)+

lemma traces_shell_command [trace_intro]: "b \<in> E \<Longrightarrow> traces E (shell_command b line program) (\<lambda>_. {})"
  unfolding shell_command_def split_beta Let_def by (rule trace_intro | simp; fail)+

lemma enrols_shell_parts [enrol_intro]:
  "enrols E (print_denied po) (\<lambda>_. {})" "enrols E show_meminfo (\<lambda>_. {})" "enrols E show_time (\<lambda>_. {})"
  unfolding print_denied_def show_meminfo_def show_time_def by (rule enrol_intro | simp; fail)+

lemma enrols_shell [enrol_intro]:
  "enrols E list_files (\<lambda>_. {})" "enrols E (show_config key) (\<lambda>_. {})" "enrols E (set_config_to key v) (\<lambda>_. {})"
  "enrols E show_policy (\<lambda>_. {})" "enrols E (change_policy al s op ob) (\<lambda>_. {})"
  "enrols E (print_file q) (\<lambda>_. {})" "enrols E clear_command (\<lambda>_. {})" "enrols E window_command (\<lambda>_. {})"
  "enrols E show_help (\<lambda>_. {})" "enrols E show_events (\<lambda>_. {})" "enrols E (why_report q) (\<lambda>_. {})"
  "enrols E (unknown_command e w) (\<lambda>_. {})"
  unfolding list_files_def show_config_def set_config_to_def show_policy_def
    change_policy_def print_file_def clear_command_def window_command_def show_help_def show_events_def
    why_report_def unknown_command_def
  by (rule enrol_intro | simp; fail)+

lemma enrols_arguments [enrol_intro]:
  "enrols E (set_config q) (\<lambda>_. {})" "enrols E (run_policy_command q') (\<lambda>_. {})"
  unfolding set_config_def run_policy_command_def split_beta
  by (rule enrol_intro)+

lemma enrols_module [enrol_intro]:
  "enrols E (execute_module_line l) (\<lambda>_. {})" "enrols E (run_module q) (\<lambda>_. {})"
  unfolding execute_module_line_def run_module_def by (rule enrol_intro | simp; fail)+

lemma enrols_truth [enrol_intro]:
  "(\<And>D. enrols D m (\<lambda>_. {})) \<Longrightarrow> enrols E (truth_command a q m) (\<lambda>_. {})"
  unfolding truth_command_def by (rule enrol_intro | assumption)+

lemma enrols_succeed [enrol_intro]: "enrols E m (\<lambda>_. {}) \<Longrightarrow> enrols E (succeed m) (\<lambda>_. {})"
  unfolding succeed_def by (rule enrol_intro | assumption)+

lemma enrols_run_command [enrol_intro]:
  "enrols E (run_argument_command e t w a') (\<lambda>_. {})" "enrols E (run_command e t w a program) (\<lambda>_. {})"
  unfolding run_argument_command_def run_command_def by (rule enrol_intro)+

lemma enrols_shell_command [enrol_intro]: "enrols E (shell_command b line program) (\<lambda>_. {})"
  unfolding shell_command_def finish_command_def split_beta Let_def by (rule enrol_intro | simp; fail)+

section \<open>Who can change the policy and the configuration\<close>

lemma frame_other_argument_commands:
  assumes "strcmp w ''set'' \<noteq> 0"
  shows "frame core (run_argument_command e t w q)"
  using assms unfolding run_argument_command_def if_not_P [OF assms] by (intro frame_intro)

lemma frame_other_commands:
  assumes "strcmp w ''set'' \<noteq> 0" and "strcmp w ''policy'' \<noteq> 0"
  shows "frame rules_and_config (run_command e t w a program)"
  unfolding run_command_def if_not_P [OF assms(2)]
  by (intro frame_if frame_demo frame_bind frame_pure frame_option;
      rule frame_reports_rules; intro frame_intro frame_other_argument_commands assms(1))

text \<open>What a request reads is the policy in force.\<close>

lemma permitted_cong: "rules_and_config k' = rules_and_config k \<Longrightarrow> permitted k' q = permitted k q"
  by (simp add: permitted_def rules_and_config_def)

lemma rules_con [simp]: "rules_and_config (k\<lparr>con := c\<rparr>) = rules_and_config k"
  by (simp add: rules_and_config_def)

lemma changes_rules: "rules_and_config k' \<noteq> rules_and_config k \<Longrightarrow> core k' \<noteq> core k"
  by (auto simp: rules_and_config_def core_def)

definition config_request :: "kernel \<Rightarrow> string option \<Rightarrow> bool" where
  "config_request k argument \<longleftrightarrow>
     (\<exists>q key v. argument = Some q \<and> split_command q = (key, Some v) \<and> permitted k (''shell'', key, ''config:set''))"

definition policy_request :: "kernel \<Rightarrow> string option \<Rightarrow> bool" where
  "policy_request k argument \<longleftrightarrow>
     (\<exists>q w rest triple. argument = Some q \<and> split_command q = (w, rest) \<and>
        (strcmp w ''allow'' = 0 \<or> strcmp w ''deny'' = 0) \<and> rule_words rest = Some triple \<and>
        permitted k (''shell'', ''policy/base.policy'', ''policy:change''))"

text \<open>The form both commands have: what changes the policy or the configuration after the check was
  permitted.\<close>

lemma checked_change:
  assumes "rules_and_config (exec (policy_check actor target operation \<bind>
      (\<lambda>policy. if \<not> allowed policy then do { print_denied policy; return x } else f policy)) k) \<noteq> rules_and_config k"
  shows "permitted k (actor, target, operation)"
proof (rule policy_guard.mediated)
  show "core (exec (check_request (actor, target, operation) \<bind>
      (\<lambda>policy. if \<not> allowed policy then do { print_denied policy; return x } else f policy)) k) \<noteq> core k"
    using changes_rules [OF assms] by (simp add: check_request_def)
qed (simp, intro frame_intro)

lemma set_config_mediated:
  assumes "rules_and_config (exec (set_config q) k) \<noteq> rules_and_config k"
  shows "config_request k (Some q)"
proof -
  obtain key v where q: "split_command q = (key, Some v)"
    using assms by (cases "split_command q"; cases "snd (split_command q)") (auto simp: set_config_def)
  have "rules_and_config (exec (set_config_to key v) k) \<noteq> rules_and_config k"
    using assms by (simp add: set_config_def q)
  then have "permitted k (''shell'', key, ''config:set'')"
    unfolding set_config_to_def by (rule checked_change)
  with q show ?thesis by (simp add: config_request_def)
qed

lemma change_policy_mediated:
  assumes "rules_and_config (exec (change_policy al s op ob) k) \<noteq> rules_and_config k"
  shows "permitted k (''shell'', ''policy/base.policy'', ''policy:change'')"
  using assms unfolding change_policy_def by (rule checked_change)

lemma policy_command_mediated:
  assumes change: "rules_and_config (exec (run_policy_command a) k) \<noteq> rules_and_config k"
  shows "policy_request k a"
proof -
  note quiet = frameD [OF frame_reports_rules [OF frame_shell(6)]]
  obtain q where a: "a = Some q"
    using change by (cases a) (simp_all add: run_policy_command_def quiet)
  obtain w rest where q: "split_command q = (w, rest)" by (cases "split_command q")
  have w: "strcmp w ''allow'' = 0 \<or> strcmp w ''deny'' = 0"
    using change by (rule contrapos_np) (simp add: run_policy_command_def a q quiet)
  have not_show: "strcmp w ''show'' \<noteq> 0"
    using change by (rule contrapos_nn) (simp add: run_policy_command_def a q quiet)
  obtain s op ob where triple: "rule_words rest = Some (s, op, ob)"
    using change w not_show by (cases "rule_words rest") (auto simp: run_policy_command_def a q quiet)
  have "rules_and_config (exec (change_policy (strcmp w ''allow'' = 0) s op ob) k) \<noteq> rules_and_config k"
    using change w not_show by (auto simp: run_policy_command_def a q triple)
  then have "permitted k (''shell'', ''policy/base.policy'', ''policy:change'')"
    by (rule change_policy_mediated)
  with a q w triple show ?thesis by (simp add: policy_request_def)
qed

lemma run_command_mediated:
  assumes "\<not> (strcmp w ''set'' = 0 \<and> config_request k a)" and "\<not> (strcmp w ''policy'' = 0 \<and> policy_request k a)"
  shows "rules_and_config (exec (run_command e t w a program) k) = rules_and_config k"
proof -
  define same where "same m \<longleftrightarrow> rules_and_config (exec m k) = rules_and_config k" for m :: "bool op"
  have branch: "same (if b then m else m')" if "b \<Longrightarrow> same m" "\<not> b \<Longrightarrow> same m'" for b m m'
    using that by simp
  have quiet: "same m" if "frame core m" for m
    using frameD [OF frame_reports_rules [OF that]] by (simp add: same_def)
  have policy: "same (run_policy_command a)" if "strcmp w ''policy'' = 0"
    using assms(2) that policy_command_mediated by (auto simp: same_def)
  have set: "same (set_config q)" if "strcmp w ''set'' = 0" "a = Some q" for q
    using assms(1) that set_config_mediated by (auto simp: same_def)
  have argument: "same (run_argument_command e t w q)" if "a = Some q" for q
    unfolding run_argument_command_def
    by (intro branch; (rule set, assumption, rule that)?; rule quiet, intro frame_intro)
  have rest: "same (case a of None \<Rightarrow> unknown_command e w | Some q \<Rightarrow> run_argument_command e t w q)"
    using argument quiet [OF frame_shell(14)] by (simp split: option.split)
  have "same (if strcmp w ''help'' = 0 then succeed show_help
      else if strcmp w ''clear'' = 0 then clear_command
      else if strcmp w ''window'' = 0 then window_command
      else if strcmp w ''meminfo'' = 0 then succeed show_meminfo
      else if strcmp w ''time'' = 0 then succeed show_time
      else if strcmp w ''ls'' = 0 then succeed list_files
      else if strcmp w ''policy'' = 0 then run_policy_command a
      else if strcmp w ''events'' = 0 then succeed show_events
      else (case a of None \<Rightarrow> unknown_command e w | Some q \<Rightarrow> run_argument_command e t w q))"
    by (intro branch; (rule rest)?; (rule policy, assumption)?; rule quiet, intro frame_intro)
  then show ?thesis
    using frameD [OF frame_demo] by (simp add: run_command_def same_def)
qed

lemma frame_rules_parts:
  "frame rules_and_config (event_record_kind a t op r p po kd)" "frame rules_and_config (transaction_begin a t p)"
  "frame rules_and_config (set_current n0)" "frame rules_and_config (set_transaction n0)"
  "frame rules_and_config event_current" "frame rules_and_config (finish_command b n0 ok)"
  by (rule frame_reports_rules, rule frame_intro)+

lemma shell_command_mediated:
  assumes "split_command line = (word, argument)"
    and "rules_and_config (exec (shell_command b line program) k) \<noteq> rules_and_config k"
  shows "strcmp word ''set'' = 0 \<and> config_request k argument \<or> strcmp word ''policy'' = 0 \<and> policy_request k argument"
proof (rule ccontr)
  assume no: "\<not> ?thesis"
  have requests: "config_request k' argument = config_request k argument" "policy_request k' argument = policy_request k argument"
    if "rules_and_config k' = rules_and_config k" for k'
    using permitted_cong [OF that] by (simp_all add: config_request_def policy_request_def)
  have run: "rules_and_config (exec (run_command e t word argument program) k') = rules_and_config k"
    if "rules_and_config k' = rules_and_config k" for k' e t
    using run_command_mediated [of word k' argument e t program] no requests [OF that] that by auto
  have "rules_and_config (exec (shell_command b line program) k) = rules_and_config k"
    by (simp add: shell_command_def assms(1) Let_def frameD [OF frame_rules_parts(6)] run
        frameD [OF frame_rules_parts(1)] frameD [OF frame_rules_parts(2)] frameD [OF frame_rules_parts(3)]
        frameD [OF frame_rules_parts(4)] frameD [OF frame_rules_parts(5)] split: option.split)
  then show False using assms(2) by contradiction
qed

section \<open>A command's transaction\<close>

lemma command_event_effect:
  fixes k :: kernel and a t op po kd :: string and r :: event_result
  assumes "causal k" and "unat (next_sequence (jnl k)) + 1 < 2 ^ 64"
  defines "k1 \<equiv> exec (event_record_kind a t op r (current_sequence (jnl k)) po kd) k"
  shows "causal k1" and "next_sequence (jnl k1) = next_sequence (jnl k) + 1"
    and "length (transactions (jnl k1)) = length (transactions (jnl k))"
proof -
  have "current_sequence (jnl k) < next_sequence (jnl k)"
    using assms(1) by (simp add: causal_def causal_journal_def)
  then show "causal k1"
    unfolding causal_def k1_def exec_record
    using causal_record [OF causal_upto [of "jnl k"]] assms(1,2)
    by (simp add: causal_def make_event_def)
  show "next_sequence (jnl k1) = next_sequence (jnl k) + 1" by (simp add: k1_def exec_record)
  have "tx_ledger (jnl k1) = tx_ledger (jnl k)" by (simp add: k1_def exec_record)
  then show "length (transactions (jnl k1)) = length (transactions (jnl k))"
    using length_map [of tx_identity] by (metis tx_ledger_def)
qed

lemma finish_closes:
  assumes "n0 \<noteq> 0"
  obtains st op r po where "st \<in> {''committed'', ''aborted''}" "take 15 st = st"
    "\<And>k. exec (finish_command b n0 ok) k =
      exec (do { transaction_close n0 st op r po; set_transaction 0; set_current b }) k"
proof (cases ok)
  case True
  show thesis
    by (rule that [of "''committed''" "''commit''" EVENT_OK "''allow:transaction''"])
      (use True assms in \<open>simp_all add: finish_command_def cwhen_def transaction_commit_def\<close>)
next
  case False
  show thesis
    by (rule that [of "''aborted''" "''abort''" EVENT_DENIED "''deny:transaction''"])
      (use False assms in \<open>simp_all add: finish_command_def cwhen_def transaction_abort_def\<close>)
qed

text \<open>The stages of a command that returns: after its event, after the begin, after its body.\<close>

lemma shell_command_stages:
  assumes "split_command line = (word, argument)" and "ret (shell_command b line program) k"
    and "length (transactions (jnl k)) < 32" and "causal k" and "unat (next_sequence (jnl k)) + 2 < 2 ^ 64"
  defines "n \<equiv> next_sequence (jnl k)" and "target \<equiv> command_target word argument"
  defines "k1 \<equiv> exec (event_record_kind ''shell'' target ''command'' EVENT_OK (current_sequence (jnl k)) word ''command'') k"
  obtains k3 ok where "exec (shell_command b line program) k = exec (finish_command b (n + 1) ok) k3"
    and "extends (tx_ledger (jnl (exec (transaction_begin ''shell'' target n) k1))) (tx_ledger (jnl k3))"
proof -
  have effect: "next_sequence (jnl k1) = n + 1" "length (transactions (jnl k1)) < 32"
    using command_event_effect(2,3) [of k] assms(3,4,5) by (simp_all add: k1_def n_def)
  let ?open = "transaction_begin ''shell'' target n" and ?run = "run_command n target word argument program"
  have rets: "ret (event_record_kind ''shell'' target ''command'' EVENT_OK (current_sequence (jnl k)) word ''command'') k = n"
    "ret ?open k1 = n + 1"
    using exec_transaction_begin(2) [OF effect(2)] effect(1) by (simp_all add: exec_record n_def)
  have "unat (n + 1) = unat n + 1" using assms(5) unat_add_nat [of n 1] by (simp add: n_def)
  then have nz: "n + 1 \<noteq> 0" by auto
  define k2 where "k2 = exec (do { set_current (n + 1); set_transaction (n + 1) }) (exec ?open k1)"
  have run: "shell_command b line program = do {
      current \<leftarrow> event_current;
      command_event \<leftarrow> event_record_kind ''shell'' target ''command'' EVENT_OK current word ''command'';
      transaction \<leftarrow> transaction_begin ''shell'' target command_event;
      set_current (if transaction = 0 then command_event else transaction);
      set_transaction transaction;
      outcome \<leftarrow> run_command command_event target word argument program;
      case outcome of None \<Rightarrow> return False
        | Some ok \<Rightarrow> do { finish_command b transaction (transaction \<noteq> 0 \<and> ok); return True } }"
    by (simp add: shell_command_def assms(1) target_def Let_def)
  have "ret (shell_command b line program) k = (case ret ?run k2 of None \<Rightarrow> False | Some ok \<Rightarrow> True)"
    and closes: "ret ?run k2 = Some ok \<Longrightarrow>
      exec (shell_command b line program) k = exec (finish_command b (n + 1) ok) (exec ?run k2)" for ok
    unfolding run using nz by (simp_all add: event_current_def rets k1_def [symmetric] k2_def split: option.split)
  with assms(2) obtain ok where ok: "ret ?run k2 = Some ok" by (auto split: option.splits)
  have "tx_ledger (jnl k2) = tx_ledger (jnl (exec ?open k1))"
    by (simp add: k2_def set_current_def set_transaction_def event_set_current_def event_set_transaction_def)
  moreover have "traces {n} ?run (\<lambda>_. {})" by (rule traces_run_command) simp
  then have "extends (tx_ledger (jnl k2)) (tx_ledger (jnl (exec ?run k2)))"
    unfolding tracked_def later_def by blast
  ultimately show thesis
    using that [OF closes [OF ok]] by simp
qed

section \<open>Setting a key\<close>

text \<open>The stages of \<^verbatim>\<open>set\<close> leave the configuration alone, but for the write.\<close>

lemma cfg_parts:
  "frame cfg (event_record_kind a t op r p po kd)" "frame cfg (transaction_begin a t p)"
  "frame cfg (set_current n0)" "frame cfg (set_transaction n0)"
  "frame cfg (finish_command b n0 ok)" "frame cfg (policy_check a t op)" "frame cfg (print_denied d)"
  by (rule frame_core(2), rule frame_intro)+

lemmas cfg_steps = cfg_parts [THEN frameD]

lemma in_force_parts:
  "frame (\<lambda>k. in_force (pol k)) (event_record_kind a t op r p po kd)"
  "frame (\<lambda>k. in_force (pol k)) (transaction_begin a t p)"
  "frame (\<lambda>k. in_force (pol k)) (set_current n0)" "frame (\<lambda>k. in_force (pol k)) (set_transaction n0)"
  by (rule frame_core(1), rule frame_intro)+

lemmas in_force_steps = in_force_parts [THEN frameD]

definition put_config :: "string \<Rightarrow> string \<Rightarrow> config_entry list \<Rightarrow> config_entry list" where
  "put_config key v es =
     (case find_entry es key of None \<Rightarrow> es | Some i \<Rightarrow> es[i := (es ! i)\<lparr>config_value := take 47 v\<rparr>])"

lemma cfg_put_config: "cfg (exec (config_set key v) k) = put_config key v (cfg k)"
  by (simp add: cfg_config_set put_config_def)

lemma cfg_set_config_to:
  "cfg (exec (set_config_to key v) k) =
     (if permitted k (''shell'', key, ''config:set'') then put_config key v (cfg k) else cfg k)"
  by (simp add: set_config_to_def permitted_def policy_check_decision(1) cfg_steps event_current_def cfg_put_config)

lemma cfg_shell_set:
  assumes "split_command line = (''set'', Some q)" and "split_command q = (key, Some v)"
  shows "cfg (exec (shell_command b line program) k) =
    (if permitted k (''shell'', key, ''config:set'') then put_config key v (cfg k) else cfg k)"
proof -
  have run: "run_command e t ''set'' (Some q) program = do { ok \<leftarrow> set_config_to key v; return (Some ok) }" for e t
    by (simp add: run_command_def run_argument_command_def set_config_def assms(2))
  show ?thesis
    by (simp add: shell_command_def assms(1) Let_def run cfg_set_config_to permitted_def cfg_steps in_force_steps
        event_current_def)
qed

section \<open>Properties\<close>

text \<open>C3: A command line that comes back to the prompt has run in a transaction of its own, appended
  while there is room for one: opened by the event after the command's own event and naming that as
  its parent, with the shell as its actor and the command's target, and by the next prompt it is
  committed or aborted, whatever the command did. At the prompt no transaction is current and the
  current event is again the boot event.\<close>

theorem command_runs_in_transaction:
  assumes "causal k" and "length (transactions (jnl k)) < 32" and "unat (next_sequence (jnl k)) + 2 < 2 ^ 64"
    and "ret (shell_command b line program) k"
  shows "let k' = exec (shell_command b line program) k; n = next_sequence (jnl k);
      target = (case split_command line of (word, argument) \<Rightarrow> command_target word argument);
      t = transactions (jnl k') ! length (transactions (jnl k)) in
    length (transactions (jnl k)) < length (transactions (jnl k')) \<and>
    tx_id t = n + 1 \<and> tx_parent_event t = n \<and> tx_begin_event t = n + 1 \<and> tx_actor t = ''shell'' \<and>
    tx_target t = take 47 target \<and> tx_status t \<in> {''committed'', ''aborted''} \<and>
    current_transaction (jnl k') = 0 \<and> current_sequence (jnl k') = b"
proof -
  obtain word argument where line: "split_command line = (word, argument)" by (cases "split_command line")
  define n where "n = next_sequence (jnl k)"
  define target where "target = command_target word argument"
  define k1 where "k1 = exec (event_record_kind ''shell'' target ''command'' EVENT_OK (current_sequence (jnl k)) word ''command'') k"
  have k1: "causal k1" "next_sequence (jnl k1) = n + 1" "length (transactions (jnl k1)) = length (transactions (jnl k))"
    using command_event_effect [of k] assms(1,3) by (simp_all add: k1_def n_def)
  then have room: "length (transactions (jnl k1)) < 32" using assms(2) by simp
  obtain k3 ok where run: "exec (shell_command b line program) k = exec (finish_command b (n + 1) ok) k3"
    and ext: "extends (tx_ledger (jnl (exec (transaction_begin ''shell'' target n) k1))) (tx_ledger (jnl k3))"
    unfolding n_def target_def k1_def by (rule shell_command_stages [OF line assms(4,2,1,3)])
  note found = found_after_begin [OF k1(1) room ext, unfolded k1(2,3)]
  have "unat (n + 1) = unat n + 1" using assms(3) unat_add_nat [of n 1] by (simp add: n_def)
  then have "n + 1 \<noteq> 0" by auto
  then obtain st op r po where st: "st \<in> {''committed'', ''aborted''}" "take 15 st = st"
    and close: "exec (finish_command b (n + 1) ok) k3 =
      exec (do { transaction_close (n + 1) st op r po; set_transaction 0; set_current b }) k3"
    using finish_closes [of "n + 1" b ok] by metis
  define k4 where "k4 = exec (transaction_close (n + 1) st op r po) k3"
  let ?i = "length (transactions (jnl k))"
  have jnl: "transactions (jnl (exec (shell_command b line program) k)) = transactions (jnl k4)"
    "current_transaction (jnl (exec (shell_command b line program) k)) = 0"
    "current_sequence (jnl (exec (shell_command b line program) k)) = b"
    unfolding run close k4_def
    by (simp_all add: set_current_def set_transaction_def event_set_current_def event_set_transaction_def)
  have "tx_ledger (jnl k4) = tx_ledger (jnl k3)" and status: "tx_status (transactions (jnl k4) ! ?i) = st"
    using close_status [OF found(1)] st(2) by (simp_all add: k4_def)
  then have "length (transactions (jnl k4)) = length (transactions (jnl k3))"
    "tx_identity (transactions (jnl k4) ! ?i) = tx_identity (transactions (jnl k3) ! ?i)"
    using found(2) by (metis length_map tx_ledger_def, metis length_map nth_map tx_ledger_def)
  then show ?thesis
    using found(2,3) status st(1) unfolding Let_def jnl
    by (simp add: line target_def [symmetric] n_def [symmetric] tx_identity_def)
qed

theorem command_runs_in_transaction_witness:
  "let k' = exec (shell_command 0 ''help'' []) first_kernel in
   tx_status (transactions (jnl k') ! 0) \<in> {''committed'', ''aborted''} \<and> tx_id (transactions (jnl k') ! 0) = 2 \<and>
   tx_target (transactions (jnl k') ! 0) = ''help''"
proof -
  have jnl: "next_sequence (jnl first_kernel) = 1" "transactions (jnl first_kernel) = []"
    by (simp_all add: first_kernel_causal event_init_def)
  have word: "split_command ''help'' = (''help'', None)" by simp
  have "ret (shell_command 0 ''help'' []) first_kernel"
    by (simp add: shell_command_def word run_command_def succeed_def Let_def)
  from command_runs_in_transaction [OF first_kernel_causal(1) _ _ this] show ?thesis
    by (simp add: Let_def jnl word command_target_def copy_text_def)
qed



text \<open>C17: The command \<^verbatim>\<open>set <key> <value>\<close> does what it says: if the policy permits the shell to set the
  key and the key exists, reading it afterwards gives the first 47 characters of the value; every other key
  keeps its value, and a refused or unknown key changes nothing.\<close>

theorem set_command_sets:
  assumes "split_command line = (''set'', Some q)" and "split_command q = (key, Some v)"
  shows "config_value_of (exec (shell_command b line program) k) key' =
    (if key' = key \<and> config_value_of k key \<noteq> None \<and>
        fst (policy_decide (in_force (pol k)) ''shell'' key ''config:set'')
     then Some (take 47 v) else config_value_of k key')"
proof (cases "permitted k (''shell'', key, ''config:set'')")
  case True
  then have "config_value_of (exec (shell_command b line program) k) key' = config_value_of (config_write key v k) key'"
    by (simp add: config_value_of_entry config_write_def cfg_put_config cfg_shell_set [OF assms])
  then show ?thesis
    using True config_store.get_put [of key v k key'] by (simp add: permitted_def)
next
  case False
  then show ?thesis by (simp add: config_value_of_entry cfg_shell_set [OF assms] permitted_def)
qed

theorem set_command_sets_witness:
  "config_value_of (exec (shell_command 0 ''set /config/theme dark'' []) first_kernel) ''/config/prompt'' = Some ''>''"
proof -
  have line: "split_command ''set /config/theme dark'' = (''set'', Some ''/config/theme dark'')"
    "split_command ''/config/theme dark'' = (''/config/theme'', Some ''dark'')"
    by (simp_all add: Let_def)
  from set_command_sets [OF line, of 0 "[]" first_kernel "''/config/prompt''"] show ?thesis
    by (simp add: config_value_of_entry entry_value_def find_entry_def first_kernel_def power_on_def initial_entries_def)
qed

end
