(* ===== verification/Boot.thy ===== *)
theory Boot
  imports Commands
begin

text \<open>
  From power-on to the first prompt: \<^verbatim>\<open>init_idt\<close> (\<^verbatim>\<open>kernel/idt.c\<close>) and the part of
  \<^verbatim>\<open>kernel_main\<close> (\<^verbatim>\<open>kernel/main.c\<close>) before its loop. \<^verbatim>\<open>power_on\<close> is the
  state after \<^verbatim>\<open>zero_bss\<close>. What the linker and the loader fix is a parameter.
\<close>

section \<open>Interrupt set-up\<close>

text \<open>The addresses that the linker assigns: of the tables, the interrupt stack and the entry stubs of
  \<^verbatim>\<open>isr.asm\<close>, and the bounds of the kernel image.\<close>

record image =
  im_text_start :: u64
  im_bss_end :: u64
  im_gdt :: u64
  im_tss :: u64
  im_idt :: u64
  im_interrupt_stack :: u64
  im_exception_stubs :: "nat \<Rightarrow> u64"
  im_timer_isr :: u64
  im_keyboard_isr :: u64
  im_syscall_isr :: u64

definition on_dsc :: "(descriptors \<Rightarrow> descriptors) \<Rightarrow> unit op" where
  "on_dsc f = modify (\<lambda>k. k\<lparr>dsc := f (dsc k)\<rparr>)"

abbreviation (input) crlf :: string where "crlf \<equiv> [CHR 0x0D, CHR 0x0A]"

text \<open>The writes to the interrupt controllers and the timer, in order.\<close>

definition device_writes :: "(u16 \<times> u8) list" where
  "device_writes =
     [(0x20, 0x11), (0xA0, 0x11), (0x21, 0x20), (0xA1, 0x28), (0x21, 0x04), (0xA1, 0x02),
      (0x21, 0x01), (0xA1, 0x01), (0x43, 0x36),
      (0x40, ucast ((11931 :: u16) AND 0xFF)), (0x40, ucast (drop_bit 8 (11931 :: u16) AND 0xFF)),
      (0x21, 0xFC), (0xA1, 0xFF)]"

definition init_idt :: "image \<Rightarrow> unit op" where
  "init_idt im = do {
     kserial (''GlassOS: building IDT'' @ crlf);
     on_dsc (init_gdt_tss (im_gdt im) (im_tss im) (im_interrupt_stack im));
     kserial (''GlassOS: GDT/TSS ready'' @ crlf);
     on_dsc (\<lambda>d. d\<lparr>idtp_limit := 16 * 256 - 1, idtp_base := im_idt im\<rparr>);
     on_dsc (set_exception_gates (im_exception_stubs im));
     kserial (''GlassOS: IDT gates ready'' @ crlf);
     for_each device_writes (\<lambda>w. on_con (outb (fst w) (snd w)));
     on_dsc (set_device_gates (im_timer_isr im) (im_keyboard_isr im) (im_syscall_isr im));
     kserial (''GlassOS: PIC ready'' @ crlf);
     kserial (''GlassOS: IDT loaded'' @ crlf)
   }"

section \<open>The kernel's start\<close>

text \<open>Up to the object registry; the result is \<^verbatim>\<open>boot_event\<close>.\<close>

definition enter_kernel :: "u64 op" where
  "enter_kernel = do {
     kserial (''GlassOS: entered kernel_main'' @ crlf);
     on_jnl event_init;
     boot_event \<leftarrow> event_record ''boot'' ''kernel'' ''enter'' EVENT_OK 0 ''allow:boot'';
     set_current boot_event;
     on_reg (object_registry_init boot_event);
     return boot_event
   }"

text \<open>The policy, the screen, the memory. Draining the keyboard controller reads ports only.\<close>

definition start_memory :: "image \<Rightarrow> u32 \<Rightarrow> u64 \<Rightarrow> bool op" where
  "start_memory im multiboot_info_address boot_event = do {
     policy_init boot_event;
     on_con clear_screen;
     on_con vga_enable_cursor;
     kserial (''GlassOS: initializing memory'' @ crlf);
     memory_init (im_text_start im) (im_bss_end im) multiboot_info_address
   }"

definition start_files :: "bool op" where
  "start_files = do {
     object_update_state ''memory'' ''ready'';
     kserial (''GlassOS: memory ready'' @ crlf);
     ramfs_init
   }"

definition start_config :: "bool op" where
  "start_config = do {
     object_update_state ''ramfs'' ''ready'';
     kserial (''GlassOS: RAM filesystem ready'' @ crlf);
     config_init
   }"

definition start_shell :: "image \<Rightarrow> unit op" where
  "start_shell im = do {
     kserial (''GlassOS: config ready'' @ crlf);
     user_init;
     kserial (''GlassOS: user model ready'' @ crlf);
     init_idt im;
     object_update_state ''interrupts'' ''ready'';
     kserial (''GlassOS: IDT ready'' @ crlf);
     event_record ''boot'' ''interrupts'' ''initialize'' EVENT_OK 1 ''allow:kernel'';
     kserial (''GlassOS serial: kernel ready'' @ crlf);
     on_con vga_draw_window;
     object_update_state ''shell'' ''ready'';
     kprintf (''GlassOS Shell v2.0 - RAM filesystem ready'' @ newline) []
   }"

text \<open>The head of the loop.\<close>

definition begin_prompt :: "unit op" where
  "begin_prompt = do {
     modify (\<lambda>k. k\<lparr>kbd := keyboard_begin_line (kbd k)\<rparr>);
     kprintf ''> '' []
   }"

text \<open>\<^verbatim>\<open>ASSERT\<close> with the file name and line of its three uses.\<close>

definition assert_op :: "bool op \<Rightarrow> string \<Rightarrow> u32 \<Rightarrow> bool op \<Rightarrow> bool op" where
  "assert_op condition shown line rest = do {
     ok \<leftarrow> condition;
     if ok then rest
     else do { panic_impl (''assertion failed: '' @ shown) ''kernel/main.c'' line; return False }
   }"

text \<open>The result says whether the first prompt is reached; otherwise the machine has stopped.\<close>

definition start_kernel :: "image \<Rightarrow> u32 \<Rightarrow> u64 \<Rightarrow> bool op" where
  "start_kernel im multiboot_info_address boot_event =
     assert_op (start_memory im multiboot_info_address boot_event)
       ''memory_init((uint32_t)multiboot_info_address)'' 369
     (assert_op start_files ''ramfs_init()'' 372
     (assert_op start_config ''config_init()'' 375
     (do { start_shell im; begin_prompt; return True })))"

definition kernel_main :: "image \<Rightarrow> u32 \<Rightarrow> bool op" where
  "kernel_main im multiboot_info_address = do {
     boot_event \<leftarrow> enter_kernel;
     start_kernel im multiboot_info_address boot_event
   }"

section \<open>Order of events and registrations up to the prompt\<close>

lemma traces_sum [trace_intro]:
  "(\<And>a. x = Inl a \<Longrightarrow> traces E (f a) F) \<Longrightarrow> (\<And>b. x = Inr b \<Longrightarrow> traces E (g b) F) \<Longrightarrow>
   traces E (case x of Inl a \<Rightarrow> f a | Inr b \<Rightarrow> g b) F"
  by (simp split: sum.split)

lemma enrols_sum [enrol_intro]:
  "(\<And>a. x = Inl a \<Longrightarrow> enrols E (f a) F) \<Longrightarrow> (\<And>b. x = Inr b \<Longrightarrow> enrols E (g b) F) \<Longrightarrow>
   enrols E (case x of Inl a \<Rightarrow> f a | Inr b \<Rightarrow> g b) F"
  by (simp split: sum.split)

lemma quiet_boot:
  "frame jnl (on_dsc f)" "frame reg (on_dsc f)" "speaks (on_dsc f)"
  "frame jnl (modify (\<lambda>k. k\<lparr>kbd := b (kbd k)\<rparr>))" "frame reg (modify (\<lambda>k. k\<lparr>kbd := b (kbd k)\<rparr>))"
  "speaks (modify (\<lambda>k. k\<lparr>kbd := b (kbd k)\<rparr>))" "frame reg (modify (\<lambda>k. k\<lparr>halted := True\<rparr>))"
  by (simp_all add: on_dsc_def frame_def speaks_iff growing.evo_refl)

lemma traces_boot_parts [trace_intro]:
  "traces E (on_dsc f) (\<lambda>_. {})" "traces E (modify (\<lambda>k. k\<lparr>kbd := b (kbd k)\<rparr>)) (\<lambda>_. {})"
  by (rule traces_quiet; simp add: quiet_boot)+

lemma enrols_boot_parts [enrol_intro]:
  "enrols E (on_dsc f) (\<lambda>_. {})" "enrols E (modify (\<lambda>k. k\<lparr>kbd := b (kbd k)\<rparr>)) (\<lambda>_. {})"
  "enrols E (modify (\<lambda>k. k\<lparr>halted := True\<rparr>)) (\<lambda>_. {})"
  by (rule enrols_quiet; simp add: quiet_boot)+

lemma traces_memory_init [trace_intro]: "traces E (memory_init ts be info) (\<lambda>_. {})"
  unfolding memory_init_def by (rule trace_intro | simp; fail)+

lemma enrols_memory_init [enrol_intro]: "enrols E (memory_init ts be info) (\<lambda>_. {})"
  unfolding memory_init_def by (rule enrol_intro | simp; fail)+

lemma traces_panic [trace_intro]: "traces E (panic_impl m f l) (\<lambda>_. {})"
  unfolding panic_impl_def by (rule trace_intro)+

lemma enrols_panic [enrol_intro]: "enrols E (panic_impl m f l) (\<lambda>_. {})"
  unfolding panic_impl_def by (rule enrol_intro)+

lemma traces_init_idt [trace_intro]: "traces E (init_idt im) (\<lambda>_. {})"
  unfolding init_idt_def by (rule trace_intro | simp; fail)+

lemma enrols_init_idt [enrol_intro]: "enrols E (init_idt im) (\<lambda>_. {})"
  unfolding init_idt_def by (rule enrol_intro)+

lemma traces_start [trace_intro]:
  "b \<in> E \<Longrightarrow> traces E (start_memory im info b) (\<lambda>_. {})" "traces E start_files (\<lambda>_. {})"
  "traces E start_config (\<lambda>_. {})" "1 \<in> E \<Longrightarrow> traces E (start_shell im) (\<lambda>_. {})" "traces E begin_prompt (\<lambda>_. {})"
  unfolding start_memory_def start_files_def start_config_def start_shell_def begin_prompt_def
  by (rule trace_intro | simp; fail)+

lemma traces_start_kernel [trace_intro]:
  "b \<in> E \<Longrightarrow> 1 \<in> E \<Longrightarrow> traces E (start_kernel im info b) (\<lambda>_. {})"
  unfolding start_kernel_def assert_op_def by (rule trace_intro | simp; fail)+

lemma enrols_start [enrol_intro]:
  "enrols E (start_memory im info b) (\<lambda>_. {})" "enrols E start_files (\<lambda>_. {})"
  "enrols E (start_shell im) (\<lambda>_. {})" "enrols E begin_prompt (\<lambda>_. {})"
  unfolding start_memory_def start_files_def start_shell_def begin_prompt_def
  by (rule enrol_intro | simp; fail)+

section \<open>Order while numbers last\<close>

text \<open>The counter stays behind the characters sent, so an ordered state stays ordered as long as fewer
  than \<open>2 ^ 64 - 1\<close> characters have gone out on the serial line.\<close>

definition ordered :: "kernel \<Rightarrow> bool" where
  "ordered k \<longleftrightarrow> causal k \<and> unat (next_sequence (jnl k)) \<le> Suc (sent k)"

definition line_left :: "kernel \<Rightarrow> bool" where
  "line_left k \<longleftrightarrow> sent k < 2 ^ 64 - 1"

lemma traces_ordered:
  assumes "traces E m f" and "ordered k" and "\<forall>e \<in> E. has_event k e" and "line_left (exec m k)"
  shows "ordered (exec m k)" and "\<forall>e \<in> E \<union> f (ret m k). has_event (exec m k) e"
proof -
  obtain n where n: "later k (exec m k) n"
    and step: "numbers_left k n \<Longrightarrow> causal (exec m k) \<and> (\<forall>e \<in> f (ret m k). has_event (exec m k) e)"
    using assms(1-3) unfolding tracked_def ordered_def by blast
  have "unat (next_sequence (jnl k)) + n < 2 ^ 64"
    using n assms(2,4) by (simp add: later_def ordered_def line_left_def)
  then have "numbers_left k n" and "unat (next_sequence (jnl (exec m k))) = unat (next_sequence (jnl k)) + n"
    using n unat_add_nat by (simp_all add: numbers_left_def later_def)
  with n step show "ordered (exec m k)" "\<forall>e \<in> E \<union> f (ret m k). has_event (exec m k) e"
    using assms(2,3) by (auto simp: ordered_def later_def has_event_def word_less_nat_alt)
qed

lemma traces_cursor:
  assumes "traces E m f" and "cursor_ok (con k)"
  shows "cursor_ok (con (exec m k))"
  using assms unfolding tracked_def later_def by blast

lemma enrols_sound:
  "enrols {} m f \<Longrightarrow> registry_sound k \<Longrightarrow> registry_sound (exec m k)"
  unfolding tracked_def by simp

section \<open>The state when the kernel has been entered\<close>

definition entered :: "(u64 \<Rightarrow> u8) \<Rightarrow> kernel" where
  "entered physical = exec enter_kernel (power_on physical)"

lemma registry_init_ok: "registry_ok (object_registry_init b r)"
proof -
  define good where "good r \<longleftrightarrow> registry_ok r \<and> objects r \<noteq> []" for r
  have step: "good (snd (object_register ty n 1 st ev r))"
    if "good r" "length n < 48" for ty n st ev r
  proof -
    obtain new where "objects (snd (object_register ty n 1 st ev r)) = objects r @ new"
      using object_register_extends by blast
    moreover have "1 \<le> length (objects r)" using that by (cases "objects r") (simp_all add: good_def)
    ultimately show ?thesis using that object_register_ok [of r n 1 ty st ev] by (simp add: good_def)
  qed
  let ?e = "r\<lparr>objects := [], next_id := 1\<rparr>"
  have empty: "registry_ok ?e" by (simp add: registry_ok_def)
  have new: "length (objects ?e) < 128" "object_find ?e ''system'' = None"
    by (simp_all add: object_find_def)
  have first: "fst (object_register ''system'' ''system'' 0 ''booting'' b ?e) = 1"
    and "good (snd (object_register ''system'' ''system'' 0 ''booting'' b ?e))"
    using object_register_new [OF new, of "''system''" 0 "''booting''" b] object_register_ok [OF empty, of "''system''" 0]
    by (simp_all add: good_def)
  then have "good (object_registry_init b r)"
    unfolding object_registry_init_def Let_def split_beta first by (intro step) simp_all
  then show ?thesis by (simp add: good_def)
qed

lemma serial_zero: "serial_text zero_console = []"
  by (simp add: serial_text_def zero_console_def)

lemma entered_facts:
  shows "ret enter_kernel (power_on physical) = 1" and "ordered (entered physical)" and "has_event (entered physical) 1"
    and "registry_sound (entered physical)" and "cursor_ok (con (entered physical))"
    and "cfg (entered physical) = initial_entries" and "mem (entered physical) = zero_memory physical"
    and "kbd (entered physical) = zero_keyboard" and "\<not> halted (entered physical)"
    and "line_left (entered physical)"
proof -
  let ?k = "exec (do { kserial (''GlassOS: entered kernel_main'' @ crlf); on_jnl event_init }) (power_on physical)"
  let ?m = "do { e \<leftarrow> event_record ''boot'' ''kernel'' ''enter'' EVENT_OK 0 ''allow:boot''; set_current e;
    on_reg (object_registry_init e); return e }"
  have run: "enter_kernel = do { kserial (''GlassOS: entered kernel_main'' @ crlf); on_jnl event_init; ?m }"
    by (simp add: enter_kernel_def)
  have eq: "entered physical = exec ?m ?k" "ret enter_kernel (power_on physical) = ret ?m ?k"
    by (simp_all add: entered_def run)
  have j: "jnl (power_on physical) = zero_journal" by (simp add: power_on_def)
  have next1: "next_sequence (jnl ?k) = 1" by (simp add: j event_init_def)
  have one: "ret ?m ?k = 1" using next1 by (simp add: event_record_def exec_record)
  then show "ret enter_kernel (power_on physical) = 1" by (simp only: eq)
  have ordered: "ordered ?k"
    using first_kernel_causal next1 by (simp add: ordered_def causal_def j)
  have traced: "traces {} ?m (\<lambda>e. {})" by (rule traces_record_root | rule trace_intro | simp; fail)+
  have left: "line_left (exec ?m ?k)"
    by (simp add: line_left_def sent_def event_record_def exec_record serial_text_event event_line_def make_event_def
        set_current_def object_id_def object_revision_def object_find_def decimal_def dec_rev.simps result_name_def
        serial_zero j event_init_def zero_journal_def power_on_def)
  then show "line_left (entered physical)" by (simp only: eq)
  show "ordered (entered physical)"
    unfolding eq by (rule traces_ordered(1) [OF traced ordered _ left]) simp
  have "next_sequence (jnl (entered physical)) = 2"
    by (simp add: eq event_record_def exec_record set_current_def event_set_current_def j event_init_def)
  then show "has_event (entered physical) 1" by (simp add: has_event_def)
  show "registry_sound (entered physical)"
    by (simp add: registry_sound_def eq event_record_def exec_record set_current_def registry_init_ok)
  show "cursor_ok (con (entered physical))"
    by (simp add: eq event_record_def exec_record set_current_def power_on_def cursor_ok_zero_console)
  show "cfg (entered physical) = initial_entries" "mem (entered physical) = zero_memory physical"
    "kbd (entered physical) = zero_keyboard" "\<not> halted (entered physical)"
    by (simp_all add: eq event_record_def exec_record set_current_def power_on_def)
qed

section \<open>The registry and the memory at the first prompt\<close>

text \<open>The configuration's keys are registered from a static table with short keys.\<close>

definition short_keys :: "config_entry list \<Rightarrow> bool" where
  "short_keys es \<longleftrightarrow> (\<forall>e \<in> set es. length (config_key e) < 48)"

lemma initial_keys: "short_keys initial_entries"
  by (simp add: short_keys_def initial_entries_def)

definition register_keys :: "config_entry list \<Rightarrow> bool op" where
  "register_keys es = do {
     system \<leftarrow> lookup_id ''system'';
     current \<leftarrow> event_current;
     parent \<leftarrow> register ''directory'' ''/config'' system ''ready'' current;
     for_each es (\<lambda>e. do {
       current \<leftarrow> event_current;
       register ''config_key'' (config_key e) parent (config_value e) current;
       return ()
     });
     current \<leftarrow> event_current;
     event_record ''config'' ''/config'' ''initialize'' EVENT_OK current ''allow:boot-config'';
     return True
   }"

lemma exec_config_init: "exec config_init k = exec (register_keys (cfg k)) k"
proof -
  have "cfg (exec (register ty n p0 st e) k') = cfg k'" for ty n p0 st e k'
    by (simp add: register_def)
  then show ?thesis
    by (simp add: config_init_def register_keys_def lookup_id_def event_current_def)
qed

lemma enrols_register_keys:
  assumes "short_keys es"
  shows "enrols {} (register_keys es) (\<lambda>_. {})"
proof -
  let ?body = "\<lambda>parent e. do {
    current \<leftarrow> event_current;
    register ''config_key'' (config_key e) parent (config_value e) current;
    return () }"
  have loop: "enrols E (for_each es (?body parent)) (\<lambda>_. {})" if "parent \<in> E" for parent E
    using assms
  proof (induction es)
    case Nil
    show ?case by (simp, rule enrol_intro)
  next
    case (Cons e es)
    then have short: "length (config_key e) < 48" and rest: "enrols (E \<union> {}) (for_each es (?body parent)) (\<lambda>_. {})"
      by (simp_all add: short_keys_def)
    have "enrols E (?body parent e) (\<lambda>_. {})"
      by (rule enrol_intro | simp add: that short; fail)+
    from id_ledger.tracked_bind [OF this rest] show ?case by simp
  qed
  show ?thesis
    unfolding register_keys_def by (rule loop | rule enrol_intro | simp; fail)+
qed

lemma config_init_sound:
  "registry_sound k \<Longrightarrow> short_keys (cfg k) \<Longrightarrow> registry_sound (exec config_init k)"
  unfolding exec_config_init by (rule enrols_sound [OF enrols_register_keys])

lemma start_returns: "ret start_files k" "ret start_config k"
proof -
  have "ret (register_files p fs) k" if "\<forall>f \<in> set fs. file_size f \<noteq> 0" for p fs k
    using that by (induction fs arbitrary: k) simp_all
  moreover have "\<forall>f \<in> set files. file_size f \<noteq> 0"
    by (simp add: files_def file_size_def readme_def about_module_def memory_module_def hello_program_def
        text_bytes_def)
  ultimately show "ret start_files k" by (simp add: start_files_def ramfs_init_def)
  show "ret start_config k" by (simp add: start_config_def config_init_def)
qed

text \<open>The start in closed form.\<close>

lemma exec_start_kernel:
  "ret (start_kernel im info b) k = ret (start_memory im info b) k"
  "ret (start_memory im info b) k \<Longrightarrow>
   exec (start_kernel im info b) k = exec (do { start_files; start_config; start_shell im; begin_prompt })
     (exec (start_memory im info b) k)"
  "\<not> ret (start_memory im info b) k \<Longrightarrow>
   exec (start_kernel im info b) k =
     exec (panic_impl (''assertion failed: '' @ ''memory_init((uint32_t)multiboot_info_address)'') ''kernel/main.c'' 369)
       (exec (start_memory im info b) k)"
  by (auto simp: start_kernel_def assert_op_def start_returns)

end
