(* ===== verification/Integrity.thy ===== *)
theory Integrity
  imports Boot
begin

text \<open>
  What no operation of the kernel and no process breaks: the allocator's bitmaps and heap pointers
  (\<open>memory_ok\<close>) and the keyboard's line, cursor and history (\<open>keyboard_ok\<close>). Processes write to
  memory through their page tables; the kernel's own variables are fields of the state here, so this
  does not say that the tables keep a process away from the kernel's pages (\<open>Isolation\<close> does).
\<close>

definition machine_ok :: "kernel \<Rightarrow> bool" where
  "machine_ok k \<longleftrightarrow> memory_ok (mem k) \<and> keyboard_ok (kbd k)"

named_theorems sound_intro "introduction rules: an operation keeps the machine's invariant"

lemmas sound_structure [sound_intro] =
  keeps_pure [where P = machine_ok] keeps_bind [where P = machine_ok] keeps_if [where P = machine_ok]
  keeps_when [where P = machine_ok] keeps_for_each [where P = machine_ok] keeps_option [where P = machine_ok]

lemma keeps_core: "frame core m \<Longrightarrow> keeps machine_ok m"
proof (rule keepsI)
  fix k
  assume "frame core m" "machine_ok k"
  then show "machine_ok (exec m k)"
    using core_eqD(3,5) [OF frameD [of core m k]] by (simp add: machine_ok_def)
qed

lemma keeps_parts [sound_intro]:
  "keeps machine_ok (on_usr u)" "keeps machine_ok (on_con c)" "keeps machine_ok (on_dsc d)"
  "keeps machine_ok timer_handler" "keeps machine_ok (modify (\<lambda>k. k\<lparr>halted := True\<rparr>))"
  by (simp_all add: keeps_def machine_ok_def on_dsc_def timer_handler_def)

section \<open>Memory\<close>

text \<open>The fields the invariant speaks of; page tables and contents are in the others.\<close>

definition allocator_part :: "memory \<Rightarrow> (nat \<Rightarrow> u8) \<times> (nat \<Rightarrow> u8) \<times> u64 \<times> u64 \<times> u64" where
  "allocator_part m = (page_bitmap m, usable_bitmap m, heap_base m, heap_limit m, heap_ptr m)"

lemma memory_ok_part:
  assumes "allocator_part m' = allocator_part m"
  shows "memory_ok m' = memory_ok m"
proof -
  have "heap_pages m' = heap_pages m"
    using assms by (simp add: heap_pages_def allocator_part_def)
  moreover have "bitmap_is_set q m' = bitmap_is_set q m" "usable_bitmap_is_set q m' = usable_bitmap_is_set q m" for q
    using assms by (simp_all add: bitmap_is_set_def usable_bitmap_is_set_def allocator_part_def)
  ultimately show ?thesis
    using assms by (simp add: memory_ok_def frames_ok_def allocator_part_def)
qed

lemma part_writes [simp]:
  "allocator_part (write64 a v m) = allocator_part m" "allocator_part (write8 a b m) = allocator_part m"
  "allocator_part (m\<lparr>cr3 := c\<rparr>) = allocator_part m"
  by (simp_all add: allocator_part_def write64_def write8_def)

lemma part_pages [simp]:
  "allocator_part (zero_page a m) = allocator_part m" "allocator_part (copy_page a b m) = allocator_part m"
  "allocator_part (clear_page a m) = allocator_part m"
  by (simp_all add: zero_page_def copy_page_def clear_page_def fold_frame [of _ allocator_part])

lemma part_store [simp]: "allocator_part (store_bytes a bs m) = allocator_part m"
  by (induction a bs m rule: store_bytes.induct) simp_all

lemma part_tables [simp]:
  "allocator_part (build_tables a b c d e m) = allocator_part m" "allocator_part (grant_user a b c m) = allocator_part m"
  "allocator_part (user_store va v m) = allocator_part m"
  by (simp_all add: build_tables_def grant_user_def user_store_def Let_def split: option.split)

lemma keeps_on_mem: "(\<And>m. allocator_part (f m) = allocator_part m) \<Longrightarrow> keeps machine_ok (on_mem f)"
proof (rule keepsI)
  fix k
  assume same: "\<And>m. allocator_part (f m) = allocator_part m" and "machine_ok k"
  then show "machine_ok (exec (on_mem f) k)"
    using memory_ok_part [OF same [of "mem k"]] by (simp add: machine_ok_def)
qed

lemma keeps_allocation [sound_intro]: "keeps machine_ok page_alloc"
proof -
  have "frame kbd page_alloc"
    using frame_page_alloc(1) by (simp add: frame_def settings_def)
  then show ?thesis
    using keeps_memory_ok(1) [of 1] by (auto simp: keeps_def machine_ok_def frame_def page_alloc_def)
qed

lemma keeps_writes [sound_intro]:
  "keeps machine_ok (on_mem (write64 a v))" "keeps machine_ok (on_mem (clear_page a))"
  "keeps machine_ok (on_mem (store_bytes a bs))" "keeps machine_ok (on_mem (build_tables a b c d e))"
  "keeps machine_ok (on_mem (grant_user a b c))" "keeps machine_ok (on_mem (\<lambda>m. m\<lparr>cr3 := c\<rparr>))"
  "keeps machine_ok (on_mem (\<lambda>m. write64 a v (zero_page b m)))" "keeps machine_ok (on_mem (user_store va u))"
  "keeps machine_ok (on_mem (fold (\<lambda>j. write64 (g j) (h j)) ns))" "keeps machine_ok (on_mem (\<lambda>m. m))"
  by (rule keeps_on_mem; simp add: fold_frame [of _ allocator_part])+

section \<open>Every operation\<close>

lemma keeps_paging [sound_intro]:
  "keeps machine_ok (memory_switch_address_space r a t p)" "keeps machine_ok (memory_create_address_space ow)"
  "keeps machine_ok (memory_map_process_page r v ph us w x p)" "keeps machine_ok (memory_map_user_page ph x)"
  unfolding memory_switch_address_space_def memory_create_address_space_def memory_map_process_page_def
    memory_map_user_page_def Let_def
  by (rule sound_intro | rule keeps_core, rule frame_intro)+

lemma keeps_processes [sound_intro]:
  "keeps machine_ok user_init" "keeps machine_ok create_process" "keeps machine_ok (transition_scaffold p)"
  "keeps machine_ok (load_image i f fl po)" "keeps machine_ok (map_private_probe_page i)"
  unfolding user_init_def create_process_def transition_scaffold_def load_image_def
    map_private_probe_page_def Let_def
  by (rule sound_intro | rule keeps_core, rule frame_intro)+

lemma keeps_load_executable [sound_intro]: "keeps machine_ok (load_executable i f)"
  unfolding load_executable_def by (rule sound_intro | rule keeps_core, rule frame_intro)+

lemma keeps_syscall_parts [sound_intro]:
  "keeps machine_ok (syscall_begin p t)" "keeps machine_ok (syscall_finish i ok)" "keeps machine_ok (refuse_syscall i po)"
  unfolding syscall_begin_def refuse_syscall_def syscall_finish_def
  by (rule sound_intro | rule keeps_core, rule frame_intro)+

lemma keeps_syscalls [sound_intro]:
  "keeps machine_ok (user_syscall_inspect p t)" "keeps machine_ok (user_syscall_yield p)"
  "keeps machine_ok (user_syscall_config_get p t)" "keeps machine_ok (user_syscall_config_set_denied p t)"
  "keeps machine_ok (unknown_syscall p)"
  unfolding user_syscall_inspect_def user_syscall_yield_def user_syscall_config_get_def
    user_syscall_config_set_denied_def unknown_syscall_def
  by (rule sound_intro | rule keeps_core, rule frame_intro)+

lemma keeps_fault [sound_intro]:
  "keeps machine_ok (user_handle_fault v e r c a)" "keeps machine_ok (exception_handler v e r c a)"
  unfolding exception_handler_def user_handle_fault_def Let_def
  by (rule sound_intro | rule keeps_core, rule frame_intro)+

lemma keeps_trap [sound_intro]: "keeps machine_ok (user_syscall_trap n cs a)"
  unfolding user_syscall_trap_def dispatch_syscall_def
  by (rule sound_intro | rule keeps_core, rule frame_intro)+

lemma keyboard_ok_display [simp]: "keyboard_ok (k\<lparr>display := d\<rparr>) = keyboard_ok k"
  by (simp add: keyboard_ok_def line_ok_def history_ok_def)

lemma keeps_keyboard [sound_intro]: "keeps machine_ok (keyboard_interrupt c)"
  by (simp add: keeps_def machine_ok_def keyboard_interrupt_def Let_def keyboard_handler_ok)

lemma keeps_user_act [sound_intro]: "keeps machine_ok (user_act a)"
  unfolding user_act_def user_access_def
  by (cases a; simp only: user_action.case option.case) (rule sound_intro | rule keeps_core, rule frame_intro)+

lemma keeps_ring3 [sound_intro]: "keeps machine_ok (user_enter_ring3 program)"
  by (induction program) (auto intro!: sound_intro)

lemma keeps_demo [sound_intro]: "keeps machine_ok (user_run_demo program)"
  unfolding user_run_demo_def prepare_demo_def enter_demo_def
  by (rule sound_intro | rule keeps_core, rule frame_intro)+

lemma keeps_settings [sound_intro]:
  "keeps machine_ok (on_cfg c)" "keeps machine_ok (on_pol q)" "keeps machine_ok (on_reg r)" "keeps machine_ok (on_jnl j)"
  by (simp_all add: keeps_def machine_ok_def)

lemma keeps_config_set [sound_intro]: "keeps machine_ok (config_set key v)"
  unfolding config_set_def by (rule sound_intro | rule keeps_core, rule frame_intro)+

lemma keeps_policy [sound_intro]:
  "keeps machine_ok (register_capability_object i p)" "keeps machine_ok (policy_change_rule al s op ob)"
  "keeps machine_ok (policy_init b)"
  unfolding register_capability_object_def policy_change_rule_def policy_init_def Let_def ensure_loaded_def
  by (rule sound_intro | rule keeps_core, rule frame_intro)+

lemma keeps_set_commands [sound_intro]:
  "keeps machine_ok (set_config_to key v)" "keeps machine_ok (change_policy al s op ob)"
  "keeps machine_ok (set_config q)" "keeps machine_ok (run_policy_command q')"
  unfolding set_config_to_def change_policy_def set_config_def run_policy_command_def split_beta
  by (rule sound_intro | rule keeps_core, rule frame_intro)+

lemma keeps_run_command [sound_intro]:
  "keeps machine_ok (run_argument_command e t w a')" "keeps machine_ok (run_command e t w a program)"
  unfolding run_argument_command_def run_command_def
  by (rule sound_intro | rule keeps_core, (rule frame_intro)+)+

lemma keeps_shell_command [sound_intro]: "keeps machine_ok (shell_command b line program)"
  unfolding shell_command_def split_beta Let_def
  by (rule sound_intro | rule keeps_core, (rule frame_intro)+)+

lemma keeps_begin_line [sound_intro]: "keeps machine_ok (modify (\<lambda>k. k\<lparr>kbd := keyboard_begin_line (kbd k)\<rparr>))"
  by (simp add: keeps_def machine_ok_def keyboard_begin_line_ok)

lemma keeps_prompt [sound_intro]: "keeps machine_ok begin_prompt"
  unfolding begin_prompt_def by (rule sound_intro | rule keeps_core, rule frame_intro)+

section \<open>The state at the first prompt\<close>

lemma keeps_start_rest:
  "keeps machine_ok start_files" "keeps machine_ok start_config" "keeps machine_ok (start_shell im)"
  unfolding start_files_def start_config_def start_shell_def init_idt_def
  by (rule sound_intro | rule keeps_core, rule frame_intro)+

lemma frame_sum [frame_intro]:
  "(\<And>a. x = Inl a \<Longrightarrow> frame p (f a)) \<Longrightarrow> (\<And>b. x = Inr b \<Longrightarrow> frame p (g b)) \<Longrightarrow>
   frame p (case x of Inl a \<Rightarrow> f a | Inr b \<Rightarrow> g b)"
  by (simp split: sum.split)

lemma frame_memory_init: "frame settings (memory_init ts be info)"
  unfolding memory_init_def by (intro frame_intro)

lemma frame_kbd_on: "frame kbd (on_pol q)" "frame kbd (on_cfg c)"
  by (simp_all add: frame_def)

lemma start_memory_ok:
  assumes "keyboard_ok (kbd k)" and "ret (start_memory im info b) k"
  shows "machine_ok (exec (start_memory im info b) k)"
proof -
  let ?k = "exec (do { policy_init b; on_con clear_screen; on_con vga_enable_cursor;
    kserial (''GlassOS: initializing memory'' @ crlf) }) k"
  let ?init = "memory_init (im_text_start im) (im_bss_end im) info"
  have k: "exec (start_memory im info b) k = exec ?init ?k" "ret ?init ?k"
    using assms(2) by (simp_all add: start_memory_def)
  have "frame kbd (policy_init b)"
    unfolding policy_init_def register_capability_object_def Let_def by (rule frame_bind frame_for_each frame_pure frame_kbd_on | rule frame_core(5), rule frame_intro)+
  then have "kbd ?k = kbd k" by (simp add: frameD)
  moreover have "frame kbd ?init"
    using frame_memory_init by (simp add: frame_def settings_def)
  ultimately show ?thesis
    using memory_ok_init(1) [OF k(2)] assms(1) by (simp add: machine_ok_def k(1) frameD)
qed

end
