(* ===== verification/Machine.thy ===== *)
theory Machine
  imports Integrity
begin

text \<open>
  The running system as a step relation: the boot, the timer and keyboard interrupts that arrive
  while the shell waits, and the execution of an entered line. What holds of every reachable state
  is proved by rule induction over it.
\<close>

section \<open>The machine\<close>

datatype phase = Booting | At_Prompt | Stopped

text \<open>The kernel runs commands with interrupts enabled, but a key is ignored until the next prompt and
  a tick only counts; a command is one step here. The programs that \<^verbatim>\<open>userdemo\<close> runs are
  arbitrary.\<close>

inductive machine_step :: "image \<Rightarrow> u32 \<Rightarrow> phase \<times> kernel \<Rightarrow> phase \<times> kernel \<Rightarrow> bool"
  for im :: image and info :: u32
where
  boot: "ret (start_kernel im info 1) k \<Longrightarrow>
    machine_step im info (Booting, k) (At_Prompt, exec (start_kernel im info 1) k)"
| boot_failure: "\<not> ret (start_kernel im info 1) k \<Longrightarrow>
    machine_step im info (Booting, k) (Stopped, exec (start_kernel im info 1) k)"
| tick: "machine_step im info (At_Prompt, k) (At_Prompt, exec timer_handler k)"
| key: "machine_step im info (At_Prompt, k) (At_Prompt, exec (keyboard_interrupt scancode) k)"
| command: "command_ready (kbd k) \<Longrightarrow> ret (shell_command 1 (kbd_line (kbd k)) program) k \<Longrightarrow>
    machine_step im info (At_Prompt, k)
      (At_Prompt, exec begin_prompt (exec (shell_command 1 (kbd_line (kbd k)) program) k))"
| no_return: "command_ready (kbd k) \<Longrightarrow> \<not> ret (shell_command 1 (kbd_line (kbd k)) program) k \<Longrightarrow>
    machine_step im info (At_Prompt, k) (Stopped, exec (shell_command 1 (kbd_line (kbd k)) program) k)"

inductive reachable :: "image \<Rightarrow> u32 \<Rightarrow> (u64 \<Rightarrow> u8) \<Rightarrow> phase \<times> kernel \<Rightarrow> bool"
  for im :: image and info :: u32 and physical :: "u64 \<Rightarrow> u8"
where
  start: "reachable im info physical (Booting, entered physical)"
| step: "reachable im info physical s \<Longrightarrow> machine_step im info s t \<Longrightarrow> reachable im info physical t"

inductive_cases booting_stepE: "machine_step im info (Booting, k) t"
inductive_cases prompt_stepE: "machine_step im info (At_Prompt, k) t"
inductive_simps stopped_step: "machine_step im info (Stopped, k) t"

section \<open>Every step keeps the order, the registry, the screen\<close>

text \<open>What \<open>traces\<close> and \<open>enrols\<close> together say of an operation that is told the boot event.\<close>

definition orderly :: "kernel \<Rightarrow> bool" where
  "orderly k \<longleftrightarrow> (line_left k \<longrightarrow> ordered k \<and> has_event k 1) \<and> registry_sound k \<and> cursor_ok (con k)"

lemma traces_sent: "traces E m f \<Longrightarrow> sent k \<le> sent (exec m k)"
  unfolding tracked_def later_def using le_add1 le_trans by blast

lemma orderly_exec:
  assumes "traces {1} m f" and "enrols {} m g" and "orderly k"
  shows "orderly (exec m k)"
proof -
  have "ordered (exec m k) \<and> has_event (exec m k) 1" if left: "line_left (exec m k)"
  proof -
    have "line_left k"
      using left traces_sent [OF assms(1), of k] by (simp add: line_left_def)
    then have "ordered k" "\<forall>e \<in> {1}. has_event k e"
      using assms(3) by (simp_all add: orderly_def)
    from traces_ordered [OF assms(1) this left] show ?thesis by simp
  qed
  then show ?thesis
    using assms(3) traces_cursor [OF assms(1)] enrols_sound [OF assms(2)] by (simp add: orderly_def)
qed

lemma entered_orderly: "orderly (entered physical)"
  using entered_facts by (simp add: orderly_def)

lemma orderly_interrupts: "orderly k \<Longrightarrow> orderly (exec timer_handler k)" "orderly k \<Longrightarrow> orderly (exec (keyboard_interrupt c) k)"
  by (rule orderly_exec [OF traces_interrupts(1) enrols_interrupts(1)] orderly_exec [OF traces_interrupts(2) enrols_interrupts(2)], assumption)+

lemma orderly_command: "orderly k \<Longrightarrow> orderly (exec (shell_command 1 line program) k)"
  by (rule orderly_exec [OF traces_shell_command enrols_shell_command]) simp_all

lemma orderly_prompt: "orderly k \<Longrightarrow> orderly (exec begin_prompt k)"
  by (rule orderly_exec [OF traces_start(5) enrols_start(4)])

text \<open>The boot: in the configuration's registration the keys must fit their fields.\<close>

lemma frame_cfg_on: "frame cfg (on_pol q)" "frame cfg (on_mem m)"
  by (simp_all add: frame_def)

lemma frame_cfg_start: "frame cfg (start_memory im info b)" "frame cfg start_files"
proof -
  have "frame cfg (policy_init b)"
    unfolding policy_init_def register_capability_object_def Let_def
    by (rule frame_bind frame_for_each frame_pure frame_cfg_on | rule frame_core(2), rule frame_intro)+
  moreover have "frame cfg (memory_init ts be info)" for ts be
    using frame_memory_init by (simp add: frame_def settings_def)
  ultimately show "frame cfg (start_memory im info b)"
    unfolding start_memory_def by (intro frame_bind; simp add: frame_def)
  show "frame cfg start_files"
    unfolding start_files_def by (intro frame_core(2) frame_intro)
qed

lemma orderly_start:
  assumes "orderly k" and "cfg k = initial_entries"
  shows "orderly (exec (start_kernel im info 1) k)"
proof -
  have traced: "traces {1} (start_kernel im info 1) (\<lambda>_. {})" by (rule traces_start_kernel) simp_all
  have "registry_sound (exec (start_kernel im info 1) k)"
  proof -
    let ?k1 = "exec (start_memory im info 1) k"
    have k1: "registry_sound ?k1" "cfg ?k1 = initial_entries"
      using assms enrols_sound [OF enrols_start(1)] by (simp_all add: orderly_def frameD [OF frame_cfg_start(1)])
    show ?thesis
    proof (cases "ret (start_memory im info 1) k")
      case True
      let ?k2 = "exec (do { object_update_state ''ramfs'' ''ready''; kserial (''GlassOS: RAM filesystem ready'' @ crlf) })
        (exec start_files ?k1)"
      have "enrols {} (do { object_update_state ''ramfs'' ''ready''; kserial (''GlassOS: RAM filesystem ready'' @ crlf) }) (\<lambda>_. {})"
        by (rule enrol_intro)+
      then have "registry_sound ?k2"
        by (rule enrols_sound) (rule enrols_sound [OF enrols_start(2) k1(1)])
      moreover have "cfg ?k2 = initial_entries"
        by (simp add: frameD [OF frame_cfg_start(2)] frameD [OF frame_core(2) [OF frame_objects(2)]] k1)
      ultimately have "registry_sound (exec config_init ?k2)"
        by (intro config_init_sound) (simp_all add: initial_keys)
      then have "registry_sound (exec begin_prompt (exec (start_shell im) (exec config_init ?k2)))"
        by (intro enrols_sound [OF enrols_start(4)] enrols_sound [OF enrols_start(3)])
      then show ?thesis
        using True by (simp add: exec_start_kernel(2) start_config_def)
    next
      case False
      show ?thesis
        unfolding exec_start_kernel(3) [OF False] by (rule enrols_sound [OF enrols_panic k1(1)])
    qed
  qed
  moreover have "line_left (exec (start_kernel im info 1) k) \<Longrightarrow> ordered (exec (start_kernel im info 1) k) \<and>
      has_event (exec (start_kernel im info 1) k) 1"
    using assms(1) traces_ordered [OF traced, of k] traces_sent [OF traced, of k]
    by (simp add: orderly_def line_left_def)
  ultimately show ?thesis
    using assms(1) traces_cursor [OF traced] by (simp add: orderly_def)
qed

section \<open>What holds of every reachable state\<close>

definition machine_invariant :: "(u64 \<Rightarrow> u8) \<Rightarrow> phase \<times> kernel \<Rightarrow> bool" where
  "machine_invariant physical s \<longleftrightarrow> orderly (snd s) \<and> (fst s = At_Prompt \<longrightarrow> machine_ok (snd s)) \<and>
     (fst s = Booting \<longrightarrow> snd s = entered physical)"

lemma entered_keyboard: "keyboard_ok (kbd (entered physical))"
  by (simp add: entered_facts zero_keyboard_ok keyboard_ok_def)

lemma start_kernel_ok:
  assumes "ret (start_kernel im info 1) (entered physical)"
  shows "machine_ok (exec (start_kernel im info 1) (entered physical))"
proof -
  let ?k = "entered physical"
  have ok: "ret (start_memory im info 1) ?k" using assms by (simp add: exec_start_kernel)
  have "keeps machine_ok (do { start_files; start_config; start_shell im; begin_prompt })"
    by (rule sound_intro keeps_start_rest)+
  then show ?thesis
    unfolding exec_start_kernel(2) [OF ok]
    by (rule keepsD) (rule start_memory_ok [OF entered_keyboard ok])
qed

lemma step_invariant:
  assumes "machine_step im info s t" and "machine_invariant physical s"
  shows "machine_invariant physical t"
  using assms
proof (induction rule: machine_step.induct)
  case (boot k)
  then have "k = entered physical" by (simp add: machine_invariant_def)
  with boot show ?case
    using orderly_start [of k] start_kernel_ok
    by (simp add: machine_invariant_def entered_facts)
next
  case (boot_failure k)
  then show ?case
    using orderly_start [of "entered physical"] entered_orderly by (simp add: machine_invariant_def entered_facts)
next
  case (tick k)
  then show ?case
    using orderly_interrupts keepsD [OF keeps_parts(4)] by (simp add: machine_invariant_def)
next
  case (key k scancode)
  then show ?case
    using orderly_interrupts keepsD [OF keeps_keyboard] by (simp add: machine_invariant_def)
next
  case (command k program)
  then show ?case
    using orderly_prompt orderly_command keepsD [OF keeps_prompt] keepsD [OF keeps_shell_command]
    by (simp add: machine_invariant_def)
next
  case (no_return k program)
  then show ?case
    using orderly_command by (simp add: machine_invariant_def)
qed

lemma reachable_invariant: "reachable im info physical s \<Longrightarrow> machine_invariant physical s"
proof (induction rule: reachable.induct)
  case start
  then show ?case by (simp add: machine_invariant_def entered_orderly)
qed (rule step_invariant)

section \<open>When the boot succeeds\<close>

lemma memory_init_ret:
  "ret (memory_init ts be info) k \<longleftrightarrow> info_valid (mem k) info \<and>
     (\<exists>m p. load_memory_map ts be info (reset_memory (mem k)) = Inr m \<and>
        alloc_choice 16 (m\<lparr>allocator_ready := True\<rparr>) = Some p)"
proof
  assume ok: "ret (memory_init ts be info) k"
  then have "info_valid (mem k) info" by (auto simp: memory_init_def split: if_splits)
  with ok show "info_valid (mem k) info \<and>
     (\<exists>m p. load_memory_map ts be info (reset_memory (mem k)) = Inr m \<and>
        alloc_choice 16 (m\<lparr>allocator_ready := True\<rparr>) = Some p)"
    by (auto elim: memory_init_effect)
next
  assume "info_valid (mem k) info \<and>
     (\<exists>m p. load_memory_map ts be info (reset_memory (mem k)) = Inr m \<and>
        alloc_choice 16 (m\<lparr>allocator_ready := True\<rparr>) = Some p)"
  then obtain m p where valid: "info_valid (mem k) info"
    and m: "load_memory_map ts be info (reset_memory (mem k)) = Inr m"
    and p: "alloc_choice 16 (m\<lparr>allocator_ready := True\<rparr>) = Some p" by blast
  have "p < PAGE_COUNT" "0 < p" using alloc_choice_Some(1,2) [OF p] by simp_all
  then have "(word_of_nat p * 4096 :: u64) \<noteq> 0"
    using page_address [of p] by (metis mult_eq_0_iff neq0_conv not_numeral_le_zero unat_0 zero_neq_numeral)
  then show "ret (memory_init ts be info) k"
    using valid m p by (simp add: memory_init_def event_current_def mem_simps mem_page_alloc_contiguous)
qed

lemma mem_start: "mem (exec (do { policy_init b; on_con clear_screen; on_con vga_enable_cursor; kserial s }) k) = mem k"
proof -
  have "frame mem (policy_init b)"
    unfolding policy_init_def register_capability_object_def Let_def
    by (rule frame_bind frame_for_each frame_pure | rule frame_core(3), rule frame_intro | simp add: frame_def; fail)+
  then show ?thesis by (simp add: frameD)
qed

lemma start_memory_ret:
  "ret (start_memory im info b) k = ret (memory_init (im_text_start im) (im_bss_end im) info) k"
  unfolding memory_init_ret mem_start [of b "''GlassOS: initializing memory'' @ crlf" k, symmetric]
  by (simp add: start_memory_def memory_init_ret)

lemma frame_halted_on:
  "frame halted (on_pol q)" "frame halted (on_dsc d)" "frame halted (on_usr u)" "frame halted (memory_init ts be info)"
  "frame halted (modify (\<lambda>k. k\<lparr>kbd := b (kbd k)\<rparr>))"
  using frame_memory_init [of ts be info] by (simp_all add: frame_def on_dsc_def settings_def)

lemma frame_halted [THEN frameD, simp]:
  "frame halted (start_memory im info b)" "frame halted start_files" "frame halted start_config"
  "frame halted (start_shell im)" "frame halted begin_prompt"
  unfolding start_memory_def policy_init_def register_capability_object_def start_files_def start_config_def
    start_shell_def user_init_def init_idt_def begin_prompt_def Let_def
  by (rule frame_bind frame_for_each frame_pure frame_halted_on | rule frame_core(7), rule frame_intro)+

lemma halted_panic [simp]: "halted (exec (panic_impl m f l) k)"
  by (simp add: panic_impl_def)

lemma entered_count: "count (jnl (entered physical)) = 1"
  by (simp add: entered_def enter_kernel_def event_record_def exec_record set_current_def event_set_current_def
      power_on_def event_init_def ring_push_def Let_def)

text \<open>A machine that boots: one usable megabyte and a kernel image below it.\<close>

definition small_image :: image where
  "small_image = \<lparr>im_text_start = 0x200000, im_bss_end = 0x280000, im_gdt = 0x270000, im_tss = 0x271000,
     im_idt = 0x272000, im_interrupt_stack = 0x273000, im_exception_stubs = (\<lambda>n. 0x210000 + 16 * word_of_nat n),
     im_timer_isr = 0x210400, im_keyboard_isr = 0x210500, im_syscall_isr = 0x210600\<rparr>"

lemma small_boot:
  "reachable small_image 0x9000 one_megabyte (At_Prompt, exec (start_kernel small_image 0x9000 1) (entered one_megabyte))"
proof (rule reachable.step [OF reachable.start boot])
  have "ram (mem (entered one_megabyte)) = one_megabyte" by (simp add: entered_facts zero_memory_def)
  then show "ret (start_kernel small_image 0x9000 1) (entered one_megabyte)"
    by (simp add: exec_start_kernel start_memory_ret small_image_def one_megabyte_init)
qed

section \<open>Properties\<close>

text \<open>C14: The kernel reaches its first prompt exactly when the firmware's memory map is accepted and leaves
  sixteen consecutive free pages above the first megabyte for the heap; otherwise it stops in a panic. No
  other step of the boot can fail: not the policy, the files, the configuration or the processes.\<close>

theorem boot_outcome:
  "ret (kernel_main im info) (power_on physical) =
     (info_valid (zero_memory physical) info \<and>
      (\<exists>m q. load_memory_map (im_text_start im) (im_bss_end im) info (reset_memory (zero_memory physical)) = Inr m \<and>
         256 \<le> q \<and> range_is_free q 16 m)) \<and>
   halted (exec (kernel_main im info) (power_on physical)) = (\<not> ret (kernel_main im info) (power_on physical))"
proof -
  let ?k = "entered physical"
  have main: "ret (kernel_main im info) (power_on physical) = ret (start_kernel im info 1) ?k"
    "exec (kernel_main im info) (power_on physical) = exec (start_kernel im info 1) ?k"
    by (simp_all add: kernel_main_def entered_facts(1) entered_def)
  have free: "range_is_free q 16 (m\<lparr>allocator_ready := True\<rparr>) = range_is_free q 16 m" for q m
    by (simp add: range_is_free_iff)
  have "(\<exists>p. alloc_choice 16 (m\<lparr>allocator_ready := True\<rparr>) = Some p) \<longleftrightarrow> (\<exists>q. 256 \<le> q \<and> range_is_free q 16 m)" for m
  proof
    assume "\<exists>p. alloc_choice 16 (m\<lparr>allocator_ready := True\<rparr>) = Some p"
    then obtain p where p: "alloc_choice 16 (m\<lparr>allocator_ready := True\<rparr>) = Some p" by blast
    have "256 \<le> p \<and> range_is_free p 16 m"
      using alloc_choice_Some(1,2,4) [OF p] by (simp add: range_is_free_iff)
    then show "\<exists>q. 256 \<le> q \<and> range_is_free q 16 m" by blast
  next
    assume "\<exists>q. 256 \<le> q \<and> range_is_free q 16 m"
    then show "\<exists>p. alloc_choice 16 (m\<lparr>allocator_ready := True\<rparr>) = Some p"
      using alloc_choice_None [of 16 "m\<lparr>allocator_ready := True\<rparr>"] by (auto simp: free)
  qed
  then show ?thesis
    by (cases "ret (start_memory im info 1) ?k")
      (auto simp: main exec_start_kernel start_memory_ret memory_init_ret entered_facts)
qed

text \<open>C1: In every state the machine can reach by any sequence of ticks, keys, commands and user programs,
  while fewer than \<open>2 ^ 64 - 1\<close> characters have been sent on the serial line: the retained events carry
  consecutive numbers, every event was recorded after the event it names as its cause, and every
  transaction was begun after its parent event and ends with an event that has been recorded.\<close>

theorem reachable_history:
  assumes "reachable im info physical (ph, k)" and "length (serial_text (con k)) < 2 ^ 64 - 1"
  shows "ring_ok (jnl k) \<and>
    (\<forall>i < count (jnl k). ev_sequence (events (jnl k) ! i) = next_sequence (jnl k) - word_of_nat (count (jnl k) - i)) \<and>
    (\<forall>e \<in> set (events (jnl k)). ev_parent_event e < ev_sequence e \<and> ev_sequence e < next_sequence (jnl k)) \<and>
    (\<forall>t \<in> set (transactions (jnl k)). tx_id t = tx_begin_event t \<and> tx_parent_event t < tx_begin_event t \<and>
       tx_begin_event t \<le> tx_end_event t \<and> tx_end_event t < next_sequence (jnl k))"
proof -
  have "causal k"
    using reachable_invariant [OF assms(1)] assms(2)
    by (simp add: machine_invariant_def orderly_def line_left_def sent_def ordered_def)
  then show ?thesis by (simp add: causal_def causal_journal_def consecutive_def)
qed

theorem reachable_history_witness:
  "let j = jnl (entered one_megabyte) in
   count j = 1 \<and> ev_parent_event (events j ! 0) < ev_sequence (events j ! 0) \<and> ev_sequence (events j ! 0) < next_sequence j"
proof -
  have one: "count (jnl (entered one_megabyte)) = 1" "length (events (jnl (entered one_megabyte))) = 1"
    by (simp_all add: entered_count)
  then have first: "events (jnl (entered one_megabyte)) ! 0 \<in> set (events (jnl (entered one_megabyte)))" by simp
  have start: "reachable small_image 0x9000 one_megabyte (Booting, entered one_megabyte)" by (rule reachable.start)
  have "length (serial_text (con (entered one_megabyte))) < 2 ^ 64 - 1"
    using entered_facts(10) [of one_megabyte] by (simp add: line_left_def sent_def)
  from reachable_history [OF start this] have "\<forall>e \<in> set (events (jnl (entered one_megabyte))).
      ev_parent_event e < ev_sequence e \<and> ev_sequence e < next_sequence (jnl (entered one_megabyte))"
    by blast
  with first one(1) show ?thesis by (simp add: Let_def)
qed

text \<open>C15: In every reachable state the object registry is well formed: at most 128 objects, the \<open>i\<close>-th has
  id \<open>i + 1\<close>, a parent registered before it (or none), and a name that fits its field, so that following
  parents always ends at the root; and no two objects share a name.\<close>

theorem reachable_registry:
  assumes "reachable im info physical (ph, k)"
  shows "length (objects (reg k)) \<le> 128 \<and> distinct (map obj_name (objects (reg k))) \<and>
    (\<forall>i < length (objects (reg k)). unat (obj_id (objects (reg k) ! i)) = i + 1 \<and>
       unat (obj_parent_id (objects (reg k) ! i)) \<le> i \<and> length (obj_name (objects (reg k) ! i)) < 48)"
proof -
  have ok: "registry_ok (reg k)"
    using reachable_invariant [OF assms]
    by (simp add: machine_invariant_def orderly_def registry_sound_def)
  have "unat (obj_id (objects (reg k) ! i)) = i + 1" if "i < length (objects (reg k))" for i
  proof -
    have "Suc i < 2 ^ 32" using that ok by (simp add: registry_ok_def)
    then show ?thesis
      using registry_ok_nth_id(1) [OF ok that] unat_word_of_nat_small [of "Suc i", where ?'a = 32]
      by (simp del: of_nat_Suc)
  qed
  with ok show ?thesis by (simp add: registry_ok_def object_ok_def)
qed

theorem reachable_registry_witness:
  "distinct (map obj_name (objects (reg (exec (start_kernel small_image 0x9000 1) (entered one_megabyte)))))"
  using reachable_registry [OF small_boot] by blast

text \<open>C16: At every prompt the machine can reach, the text cursor is inside the console's pane, the line editor's
  cursor within its line and its line within the 128-byte buffer, and the allocator sound: only usable pages
  are free, the heap's pages are taken, the heap pointer is aligned and inside the heap.\<close>

theorem prompt_is_sound:
  assumes "reachable im info physical (At_Prompt, k)"
  shows "cursor_ok (con k) \<and> keyboard_ok (kbd k) \<and> length (kbd_line (kbd k)) < 128 \<and> memory_ok (mem k)"
proof -
  have "cursor_ok (con k)" "machine_ok k"
    using reachable_invariant [OF assms] by (simp_all add: machine_invariant_def orderly_def)
  then show ?thesis by (auto simp: machine_ok_def keyboard_ok_def line_ok_def)
qed

theorem prompt_is_sound_witness:
  "memory_ok (mem (exec (keyboard_interrupt 0x1E) (exec (start_kernel small_image 0x9000 1) (entered one_megabyte))))"
  using prompt_is_sound [OF reachable.step [OF small_boot key]] by blast

end
