(* ===== verification/Spec2Isabelle.thy ===== *)
theory Spec2Isabelle
  imports Machine
begin

text \<open>GlassOS kernel. The header follows the development.\<close>

end
